(* ===== verification/Prelude.thy ===== *)
theory Prelude
  imports Main
begin

text \<open>
  What every component of the development shares: results of fallible operations, the
  Go string helpers the store calls, the SQL statements the store issues (as functions on
  tables, a table being a list of rows), and the generic lemmas about them.

  Strings are byte strings. The identifiers, states and tokens the store handles are ASCII,
  and the helpers below follow Go's and PostgreSQL's functions on ASCII text.
\<close>

named_theorems table_simps \<open>facts about statements on tables\<close>
named_theorems res_simps \<open>facts about results\<close>

section \<open>Times\<close>

text \<open>A time is a number of microseconds, the resolution PostgreSQL keeps.\<close>

type_synonym time = int
type_synonym duration = int

abbreviation second :: duration where "second \<equiv> 1000000"
abbreviation minute :: duration where "minute \<equiv> 60 * second"
abbreviation hour :: duration where "hour \<equiv> 3600 * second"

section \<open>Results\<close>

text \<open>
  A Go function that returns \<open>(T, error)\<close> is a function into \<open>'e + 'a\<close>. A transaction that
  fails is rolled back, so an operation on the database returns the new database only
  together with a result.
\<close>

definition ebind :: "'e + 'a \<Rightarrow> ('a \<Rightarrow> 'e + 'b) \<Rightarrow> 'e + 'b" where
  "ebind m f = (case m of Inl e \<Rightarrow> Inl e | Inr x \<Rightarrow> f x)"

lemma ebind_simps [simp]: "ebind (Inl e) f = Inl e" "ebind (Inr x) f = f x"
  by (simp_all add: ebind_def)

lemma ebind_eq_Inr [res_simps]: "ebind m f = Inr y \<longleftrightarrow> (\<exists>x. m = Inr x \<and> f x = Inr y)"
  by (cases m) simp_all

lemma ebind_eq_Inl [res_simps]:
  "ebind m f = Inl e \<longleftrightarrow> m = Inl e \<or> (\<exists>x. m = Inr x \<and> f x = Inl e)"
  by (cases m) simp_all

definition require :: "bool \<Rightarrow> 'e \<Rightarrow> 'e + unit" where
  "require b e = (if b then Inr () else Inl e)"

lemma require_eq_Inr [simp]: "require b e = Inr u \<longleftrightarrow> b"
  by (simp add: require_def)

lemma require_eq_Inl [simp]: "require b e = Inl e' \<longleftrightarrow> \<not> b \<and> e' = e"
  by (auto simp: require_def)

lemma require_simps [simp]: "require True e = Inr ()" "require False e = Inl e"
  by (simp_all add: require_def)

definition of_row :: "'e \<Rightarrow> 'a option \<Rightarrow> 'e + 'a" where
  "of_row e x = (case x of None \<Rightarrow> Inl e | Some y \<Rightarrow> Inr y)"

lemma of_row_eq_Inr [simp]: "of_row e x = Inr y \<longleftrightarrow> x = Some y"
  by (simp add: of_row_def split: option.splits)

lemma of_row_eq_Inl [simp]: "of_row e x = Inl e' \<longleftrightarrow> x = None \<and> e' = e"
  by (auto simp: of_row_def split: option.splits)

lemma of_row_simps [simp]: "of_row e None = Inl e" "of_row e (Some y) = Inr y"
  by (simp_all add: of_row_def)

text \<open>A loop of fallible steps that threads a state and stops at the first error.\<close>

fun efold :: "('a \<Rightarrow> 's \<Rightarrow> 'e + 's) \<Rightarrow> 'a list \<Rightarrow> 's \<Rightarrow> 'e + 's" where
  "efold f [] s = Inr s"
| "efold f (x # xs) s = ebind (f x s) (efold f xs)"

lemma efold_invariant:
  assumes "efold f xs s = Inr s'" and "I s"
    and "\<And>x t t'. x \<in> set xs \<Longrightarrow> f x t = Inr t' \<Longrightarrow> I t \<Longrightarrow> I t'"
  shows "I s'"
  using assms
proof (induction xs arbitrary: s)
  case Nil
  then show ?case by simp
next
  case (Cons x xs)
  from Cons.prems(1) obtain t where t: "f x s = Inr t" and rest: "efold f xs t = Inr s'"
    by (auto simp: res_simps)
  from t Cons.prems(2,3) have "I t" by auto
  with rest Cons.prems(3) show ?case by (intro Cons.IH) auto
qed

section \<open>Strings\<close>

text \<open>\<open>strings.TrimSpace\<close>, and PostgreSQL's \<open>TRIM\<close>, which removes spaces only.\<close>

definition is_space :: "char \<Rightarrow> bool" where
  "is_space c \<longleftrightarrow> c \<in> {CHR '' '', CHR 0x09, CHR 0x0A, CHR 0x0B, CHR 0x0C, CHR 0x0D}"

definition trim_by :: "(char \<Rightarrow> bool) \<Rightarrow> string \<Rightarrow> string" where
  "trim_by p s = rev (dropWhile p (rev (dropWhile p s)))"

definition TrimSpace :: "string \<Rightarrow> string" where
  "TrimSpace s = trim_by is_space s"

definition sql_trim :: "string \<Rightarrow> string" where
  "sql_trim s = trim_by (\<lambda>c. c = CHR '' '') s"

definition lower_char :: "char \<Rightarrow> char" where
  "lower_char c =
     (let n = (of_char c :: nat) in if 65 \<le> n \<and> n \<le> 90 then char_of (n + 32) else c)"

definition ToLower :: "string \<Rightarrow> string" where
  "ToLower s = map lower_char s"

definition EqualFold :: "string \<Rightarrow> string \<Rightarrow> bool" where
  "EqualFold s t \<longleftrightarrow> ToLower s = ToLower t"

lemma trim_by_Nil [simp]: "trim_by p [] = []"
  by (simp add: trim_by_def)

lemma dropWhile_rev_dropWhile:
  "dropWhile p (rev (dropWhile p (rev (dropWhile p s)))) = rev (dropWhile p (rev (dropWhile p s)))"
proof (cases "dropWhile p s")
  case Nil
  show ?thesis unfolding Nil by simp
next
  case (Cons a as)
  then have a: "\<not> p a" by (metis hd_dropWhile list.distinct(1) list.sel(1))
  have "dropWhile p (rev as @ [a]) = dropWhile p (rev as) @ [a] \<or> dropWhile p (rev as @ [a]) = [a]"
    using a by (induction "rev as") (auto simp: dropWhile_append3 dropWhile_append)
  with Cons a show ?thesis by auto
qed

lemma trim_by_idem [simp]: "trim_by p (trim_by p s) = trim_by p s"
proof -
  have "dropWhile p (trim_by p s) = trim_by p s"
    unfolding trim_by_def by (rule dropWhile_rev_dropWhile)
  then have "trim_by p (trim_by p s) = rev (dropWhile p (rev (trim_by p s)))"
    by (simp add: trim_by_def)
  also have "rev (trim_by p s) = dropWhile p (rev (dropWhile p s))"
    by (simp add: trim_by_def)
  finally show ?thesis
    by (simp add: trim_by_def)
qed

lemma TrimSpace_idem [simp]: "TrimSpace (TrimSpace s) = TrimSpace s"
  by (simp add: TrimSpace_def)

lemma TrimSpace_Nil [simp]: "TrimSpace [] = []"
  by (simp add: TrimSpace_def)

lemma EqualFold_refl [simp]: "EqualFold s s"
  by (simp add: EqualFold_def)

section \<open>Tables\<close>

text \<open>
  \<open>UPDATE t SET f WHERE P\<close>, \<open>DELETE FROM t WHERE P\<close> and \<open>SELECT COUNT(*) FROM t WHERE P\<close>.
  A query for one row is \<open>find\<close>: the first row that matches, in insertion order; the
  queries that matter order by a key or match at most one row.
\<close>

definition update_where :: "('a \<Rightarrow> bool) \<Rightarrow> ('a \<Rightarrow> 'a) \<Rightarrow> 'a list \<Rightarrow> 'a list" where
  "update_where P f = map (\<lambda>r. if P r then f r else r)"

definition delete_where :: "('a \<Rightarrow> bool) \<Rightarrow> 'a list \<Rightarrow> 'a list" where
  "delete_where P = filter (\<lambda>r. \<not> P r)"

definition count_where :: "('a \<Rightarrow> bool) \<Rightarrow> 'a list \<Rightarrow> nat" where
  "count_where P rs = length (filter P rs)"

text \<open>\<open>ORDER BY key DESC LIMIT 1\<close> and \<open>ORDER BY key LIMIT 1\<close>.\<close>

fun best_by :: "('a \<Rightarrow> 'a \<Rightarrow> bool) \<Rightarrow> 'a list \<Rightarrow> 'a option" where
  "best_by better [] = None"
| "best_by better (x # xs) =
     (case best_by better xs of None \<Rightarrow> Some x | Some y \<Rightarrow> Some (if better y x then y else x))"

lemma best_by_in: "best_by b xs = Some x \<Longrightarrow> x \<in> set xs"
  by (induction xs arbitrary: x) (auto split: option.splits if_splits)

lemma best_by_None [simp]: "best_by b xs = None \<longleftrightarrow> xs = []"
  by (cases xs) (auto split: option.splits)

lemma find_SomeD: "find P xs = Some x \<Longrightarrow> x \<in> set xs \<and> P x"
  by (auto simp: find_Some_iff)

lemma update_where_Nil [simp]: "update_where P f [] = []"
  by (simp add: update_where_def)

lemma update_where_Cons [simp]:
  "update_where P f (r # rs) = (if P r then f r else r) # update_where P f rs"
  by (simp add: update_where_def)

lemma length_update_where [simp]: "length (update_where P f rs) = length rs"
  by (simp add: update_where_def)

lemma set_update_where:
  "set (update_where P f rs) = (\<lambda>r. if P r then f r else r) ` set rs"
  by (simp add: update_where_def)

lemma in_update_where:
  "r \<in> set (update_where P f rs) \<longleftrightarrow>
     (\<exists>q \<in> set rs. P q \<and> r = f q) \<or> (r \<in> set rs \<and> \<not> P r)"
  by (auto simp: update_where_def)

lemma ball_update_where:
  "(\<forall>r \<in> set (update_where P f rs). Q r) \<longleftrightarrow> (\<forall>r \<in> set rs. if P r then Q (f r) else Q r)"
  by (auto simp: set_update_where)

lemma bex_update_where:
  "(\<exists>r \<in> set (update_where P f rs). Q r) \<longleftrightarrow> (\<exists>r \<in> set rs. if P r then Q (f r) else Q r)"
  by (auto simp: set_update_where)

lemma map_update_where [table_simps]:
  "(\<And>r. P r \<Longrightarrow> g (f r) = g r) \<Longrightarrow> map g (update_where P f rs) = map g rs"
  by (simp add: update_where_def)

lemma update_where_id: "(\<And>r. r \<in> set rs \<Longrightarrow> \<not> P r) \<Longrightarrow> update_where P f rs = rs"
  by (induction rs) auto

lemma set_delete_where [simp]: "set (delete_where P rs) = {r \<in> set rs. \<not> P r}"
  by (simp add: delete_where_def)

lemma count_where_Nil [simp]: "count_where P [] = 0"
  by (simp add: count_where_def)

lemma count_where_Cons [simp]:
  "count_where P (r # rs) = (if P r then Suc (count_where P rs) else count_where P rs)"
  by (simp add: count_where_def)

lemma count_where_append [simp]: "count_where P (xs @ ys) = count_where P xs + count_where P ys"
  by (simp add: count_where_def)

lemma count_where_0: "count_where P rs = 0 \<longleftrightarrow> (\<forall>r \<in> set rs. \<not> P r)"
  by (induction rs) auto

lemma count_where_mono:
  "(\<And>r. r \<in> set rs \<Longrightarrow> P r \<Longrightarrow> Q r) \<Longrightarrow> count_where P rs \<le> count_where Q rs"
  by (induction rs) (auto simp: le_SucI)

lemma count_where_cong:
  "(\<And>r. r \<in> set rs \<Longrightarrow> P r = Q r) \<Longrightarrow> count_where P rs = count_where Q rs"
  by (induction rs) auto

lemma count_where_update_le:
  assumes "\<And>r. r \<in> set rs \<Longrightarrow> P r \<Longrightarrow> Q (f r) \<Longrightarrow> Q r"
  shows "count_where Q (update_where P f rs) \<le> count_where Q rs"
  using assms by (induction rs) (auto simp: le_SucI)

lemma count_where_update_eq:
  assumes "\<And>r. r \<in> set rs \<Longrightarrow> P r \<Longrightarrow> Q (f r) = Q r"
  shows "count_where Q (update_where P f rs) = count_where Q rs"
  using assms by (induction rs) auto

lemma count_where_delete_le: "count_where Q (delete_where P rs) \<le> count_where Q rs"
  by (induction rs) (auto simp: delete_where_def)

text \<open>A statement that touches the rows of one key changes at most one row of a keyed table.\<close>

lemma count_where_update_key:
  assumes "distinct (map key rs)" and "\<And>r. P r \<Longrightarrow> key r = k"
  shows "count_where Q (update_where P f rs) \<le> Suc (count_where Q rs)"
  using assms
proof (induction rs)
  case Nil
  then show ?case by simp
next
  case (Cons r rs)
  show ?case
  proof (cases "P r")
    case True
    then have "key r = k" using Cons.prems(2) by simp
    then have "\<And>q. q \<in> set rs \<Longrightarrow> \<not> P q"
      using Cons.prems by (metis (mono_tags, lifting) distinct.simps(2) image_eqI list.set_map list.simps(9))
    then have "update_where P f rs = rs" by (rule update_where_id)
    then show ?thesis by simp
  next
    case False
    with Cons show ?thesis by simp
  qed
qed

lemma distinct_map_update_where:
  "(\<And>r. P r \<Longrightarrow> key (f r) = key r) \<Longrightarrow>
     distinct (map key (update_where P f rs)) \<longleftrightarrow> distinct (map key rs)"
  by (simp add: map_update_where)

lemma distinct_map_delete_where:
  "distinct (map key rs) \<Longrightarrow> distinct (map key (delete_where P rs))"
  by (induction rs) (auto simp: delete_where_def)

lemma key_eq_row:
  "distinct (map key rs) \<Longrightarrow> r \<in> set rs \<Longrightarrow> q \<in> set rs \<Longrightarrow> key r = key q \<Longrightarrow> r = q"
  by (metis inj_onD distinct_map)

text \<open>
  A partial unique index: at most one row of those in \<open>Q\<close> has a given key. It is what
  \<open>CREATE UNIQUE INDEX ... WHERE Q\<close> enforces.
\<close>

definition unique_where :: "('a \<Rightarrow> bool) \<Rightarrow> ('a \<Rightarrow> 'k) \<Rightarrow> 'a list \<Rightarrow> bool" where
  "unique_where Q key rs \<longleftrightarrow> distinct (map key (filter Q rs))"

lemma unique_where_update:
  assumes "unique_where Q key rs"
    and "\<And>r. r \<in> set rs \<Longrightarrow> P r \<Longrightarrow> Q (f r) \<Longrightarrow> Q r \<and> key (f r) = key r"
  shows "unique_where Q key (update_where P f rs)"
  using assms unfolding unique_where_def
proof (induction rs)
  case Nil
  then show ?case by simp
next
  case (Cons r rs)
  have IH: "distinct (map key (filter Q (update_where P f rs)))"
    using Cons by (auto split: if_splits)
  have sub: "set (map key (filter Q (update_where P f rs))) \<subseteq> set (map key (filter Q rs))"
  proof
    fix k assume "k \<in> set (map key (filter Q (update_where P f rs)))"
    then obtain q where q: "q \<in> set (update_where P f rs)" "Q q" "k = key q" by auto
    from q(1) obtain q0 where q0: "q0 \<in> set rs" "q = (if P q0 then f q0 else q0)"
      by (auto simp: set_update_where)
    with q Cons.prems(2)[of q0] show "k \<in> set (map key (filter Q rs))"
      by (cases "P q0") auto
  qed
  show ?case
  proof (cases "Q (if P r then f r else r)")
    case True
    with Cons.prems(2)[of r] have "Q r" "key (if P r then f r else r) = key r" by (auto split: if_splits)
    with Cons.prems(1) sub True IH show ?thesis by auto
  next
    case False
    with IH show ?thesis by auto
  qed
qed

lemma unique_where_append1:
  "unique_where Q key (rs @ [r]) \<longleftrightarrow>
     unique_where Q key rs \<and> (Q r \<longrightarrow> (\<forall>q \<in> set rs. Q q \<longrightarrow> key q \<noteq> key r))"
  unfolding unique_where_def by (auto simp: image_iff)

lemma unique_where_delete: "unique_where Q key rs \<Longrightarrow> unique_where Q key (delete_where P rs)"
  unfolding unique_where_def by (induction rs) (auto simp: delete_where_def)

lemma unique_whereD:
  assumes "unique_where Q key rs" "r \<in> set rs" "q \<in> set rs" "Q r" "Q q" "key r = key q"
  shows "r = q"
  using assms unfolding unique_where_def by (auto dest: key_eq_row [of key "filter Q rs" r q])

lemma unique_where_cong_map:
  "(\<And>r. r \<in> set rs \<Longrightarrow> Q (f r) = Q r) \<Longrightarrow> (\<And>r. r \<in> set rs \<Longrightarrow> key (f r) = key r) \<Longrightarrow>
     unique_where Q key (map f rs) \<longleftrightarrow> unique_where Q key rs"
  unfolding unique_where_def
proof (induction rs)
  case Nil
  then show ?case by simp
next
  case (Cons a rs)
  have "key ` {x \<in> f ` set rs. Q x} = key ` {x \<in> set rs. Q x}"
    using Cons.prems by (auto simp: image_iff) (metis+)
  with Cons show ?case by auto
qed

text \<open>An update of the one row with a key changes a sum over the table by that row's change.\<close>

lemma sum_update_one:
  fixes val :: "'a \<Rightarrow> int"
  assumes "unique_where Q key rs" and "\<exists>r \<in> set rs. Q r \<and> key r = k"
    and "\<And>r. Q r \<Longrightarrow> key r = k \<Longrightarrow> val (f r) = val r + delta"
  shows "sum_list (map val (update_where (\<lambda>r. Q r \<and> key r = k) f rs)) = sum_list (map val rs) + delta"
  using assms
proof (induction rs)
  case Nil
  then show ?case by simp
next
  case (Cons r rs)
  show ?case
  proof (cases "Q r \<and> key r = k")
    case True
    have "\<not> (Q q \<and> key q = k)" if "q \<in> set rs" for q
      using Cons.prems(1) True that unfolding unique_where_def by (simp add: image_iff) metis
    then have "update_where (\<lambda>r. Q r \<and> key r = k) f rs = rs" by (rule update_where_id)
    with True Cons.prems(3) [of r] show ?thesis by simp
  next
    case False
    have "\<exists>r \<in> set rs. Q r \<and> key r = k" using Cons.prems(2) False by auto
    moreover have "unique_where Q key rs"
      using Cons.prems(1) by (cases "Q r") (simp_all add: unique_where_def)
    ultimately have "sum_list (map val (update_where (\<lambda>r. Q r \<and> key r = k) f rs))
        = sum_list (map val rs) + delta"
      using Cons.IH Cons.prems(3) by blast
    with False show ?thesis by auto
  qed
qed

lemma map_filter_update_where:
  "(\<And>r. P r \<Longrightarrow> Q (f r) = Q r) \<Longrightarrow> (\<And>r. P r \<Longrightarrow> g (f r) = g r) \<Longrightarrow>
     map g (filter Q (update_where P f rs)) = map g (filter Q rs)"
  by (induction rs) auto

lemma fold_invariant_snd:
  assumes "I s" and "\<And>x t. x \<in> set xs \<Longrightarrow> I t \<Longrightarrow> I (f x t)"
  shows "I (fold f xs s)"
  using assms by (induction xs arbitrary: s) auto

text \<open>
  An update of the row with one primary key may give it a new index key, if no other row of the
  partial index has that key.
\<close>

lemma unique_where_set_key:
  assumes "distinct (map pk rs)" and "unique_where Q key rs"
    and "\<And>r. r \<in> set rs \<Longrightarrow> P r \<Longrightarrow> pk r = i"
    and "\<And>r q. r \<in> set rs \<Longrightarrow> P r \<Longrightarrow> Q (f r) \<Longrightarrow> q \<in> set rs \<Longrightarrow> \<not> P q \<Longrightarrow> Q q \<Longrightarrow> key q \<noteq> key (f r)"
  shows "unique_where Q key (update_where P f rs)"
  using assms
proof (induction rs)
  case (Cons x rs)
  have u: "unique_where Q key rs"
    using Cons.prems(2) by (cases "Q x") (simp_all add: unique_where_def)
  show ?case
  proof (cases "P x")
    case True
    have noP: "\<not> P y" if "y \<in> set rs" for y
    proof
      assume "P y"
      then have "pk y = pk x" using Cons.prems(3) that True by simp
      with that Cons.prems(1) show False by (auto simp: image_iff)
    qed
    then have "update_where P f rs = rs" by (rule update_where_id)
    moreover have "key (f x) \<notin> key ` {q \<in> set rs. Q q}" if "Q (f x)"
      using Cons.prems(4) [of x] True noP that by force
    ultimately show ?thesis using u True by (simp add: unique_where_def)
  next
    case False
    have IH: "unique_where Q key (update_where P f rs)"
    proof (rule Cons.IH)
      show "distinct (map pk rs)" using Cons.prems(1) by simp
      show "\<And>r. r \<in> set rs \<Longrightarrow> P r \<Longrightarrow> pk r = i" using Cons.prems(3) by simp
      show "\<And>r q. r \<in> set rs \<Longrightarrow> P r \<Longrightarrow> Q (f r) \<Longrightarrow> q \<in> set rs \<Longrightarrow> \<not> P q \<Longrightarrow> Q q \<Longrightarrow> key q \<noteq> key (f r)"
        using Cons.prems(4) by (meson list.set_intros(2))
    qed (rule u)
    have "key q \<noteq> key x" if "Q x" and q: "q \<in> set (update_where P f rs)" "Q q" for q
    proof -
      from q(1) consider y where "y \<in> set rs" "P y" "q = f y" | "q \<in> set rs"
        by (auto simp: in_update_where)
      then show ?thesis
      proof cases
        case 1
        then show ?thesis using Cons.prems(4) [of y x] that False by auto
      next
        case 2
        then show ?thesis using Cons.prems(2) that
          by (simp add: unique_where_def image_iff) metis
      qed
    qed
    then have "key x \<notin> key ` {q \<in> set (update_where P f rs). Q q}" if "Q x"
      using that by fastforce
    with IH False show ?thesis by (simp add: unique_where_def)
  qed
qed (simp add: unique_where_def)

end
