(* ===== verification/Schema.thy ===== *)
theory Schema
  imports Prelude
begin

text \<open>
  The state of the control plane: the tables of \<open>internal/store/schema.sql\<close> that the modelled
  operations read and write, one record per table (the fields are the columns, prefixed by
  the table), and the database as a record of tables. Nullable columns are options. A table is
  the list of its rows, oldest first.

  The context of an operation holds what it takes from outside the database: the clocks, the
  decoder of snapshot manifests, the hash of relay tokens, and the rows another transaction
  holds locked (which \<open>SKIP LOCKED\<close> passes over).
\<close>

section \<open>Errors\<close>

text \<open>
  The store's error values. \<open>ErrMsg\<close> is an error made on the spot with \<open>errors.New\<close> or
  \<open>fmt.Errorf\<close>; \<open>ErrConstraint\<close> is what the database answers when a statement would break
  the named constraint or unique index; \<open>ErrNoRows\<close> is \<open>sql.ErrNoRows\<close>.
\<close>

datatype err =
    ErrNoReadyHost | ErrDeviceNotFound | ErrLastActiveDevice | ErrRuntimeNotFound
  | ErrRuntimeNotReady | ErrSessionNotFound | ErrSessionAlreadyActive
  | ErrDeviceRequestReplay | ErrNodeRequestReplay | ErrHostNotFound | ErrRuntimeEntitlement
  | ErrRuntimeQuota | ErrRuntimeActiveQuota | ErrRuntimeStartQuota | ErrRuntimeTrialTimeQuota
  | ErrRuntimeStorageQuota | ErrRuntimeSnapshotRollback | ErrAccountNotFound | ErrRuntimeBlobOwner
  | ErrRuntimeCleanupPending | ErrRuntimeObservationStale | ErrRuntimeBlobKeyHandoff
  | ErrRuntimeCapability | ErrRuntimeCapabilityReplay | ErrApprovedNodeNotFound
  | ErrApprovedNodeExists | ErrApprovedNodeRevoked | ErrNodeOperatorNotFound
  | ErrNodeOperatorRevoked | ErrNodeKeyRotationOverlap | ErrNodeKeyAlreadyActive
  | ErrRuntimeBalance | ErrDepositAccountNotFound | ErrProvisioningCapacity | ErrTrialVMCapacity
  | ErrTrialVMRate | ErrProvisionedVMNotFound | ErrProvisionedVMTransition
  | ErrRuntimeMediaSettingsActive | ErrRuntimeProfile | ErrRuntimeIdleTimeout | ErrRuntimeEgressActive
  | ErrRuntimeEgressMode | ErrRuntimeRegion | ErrAppSelection string
  | ErrIdentityNotFound | ErrIdentityAlreadySet | ErrIdentityAuthFailed | ErrIdentityKeyRequired
  | ErrBootstrapInviteInvalid | ErrRecoveryNotConfigured | ErrRecoveryAlreadyConfigured
  | ErrRecoveryChallengeInvalid | ErrRecoveryDeviceExists | ErrRecoveryLoginFailed | ErrRecoveryLoginRequired
  | ErrRecoveryLocked | ErrRecoveryUpgradeRequired | ErrRecoveryDowngrade | ErrNotificationSubscription
  | ErrNotificationDelivery | ErrNotificationAgent | ErrSecurityEventRateLimit
  | ErrNoRows | ErrConstraint string | ErrMsg string

type_synonym 'a res = "err + 'a"

section \<open>Rows\<close>

record account =
  a_id :: string
  a_deleted_at :: "time option"
  a_runtime_region :: string
  a_deposit_index :: "int option"
  a_wallet_viewed_at :: "time option"
  a_storage_billed_on :: "int option"
  a_sia_registered_at :: "time option"
  a_sia_released_at :: "time option"

record account_entitlement =
  e_account_id :: string
  e_source :: string
  e_status :: string
  e_runtime_limit :: int
  e_active_runtime_limit :: int
  e_runtime_starts_per_day :: int
  e_storage_bytes_limit :: int
  e_trial_runtime_seconds :: int
  e_trial_runtime_seconds_used :: int
  e_expires_at :: "time option"
  e_updated_at :: time

record ledger_entry =
  l_account_id :: string
  l_kind :: string
  l_amount_micro :: int
  l_reference :: string
  l_created_at :: time

record usdt_deposit =
  d_tx_id :: string
  d_address :: string
  d_account_id :: string
  d_amount_micro :: int
  d_block_time :: time
  d_credited_at :: time

record host =
  h_id :: string
  h_docker_socket :: bool
  h_binder :: bool
  h_audio_streaming :: bool
  h_file_import :: bool
  h_public_key :: string
  h_region :: string
  h_last_heartbeat_at :: time
  h_snp_attestation :: string

record node_operator =
  o_id :: string
  o_name :: string
  o_status :: string
  o_approved_at :: time
  o_revoked_at :: "time option"
  o_updated_at :: time

record approved_node =
  n_node_id :: string
  n_operator_id :: string
  n_status :: string
  n_active_key_version :: int
  n_revoked_at :: "time option"
  n_updated_at :: time

record approved_node_key =
  k_node_id :: string
  k_key_version :: int
  k_public_key :: string
  k_fingerprint :: string
  k_state :: string
  k_valid_from :: time
  k_valid_until :: "time option"
  k_retired_at :: "time option"

record node_audit =
  na_node_id :: string
  na_operator_id :: string
  na_action :: string
  na_actor :: string
  na_reason :: string
  na_key_version :: int
  na_fingerprint :: "string option"

record operator_audit =
  oa_operator_id :: string
  oa_action :: string
  oa_actor :: string
  oa_reason :: string

record runtime =
  r_id :: string
  r_account_id :: string
  r_name :: string
  r_status :: string
  r_desired_state :: string
  r_connection_status :: string
  r_host_id :: "string option"
  r_persona_version :: int
  r_active_persona_json :: "string option"
  r_android_image :: string
  r_android_version :: string
  r_width_px :: int
  r_height_px :: int
  r_density_dpi :: int
  r_audio_enabled :: bool
  r_camera_mode :: string
  r_file_mode :: string
  r_blob_auto_snapshot :: bool
  r_blob_retain_days :: int
  r_blob_store_kind :: "string option"
  r_blob_manifest_json :: "string option"
  r_blob_host_id :: "string option"
  r_blob_last_snapshot_at :: "time option"
  r_started_at :: "time option"
  r_billed_through :: "time option"
  r_load_average :: "int option"
  r_container_name :: "string option"
  r_adb_port :: "int option"
  r_viewer_port :: "int option"
  r_wipe_requested :: bool
  r_cleanup_pending :: bool
  r_operation_generation :: int
  r_last_error :: "string option"
  r_deleted_at :: "time option"
  r_created_at :: time
  r_updated_at :: time
  r_blob_generation_floor :: int
  r_idle_timeout_seconds :: int
  r_egress_mode :: string
  r_region_sealed :: "string option"
  r_identity_reset_persona_version :: "int option"

record runtime_log =
  g_id :: int
  g_runtime_id :: string
  g_source :: string
  g_level :: string
  g_message :: string
  g_repeat_count :: int
  g_created_at :: time
  g_last_seen_at :: "time option"

record start_event =
  v_account_id :: string
  v_runtime_id :: string
  v_created_at :: time

record runtime_capability =
  c_id :: string
  c_account_id :: string
  c_runtime_id :: string
  c_public_key :: string
  c_updated_at :: time
  c_expires_at :: time
  c_revoked_at :: "time option"
  c_last_used_at :: "time option"

record session =
  s_id :: string
  s_runtime_id :: string
  s_device_id :: "string option"
  s_capability_id :: "string option"
  s_status :: string
  s_relay_token :: string
  s_created_at :: time
  s_updated_at :: time
  s_last_client_heartbeat_at :: "time option"
  s_ended_at :: "time option"
  s_end_reason :: "string option"
  s_expires_at :: time
  s_relay_token_consumed_at :: "time option"

record device =
  dv_id :: string
  dv_account_id :: string
  dv_name :: string
  dv_public_key :: string
  dv_blob_key_verifier :: "string option"
  dv_last_seen_at :: "time option"
  dv_revoked_at :: "time option"

record 'k nonce =
  x_key :: 'k
  x_expires_at :: time

record blob_key_handoff =
  b_runtime_id :: string
  b_account_id :: string
  b_host_id :: string
  b_operation :: string
  b_lease_id :: string
  b_envelope_json :: "string option"
  b_blob_key_verifier :: "string option"
  b_expires_at :: time
  b_activated_at :: "time option"

record provisioned_vm =
  p_id :: string
  p_account_id :: "string option"
  p_region :: string
  p_state :: string
  p_desired :: string
  p_item_hash :: string
  p_crn_hash :: string
  p_public_ip :: string
  p_node_public_key :: string
  p_failure :: string
  p_retire_reason :: string
  p_progress :: string
  p_refusal :: string
  p_requested_at :: time
  p_state_changed_at :: time
  p_ready_at :: "time option"
  p_last_used_at :: time
  p_deleted_at :: "time option"

record app_catalog_row =
  ac_package_name :: string
  ac_enabled :: bool

record app_selection =
  as_runtime_id :: string
  as_package_name :: string
  as_selected_at :: time

record bootstrap_invitation =
  bi_id :: string
  bi_token_sha256 :: string
  bi_label :: string
  bi_created_by :: string
  bi_expires_at :: time
  bi_consumed_at :: "time option"
  bi_consumed_account_id :: "string option"
  bi_created_at :: time

record recovery_credential =
  rc_account_id :: string
  rc_version :: int
  rc_kdf_algorithm :: string
  rc_kdf_salt :: string
  rc_kdf_iterations :: int
  rc_envelope_algorithm :: string
  rc_envelope_iv :: string
  rc_envelope_ciphertext :: string
  rc_recovery_public_key :: string
  rc_blob_key_verifier :: string
  rc_kdf_memory_kib :: int
  rc_auth_verifier :: string
  rc_failed_auth_attempts :: int
  rc_auth_locked_until :: "time option"
  rc_created_at :: time
  rc_updated_at :: time

record recovery_challenge =
  ch_id :: string
  ch_account_id :: string
  ch_device_id :: string
  ch_device_name :: string
  ch_device_public_key :: string
  ch_nonce :: string
  ch_expires_at :: time
  ch_consumed_at :: "time option"
  ch_created_at :: time

record account_storage_row =
  st_account_id :: string
  st_provider :: string
  st_funding_model :: string
  st_wallet_address :: "string option"
  st_encrypted_seed_blob :: "string option"
  st_seed_encryption_hint :: "string option"
  st_status :: string
  st_created_at :: time
  st_updated_at :: time

record notification_subscription =
  ns_device_id :: string
  ns_account_id :: string
  ns_encryption_public_key :: string
  ns_relay_public_key :: "string option"
  ns_created_at :: time
  ns_updated_at :: time
  ns_last_connected_at :: "time option"

record notification_agent =
  ag_runtime_id :: string
  ag_account_id :: string
  ag_token_sha256 :: string
  ag_version_code :: int
  ag_configured_at :: time
  ag_last_seen_at :: "time option"

text \<open>
  A row of \<open>runtime_notification_deliveries\<close>, \<open>security_notice_deliveries\<close> or \<open>operator_notice_deliveries\<close>. The
  origin is the runtime, the node, or (for the operator's) nothing.
\<close>

record notification_delivery =
  nd_id :: string
  nd_origin :: string
  nd_event_id :: string
  nd_device_id :: string
  nd_envelope_ciphertext :: string
  nd_created_at :: time
  nd_expires_at :: time
  nd_delivered_at :: "time option"

record credit_status =
  cs_address :: string
  cs_credits :: int
  cs_credits_per_day :: int
  cs_checked_at :: time

record security_event =
  sv_node_id :: string
  sv_source :: string
  sv_rule :: string
  sv_priority :: string
  sv_output :: string
  sv_tags :: "string list"
  sv_event_json :: string
  sv_event_time :: "time option"
  sv_created_at :: time

section \<open>The database\<close>

record db =
  accounts :: "account list"
  account_entitlements :: "account_entitlement list"
  account_ledger :: "ledger_entry list"
  usdt_deposits :: "usdt_deposit list"
  deposit_index_seq :: int
  hosts :: "host list"
  node_operators :: "node_operator list"
  approved_nodes :: "approved_node list"
  approved_node_keys :: "approved_node_key list"
  node_registry_audit :: "node_audit list"
  operator_registry_audit :: "operator_audit list"
  runtimes :: "runtime list"
  runtime_logs :: "runtime_log list"
  runtime_log_seq :: int
  runtime_start_events :: "start_event list"
  runtime_capabilities :: "runtime_capability list"
  sessions :: "session list"
  devices :: "device list"
  device_request_nonces :: "(string \<times> string \<times> string) nonce list"
  node_request_nonces :: "(string \<times> string) nonce list"
  runtime_capability_nonces :: "(string \<times> string) nonce list"
  runtime_blob_key_handoffs :: "blob_key_handoff list"
  provisioned_vms :: "provisioned_vm list"
  app_catalog :: "app_catalog_row list"
  runtime_app_selections :: "app_selection list"
  bootstrap_invitations :: "bootstrap_invitation list"
  account_recovery_credentials :: "recovery_credential list"
  account_recovery_challenges :: "recovery_challenge list"
  account_storage :: "account_storage_row list"
  device_notification_subscriptions :: "notification_subscription list"
  runtime_notification_agents :: "notification_agent list"
  runtime_notification_deliveries :: "notification_delivery list"
  security_notice_deliveries :: "notification_delivery list"
  operator_notice_deliveries :: "notification_delivery list"
  aleph_credit_status :: "credit_status list"
  service_heartbeats :: "(string \<times> time) list"
  security_events :: "security_event list"
  security_event_ingest_limits :: "((string \<times> time) \<times> int) list"

definition empty_db :: db where
  "empty_db = \<lparr>accounts = [], account_entitlements = [], account_ledger = [], usdt_deposits = [],
     deposit_index_seq = 1, hosts = [], node_operators = [], approved_nodes = [],
     approved_node_keys = [], node_registry_audit = [], operator_registry_audit = [],
     runtimes = [], runtime_logs = [], runtime_log_seq = 1, runtime_start_events = [], runtime_capabilities = [],
     sessions = [], devices = [], device_request_nonces = [], node_request_nonces = [],
     runtime_capability_nonces = [], runtime_blob_key_handoffs = [], provisioned_vms = [],
     app_catalog = [], runtime_app_selections = [], bootstrap_invitations = [],
     account_recovery_credentials = [], account_recovery_challenges = [], account_storage = [],
     device_notification_subscriptions = [], runtime_notification_agents = [],
     runtime_notification_deliveries = [], security_notice_deliveries = [], operator_notice_deliveries = [],
     aleph_credit_status = [], service_heartbeats = [], security_events = [],
     security_event_ingest_limits = []\<rparr>"

type_synonym 'a tx = "db \<Rightarrow> err + ('a \<times> db)"

section \<open>Context of an operation\<close>

text \<open>
  \<open>storedBlobManifestUsage\<close> is what the store reads of a snapshot manifest; the JSON text is
  decoded by the context's \<open>unmarshal\<close> (\<open>json.Unmarshal\<close>, \<open>None\<close> when it fails).
\<close>

datatype storedBlobManifestUsage = StoredBlobManifestUsage
  (m_version: int) (m_snapshot_id: string) (m_generation: int) (m_total_bytes: int)
  (m_chunks: "int list") (m_migration_fallback: "storedBlobManifestUsage option")

record ctx =
  db_now :: time
  go_now :: time
  unmarshal :: "string \<Rightarrow> storedBlobManifestUsage option"
  hashToken :: "string \<Rightarrow> string"
  normalizePublicKey :: "string \<Rightarrow> (string \<times> string) option"
  row_locked :: "string \<Rightarrow> bool"

text \<open>\<open>Pricing\<close> and \<open>Store\<close>, less the database handle.\<close>

record pricing =
  RuntimeHourMicro :: int
  StorageGiBMonthMicro :: int

section \<open>Columns read as Go or SQL expressions\<close>

text \<open>\<open>NULLIF(TRIM(COALESCE(x, '')), '') IS NOT NULL\<close>: a text column that holds something.\<close>

definition sql_filled :: "string option \<Rightarrow> bool" where
  "sql_filled x \<longleftrightarrow> sql_trim (case x of None \<Rightarrow> [] | Some s \<Rightarrow> s) \<noteq> []"

text \<open>\<open>COALESCE(NULLIF(TRIM(kind), ''), 'local-disk')\<close>.\<close>

definition sql_store_kind :: "string option \<Rightarrow> string" where
  "sql_store_kind x =
     (case x of None \<Rightarrow> ''local-disk''
      | Some s \<Rightarrow> if sql_trim s = [] then ''local-disk'' else sql_trim s)"

text \<open>\<open>COALESCE(a, b)\<close> of a nullable and a default, and of two nullables.\<close>

definition coalesce :: "'a option \<Rightarrow> 'a \<Rightarrow> 'a" where
  "coalesce x d = (case x of None \<Rightarrow> d | Some v \<Rightarrow> v)"

definition coalesce2 :: "'a option \<Rightarrow> 'a option \<Rightarrow> 'a option" where
  "coalesce2 x y = (case x of None \<Rightarrow> y | Some v \<Rightarrow> Some v)"

lemma coalesce_simps [simp]: "coalesce None d = d" "coalesce (Some v) d = v"
  by (simp_all add: coalesce_def)

lemma coalesce2_simps [simp]: "coalesce2 None y = y" "coalesce2 (Some v) y = Some v"
  by (simp_all add: coalesce2_def)

lemma coalesce2_None_iff [simp]: "coalesce2 x y = None \<longleftrightarrow> x = None \<and> y = None"
  by (cases x) auto

definition valueOrEmpty :: "string option \<Rightarrow> string" where
  "valueOrEmpty x = (case x of None \<Rightarrow> [] | Some s \<Rightarrow> TrimSpace s)"

definition defaultString :: "string \<Rightarrow> string \<Rightarrow> string" where
  "defaultString value fallback = (if TrimSpace value = [] then fallback else TrimSpace value)"

definition truncateRunes :: "string \<Rightarrow> nat \<Rightarrow> string" where
  "truncateRunes value limit = take limit (TrimSpace value)"

definition nullString :: "string option \<Rightarrow> string option" where
  "nullString x =
     (case x of None \<Rightarrow> None | Some s \<Rightarrow> if TrimSpace s = [] then None else Some (TrimSpace s))"

section \<open>Rows of the lifecycle tables\<close>

text \<open>
  The row a lifecycle request addresses: the account's runtime with that id that is neither
  deleted nor being deleted.
\<close>

definition runtime_row :: "string \<Rightarrow> string \<Rightarrow> runtime \<Rightarrow> bool" where
  "runtime_row accountID runtimeID r \<longleftrightarrow>
     r_account_id r = accountID \<and> r_id r = runtimeID \<and> r_deleted_at r = None
     \<and> r_desired_state r \<noteq> ''deleted''"

definition live_session :: "session \<Rightarrow> bool" where
  "live_session s \<longleftrightarrow> s_status s = ''pending'' \<or> s_status s = ''active''"

end
