(* ===== verification/Samples.thy ===== *)
theory Samples
  imports Schema
begin

text \<open>
  A small concrete installation on which the hypotheses of the properties hold: a trial account
  with one stopped runtime, one approved shared host, and a device. The witnesses of the other
  theories evaluate the operations on it.
\<close>

definition sample_ctx :: ctx where
  "sample_ctx = \<lparr>db_now = 1000000000000, go_now = 1000000000000,
     unmarshal = (\<lambda>raw. if raw = ''m1''
        then Some (StoredBlobManifestUsage 3 ''snap-1'' 1 4096 [4096] None)
        else if raw = ''m2'' then Some (StoredBlobManifestUsage 3 ''snap-2'' 2 8192 [4096, 4096] None)
        else None),
     hashToken = (\<lambda>t. CHR ''#'' # t),
     normalizePublicKey = (\<lambda>k. if k = [] then None else Some (k, k)),
     row_locked = (\<lambda>_. False)\<rparr>"

definition sample_pricing :: pricing where
  "sample_pricing = \<lparr>RuntimeHourMicro = 60000, StorageGiBMonthMicro = 100000\<rparr>"

definition sample_account :: account where
  "sample_account = \<lparr>a_id = ''a1'', a_deleted_at = None, a_runtime_region = '''',
     a_deposit_index = Some 7, a_wallet_viewed_at = None, a_storage_billed_on = None,
     a_sia_registered_at = None, a_sia_released_at = None\<rparr>"

definition sample_entitlement :: account_entitlement where
  "sample_entitlement = \<lparr>e_account_id = ''a1'', e_source = ''trial'', e_status = ''active'',
     e_runtime_limit = 3, e_active_runtime_limit = 1, e_runtime_starts_per_day = 20,
     e_storage_bytes_limit = 1073741824, e_trial_runtime_seconds = 3600,
     e_trial_runtime_seconds_used = 0, e_expires_at = None, e_updated_at = 0\<rparr>"

definition sample_runtime :: runtime where
  "sample_runtime = \<lparr>r_id = ''r1'', r_account_id = ''a1'', r_name = ''Phone'', r_status = ''stopped'',
     r_desired_state = ''stopped'', r_connection_status = ''offline'', r_host_id = None,
     r_persona_version = 1, r_active_persona_json = None,
     r_android_image = ''redroid/redroid:14.0.0_64only-latest'', r_android_version = ''android-14'',
     r_width_px = 720, r_height_px = 1600, r_density_dpi = 320, r_audio_enabled = True,
     r_camera_mode = ''photo-import'', r_file_mode = ''upload-only'', r_blob_auto_snapshot = True,
     r_blob_retain_days = 7, r_blob_store_kind = None, r_blob_manifest_json = None,
     r_blob_host_id = None, r_blob_last_snapshot_at = None, r_started_at = None,
     r_billed_through = None, r_load_average = None, r_container_name = None, r_adb_port = None,
     r_viewer_port = None, r_wipe_requested = False, r_cleanup_pending = False,
     r_operation_generation = 1, r_last_error = None, r_deleted_at = None, r_created_at = 0,
     r_updated_at = 0, r_blob_generation_floor = 0, r_idle_timeout_seconds = 1800,
     r_egress_mode = ''direct'', r_region_sealed = None,
     r_identity_reset_persona_version = None\<rparr>"

definition sample_running :: runtime where
  "sample_running = sample_runtime\<lparr>r_status := ''running'', r_desired_state := ''running'',
     r_connection_status := ''online'', r_host_id := Some ''h1'', r_viewer_port := Some 46000,
     r_started_at := Some (1000000000000 - 30 * second), r_operation_generation := 2\<rparr>"

definition sample_session :: session where
  "sample_session = \<lparr>s_id = ''s1'', s_runtime_id = ''r1'', s_device_id = Some ''d1'',
     s_capability_id = None, s_status = ''active'', s_relay_token = ''#tok'', s_created_at = 0,
     s_updated_at = 0, s_last_client_heartbeat_at = None, s_ended_at = None, s_end_reason = None,
     s_expires_at = 2000000000000, s_relay_token_consumed_at = None\<rparr>"

definition sample_device :: device where
  "sample_device = \<lparr>dv_id = ''d1'', dv_account_id = ''a1'', dv_name = ''Pixel'', dv_public_key = ''pk-d1'',
     dv_blob_key_verifier = None, dv_last_seen_at = Some 0, dv_revoked_at = None\<rparr>"

definition sample_host :: host where
  "sample_host = \<lparr>h_id = ''h1'', h_docker_socket = True, h_binder = True,
     h_audio_streaming = True, h_file_import = True, h_public_key = ''pk1'', h_region = '''',
     h_last_heartbeat_at = 1000000000000, h_snp_attestation = ''''\<rparr>"

definition sample_operator :: node_operator where
  "sample_operator = \<lparr>o_id = ''op1'', o_name = ''Operator'', o_status = ''approved'',
     o_approved_at = 0, o_revoked_at = None, o_updated_at = 0\<rparr>"

definition sample_node :: approved_node where
  "sample_node = \<lparr>n_node_id = ''h1'', n_operator_id = ''op1'', n_status = ''approved'',
     n_active_key_version = 1, n_revoked_at = None, n_updated_at = 0\<rparr>"

definition sample_key :: approved_node_key where
  "sample_key = \<lparr>k_node_id = ''h1'', k_key_version = 1, k_public_key = ''pk1'',
     k_fingerprint = ''pk1'', k_state = ''active'', k_valid_from = 0, k_valid_until = None,
     k_retired_at = None\<rparr>"

definition sample_db :: db where
  "sample_db = empty_db\<lparr>accounts := [sample_account], account_entitlements := [sample_entitlement],
     runtimes := [sample_runtime], devices := [sample_device], hosts := [sample_host],
     node_operators := [sample_operator], approved_nodes := [sample_node],
     approved_node_keys := [sample_key], deposit_index_seq := 8\<rparr>"

text \<open>The same installation with the runtime running and a viewer attached.\<close>

definition sample_live :: db where
  "sample_live = sample_db\<lparr>runtimes := [sample_running], sessions := [sample_session]\<rparr>"

lemmas sample_defs = sample_ctx_def sample_pricing_def sample_account_def sample_entitlement_def
  sample_runtime_def sample_running_def sample_session_def sample_device_def sample_host_def
  sample_operator_def sample_node_def sample_key_def sample_db_def sample_live_def empty_db_def

text \<open>Evaluating an operation on a sample: a view of what it returns shows that it succeeds.\<close>

lemma sample_run: "map_sum id f x = Inr v \<Longrightarrow> \<exists>y. x = Inr y \<and> f y = v"
  by (cases x) auto

end
