(* ===== verification/Manifest.thy ===== *)
theory Manifest
  imports Samples
begin

text \<open>
  Snapshot manifests as the control plane reads them (\<open>internal/store/store.go\<close>): how many
  bytes a manifest accounts for, which manifest may replace another, and the generation the
  database reads out of a manifest's text.
\<close>

section \<open>Bytes a manifest accounts for\<close>

definition MaxInt64 :: int where
  "MaxInt64 = 9223372036854775807"

definition maxStoredBlobManifestBytes :: int where
  "maxStoredBlobManifestBytes = 2097152"

definition maxStoredBlobSnapshotBytes :: int where
  "maxStoredBlobSnapshotBytes = 17179869184"

definition maxStoredBlobChunks :: int where
  "maxStoredBlobChunks = 4096"

definition maxStoredBlobChunkBytes :: int where
  "maxStoredBlobChunkBytes = 16777216"

text \<open>The loop over a manifest's chunks.\<close>

fun storedBlobChunkTotal :: "int list \<Rightarrow> int \<Rightarrow> int res" where
  "storedBlobChunkTotal [] chunkTotal = Inr chunkTotal"
| "storedBlobChunkTotal (sz # chunks) chunkTotal =
     (if sz \<le> 0 \<or> sz > maxStoredBlobChunkBytes
      then Inl (ErrMsg ''blob manifest has invalid chunk size'')
      else if chunkTotal > MaxInt64 - sz then Inl (ErrMsg ''blob manifest chunk usage overflows'')
      else storedBlobChunkTotal chunks (chunkTotal + sz))"

fun storedBlobManifestBytesAtDepth :: "storedBlobManifestUsage \<Rightarrow> nat \<Rightarrow> int res" where
  "storedBlobManifestBytesAtDepth
     (StoredBlobManifestUsage version snapshotID generation totalBytes chunks fallback) depth =
     (if depth > 1 then Inl (ErrMsg ''blob manifest migration fallback is nested too deeply'')
      else if version < 1 \<or> version > 3 then Inl (ErrMsg ''blob manifest has unsupported version'')
      else if TrimSpace snapshotID = [] then Inl (ErrMsg ''blob manifest has no snapshot id'')
      else if generation < 0 then Inl (ErrMsg ''blob manifest has an invalid generation'')
      else if totalBytes \<le> 0 \<or> totalBytes > maxStoredBlobSnapshotBytes
      then Inl (ErrMsg ''blob manifest has invalid total size'')
      else if chunks = [] \<or> int (length chunks) > maxStoredBlobChunks
      then Inl (ErrMsg ''blob manifest has invalid chunk count'')
      else ebind (storedBlobChunkTotal chunks 0) (\<lambda>chunkTotal.
        if chunkTotal \<noteq> totalBytes
        then Inl (ErrMsg ''blob manifest chunk total does not match total size'')
        else (case fallback of
            None \<Rightarrow> Inr totalBytes
          | Some m \<Rightarrow>
              ebind (storedBlobManifestBytesAtDepth m (Suc depth)) (\<lambda>fallbackBytes.
                if totalBytes > MaxInt64 - fallbackBytes
                then Inl (ErrMsg ''blob manifest storage usage overflows'')
                else Inr (totalBytes + fallbackBytes)))))"

definition parseStoredBlobManifestUsage :: "ctx \<Rightarrow> string \<Rightarrow> storedBlobManifestUsage option res" where
  "parseStoredBlobManifestUsage c raw0 =
     (let raw = TrimSpace raw0 in
      if raw = [] then Inr None
      else if int (length raw) > maxStoredBlobManifestBytes
      then Inl (ErrMsg ''blob manifest exceeds the maximum encoded size'')
      else case unmarshal c raw of
          None \<Rightarrow> Inl (ErrMsg ''decode blob manifest storage usage'')
        | Some manifest \<Rightarrow>
            ebind (storedBlobManifestBytesAtDepth manifest 0) (\<lambda>_. Inr (Some manifest)))"

definition storedBlobManifestBytes :: "ctx \<Rightarrow> string \<Rightarrow> int res" where
  "storedBlobManifestBytes c raw =
     ebind (parseStoredBlobManifestUsage c raw) (\<lambda>m.
       case m of None \<Rightarrow> Inr 0 | Some manifest \<Rightarrow> storedBlobManifestBytesAtDepth manifest 0)"

text \<open>The loop that adds up the manifests of several runtimes, in the order of the rows.\<close>

fun sumManifestBytes :: "ctx \<Rightarrow> string list \<Rightarrow> int \<Rightarrow> int res" where
  "sumManifestBytes c [] tot = Inr tot"
| "sumManifestBytes c (raw # raws) tot =
     ebind (storedBlobManifestBytes c raw) (\<lambda>manifestBytes.
       if tot > MaxInt64 - manifestBytes then Inl (ErrMsg ''account storage usage overflows'')
       else sumManifestBytes c raws (tot + manifestBytes))"

definition storedManifests :: "string \<Rightarrow> db \<Rightarrow> runtime list" where
  "storedManifests accountID d =
     filter (\<lambda>r. r_account_id r = accountID \<and> r_deleted_at r = None
                 \<and> sql_filled (r_blob_manifest_json r)) (runtimes d)"

definition manifestText :: "runtime \<Rightarrow> string" where
  "manifestText r = coalesce (r_blob_manifest_json r) []"

definition accountStorageBytesUsed :: "ctx \<Rightarrow> string \<Rightarrow> db \<Rightarrow> int res" where
  "accountStorageBytesUsed c accountID d =
     sumManifestBytes c (map manifestText (storedManifests (TrimSpace accountID) d)) 0"

section \<open>Which manifest may replace which\<close>

definition validateStoredBlobManifestAdvance ::
  "ctx \<Rightarrow> string \<Rightarrow> storedBlobManifestUsage option \<Rightarrow> unit res" where
  "validateStoredBlobManifestAdvance c currentRaw incoming =
     (case incoming of
        None \<Rightarrow> Inl ErrRuntimeSnapshotRollback
      | Some m \<Rightarrow>
          if m_version m \<noteq> 3 \<or> m_generation m \<le> 0 \<or> TrimSpace (m_snapshot_id m) = []
          then Inl ErrRuntimeSnapshotRollback
          else ebind (parseStoredBlobManifestUsage c currentRaw) (\<lambda>current.
            case current of
              None \<Rightarrow> if m_generation m \<noteq> 1 then Inl ErrRuntimeSnapshotRollback else Inr ()
            | Some cur \<Rightarrow>
                if m_snapshot_id m = m_snapshot_id cur
                then if m_generation m \<noteq> m_generation cur then Inl ErrRuntimeSnapshotRollback
                     else Inr ()
                else if m_generation cur = MaxInt64 \<or> m_generation m \<noteq> m_generation cur + 1
                then Inl ErrRuntimeSnapshotRollback
                else Inr ()))"

section \<open>The generation the database reads\<close>

text \<open>
  \<open>manifestGenerationSQL\<close> takes the largest number that follows \<open>"generation":\<close> in the text,
  up to 18 digits of it, or 0. A match starts at a quote and its inner quote is followed by a
  colon, so no match starts inside another and trying every position finds the same numbers
  as the database's scan.
\<close>

definition digit_value :: "char \<Rightarrow> nat" where
  "digit_value ch = of_char ch - 48"

definition is_digit :: "char \<Rightarrow> bool" where
  "is_digit ch \<longleftrightarrow> (48 :: nat) \<le> of_char ch \<and> of_char ch \<le> (57 :: nat)"

definition digits_value :: "string \<Rightarrow> int" where
  "digits_value s = foldl (\<lambda>acc ch. acc * 10 + int (digit_value ch)) 0 s"

fun strip_prefix :: "string \<Rightarrow> string \<Rightarrow> string option" where
  "strip_prefix [] s = Some s"
| "strip_prefix (p # ps) [] = None"
| "strip_prefix (p # ps) (s # ss) = (if p = s then strip_prefix ps ss else None)"

definition generation_key :: string where
  "generation_key = CHR 0x22 # ''generation'' @ [CHR 0x22]"

definition match_generation :: "string \<Rightarrow> int option" where
  "match_generation s =
     (case strip_prefix generation_key s of
        None \<Rightarrow> None
      | Some s1 \<Rightarrow>
          (case strip_prefix '':'' (dropWhile is_space s1) of
             None \<Rightarrow> None
           | Some s2 \<Rightarrow>
               (let ds = take 18 (takeWhile is_digit (dropWhile is_space s2))
                in if ds = [] then None else Some (digits_value ds))))"

fun match_generations :: "string \<Rightarrow> int list" where
  "match_generations [] = []"
| "match_generations (ch # s) =
     (case match_generation (ch # s) of None \<Rightarrow> match_generations s
      | Some g \<Rightarrow> g # match_generations s)"

definition manifestGenerationSQL :: "string option \<Rightarrow> int" where
  "manifestGenerationSQL raw =
     (case match_generations (coalesce raw []) of [] \<Rightarrow> 0 | g # gs \<Rightarrow> foldl max g gs)"

section \<open>Bounds on what a manifest accounts for\<close>

lemmas manifest_limits = MaxInt64_def maxStoredBlobManifestBytes_def
  maxStoredBlobSnapshotBytes_def maxStoredBlobChunks_def maxStoredBlobChunkBytes_def

lemma storedBlobChunkTotal_sum:
  "storedBlobChunkTotal chunks tot = Inr n \<Longrightarrow> n = tot + sum_list chunks \<and> (\<forall>s \<in> set chunks. 0 < s)"
  by (induction chunks tot rule: storedBlobChunkTotal.induct) (auto split: if_splits)

text \<open>The chunk count and chunk size limits keep the running total below any overflow.\<close>

lemma storedBlobChunkTotal_no_overflow:
  assumes "0 \<le> tot" and "tot + int (length chunks) * maxStoredBlobChunkBytes \<le> MaxInt64"
  shows "storedBlobChunkTotal chunks tot \<noteq> Inl (ErrMsg ''blob manifest chunk usage overflows'')"
  using assms
proof (induction chunks tot rule: storedBlobChunkTotal.induct)
  case (2 sz chunks tot)
  show ?case
  proof (cases "sz \<le> 0 \<or> sz > maxStoredBlobChunkBytes")
    case False
    have len: "tot + sz + int (length chunks) * maxStoredBlobChunkBytes \<le> MaxInt64"
      using 2 False by (simp add: algebra_simps)
    moreover have "0 \<le> int (length chunks) * maxStoredBlobChunkBytes"
      by (simp add: maxStoredBlobChunkBytes_def)
    ultimately have "\<not> tot > MaxInt64 - sz" by simp
    with 2 False len show ?thesis by simp
  qed auto
qed simp

lemma storedBlobManifestBytesAtDepth_bounds:
  "storedBlobManifestBytesAtDepth m depth = Inr n \<Longrightarrow>
     depth \<le> 1 \<and> 0 < n \<and> n \<le> (2 - int depth) * maxStoredBlobSnapshotBytes \<and> 0 \<le> m_generation m"
proof (induction m depth arbitrary: n rule: storedBlobManifestBytesAtDepth.induct)
  case (1 version snapshotID generation totalBytes chunks fallback depth)
  from 1(2) have base: "depth \<le> 1" "0 \<le> generation" "0 < totalBytes"
      "totalBytes \<le> maxStoredBlobSnapshotBytes"
    by (auto split: if_splits)
  show ?case
  proof (cases fallback)
    case None
    with 1(2) have "n = totalBytes" by (auto simp: res_simps split: if_splits)
    moreover from base have "depth = 0 \<or> depth = 1"
      by auto
    ultimately show ?thesis using base by (auto simp: maxStoredBlobSnapshotBytes_def)
  next
    case (Some m)
    with 1(2) obtain ct fb where ct: "storedBlobChunkTotal chunks 0 = Inr ct" "ct = totalBytes"
        and fb: "storedBlobManifestBytesAtDepth m (Suc depth) = Inr fb" and n: "n = totalBytes + fb"
      by (auto simp: res_simps split: if_splits)
    have "Suc depth \<le> 1 \<and> 0 < fb \<and> fb \<le> (2 - int (Suc depth)) * maxStoredBlobSnapshotBytes"
      using 1(1)[of ct m fb] 1(2) Some ct fb by (auto split: if_splits)
    then show ?thesis using base n by auto
  qed
qed

lemma storedBlobManifestBytesAtDepth_no_overflow:
  "storedBlobManifestBytesAtDepth m depth \<noteq> Inl (ErrMsg ''blob manifest chunk usage overflows'')
   \<and> storedBlobManifestBytesAtDepth m depth \<noteq> Inl (ErrMsg ''blob manifest storage usage overflows'')"
proof (induction m depth rule: storedBlobManifestBytesAtDepth.induct)
  case (1 version snapshotID generation totalBytes chunks fallback depth)
  show ?case
  proof (cases "depth > 1 \<or> version < 1 \<or> version > 3 \<or> TrimSpace snapshotID = [] \<or> generation < 0
      \<or> totalBytes \<le> 0 \<or> totalBytes > maxStoredBlobSnapshotBytes
      \<or> chunks = [] \<or> int (length chunks) > maxStoredBlobChunks")
    case True
    then show ?thesis by auto
  next
    case False
    then have "int (length chunks) * maxStoredBlobChunkBytes
        \<le> maxStoredBlobChunks * maxStoredBlobChunkBytes"
      by (intro mult_right_mono) (auto simp: maxStoredBlobChunkBytes_def)
    then have "storedBlobChunkTotal chunks 0 \<noteq> Inl (ErrMsg ''blob manifest chunk usage overflows'')"
      by (intro storedBlobChunkTotal_no_overflow) (auto simp: manifest_limits)
    moreover have "storedBlobChunkTotal chunks 0 \<noteq> Inl (ErrMsg ''blob manifest storage usage overflows'')"
    proof -
      have "storedBlobChunkTotal cs t \<noteq> Inl (ErrMsg ''blob manifest storage usage overflows'')" for cs t
        by (induction cs t rule: storedBlobChunkTotal.induct) auto
      then show ?thesis .
    qed
    moreover have "\<not> totalBytes > MaxInt64 - fb"
      if "fallback = Some m" "storedBlobManifestBytesAtDepth m (Suc depth) = Inr fb" for m fb
    proof -
      have "int depth \<ge> 0" by simp
      then have "(2 - int (Suc depth)) * maxStoredBlobSnapshotBytes \<le> 1 * maxStoredBlobSnapshotBytes"
        by (intro mult_right_mono) (auto simp: maxStoredBlobSnapshotBytes_def)
      with storedBlobManifestBytesAtDepth_bounds [OF that(2)] False
      show ?thesis by (auto simp: manifest_limits)
    qed
    ultimately show ?thesis
      using 1 False by (auto simp: res_simps split: option.splits if_splits)
  qed
qed

lemma parse_bytes:
  assumes "parseStoredBlobManifestUsage c raw = Inr (Some m)"
  shows "\<exists>n. storedBlobManifestBytesAtDepth m 0 = Inr n"
  using assms by (auto simp: parseStoredBlobManifestUsage_def Let_def res_simps split: if_splits option.splits)

lemma parse_None_iff: "parseStoredBlobManifestUsage c raw = Inr None \<longleftrightarrow> TrimSpace raw = []"
  by (auto simp: parseStoredBlobManifestUsage_def Let_def res_simps split: option.splits)

lemma parse_generation_nonneg:
  "parseStoredBlobManifestUsage c raw = Inr (Some m) \<Longrightarrow> 0 \<le> m_generation m"
  using parse_bytes storedBlobManifestBytesAtDepth_bounds by blast

lemma storedBlobManifestBytes_bounds:
  assumes "storedBlobManifestBytes c raw = Inr n"
  shows "0 \<le> n" and "n \<le> 2 * maxStoredBlobSnapshotBytes"
  using assms
  by (auto simp: storedBlobManifestBytes_def res_simps maxStoredBlobSnapshotBytes_def
      split: option.splits dest!: storedBlobManifestBytesAtDepth_bounds)

lemma sumManifestBytes_sum:
  "sumManifestBytes c raws tot = Inr n \<Longrightarrow>
     (\<forall>raw \<in> set raws. \<exists>b. storedBlobManifestBytes c raw = Inr b)
     \<and> n = tot + sum_list (map (\<lambda>raw. projr (storedBlobManifestBytes c raw)) raws)
     \<and> (tot \<le> MaxInt64 \<longrightarrow> n \<le> MaxInt64)"
  by (induction c raws tot rule: sumManifestBytes.induct) (force simp: res_simps split: if_splits)+

text \<open>What a valid manifest accounts for: its own chunks and those of its migration fallback.\<close>

definition own_and_fallback :: "storedBlobManifestUsage \<Rightarrow> int" where
  "own_and_fallback m = sum_list (m_chunks m)
     + (case m_migration_fallback m of None \<Rightarrow> 0 | Some f \<Rightarrow> sum_list (m_chunks f))"

lemma storedBlobManifestBytesAtDepth_chunks:
  assumes "storedBlobManifestBytesAtDepth m depth = Inr n"
  shows "m_total_bytes m = sum_list (m_chunks m)
    \<and> (m_migration_fallback m = None \<longrightarrow> n = sum_list (m_chunks m))
    \<and> (\<forall>f. m_migration_fallback m = Some f \<longrightarrow>
         (\<exists>k. storedBlobManifestBytesAtDepth f (Suc depth) = Inr k \<and> n = sum_list (m_chunks m) + k))"
proof (cases m)
  case (StoredBlobManifestUsage version snapshotID generation totalBytes chunks fallback)
  from assms obtain ct where ct: "storedBlobChunkTotal chunks 0 = Inr ct" "ct = totalBytes"
    unfolding StoredBlobManifestUsage by (auto simp: res_simps split: if_splits)
  then have "totalBytes = sum_list chunks" using storedBlobChunkTotal_sum by force
  with assms ct show ?thesis
    unfolding StoredBlobManifestUsage by (auto simp: res_simps split: if_splits option.splits)
qed

lemma AtDepth_1_no_fallback:
  assumes "storedBlobManifestBytesAtDepth m 1 = Inr n"
  shows "m_migration_fallback m = None"
proof (cases "m_migration_fallback m")
  case (Some f)
  with storedBlobManifestBytesAtDepth_chunks [OF assms] obtain k
    where "storedBlobManifestBytesAtDepth f 2 = Inr k" by (auto simp: numeral_2_eq_2)
  then show ?thesis using storedBlobManifestBytesAtDepth_bounds by fastforce
qed simp

text \<open>
  A manifest the store accepts accounts for exactly the bytes of its chunks and of its
  migration fallback's chunks, more than 0 and at most 32 GiB, and whatever a manifest says the
  additions never run past a 64-bit integer.
\<close>

theorem storedBlobManifestBytes_exact:
  "storedBlobManifestBytes c raw \<noteq> Inl (ErrMsg ''blob manifest chunk usage overflows'')
   \<and> storedBlobManifestBytes c raw \<noteq> Inl (ErrMsg ''blob manifest storage usage overflows'')
   \<and> (\<forall>m. parseStoredBlobManifestUsage c raw = Inr (Some m) \<longrightarrow>
        storedBlobManifestBytes c raw = Inr (own_and_fallback m)
        \<and> 0 < own_and_fallback m \<and> own_and_fallback m \<le> 2 * 17179869184)"
proof -
  have no: "parseStoredBlobManifestUsage c raw \<noteq> Inl (ErrMsg ''blob manifest chunk usage overflows'')"
    "parseStoredBlobManifestUsage c raw \<noteq> Inl (ErrMsg ''blob manifest storage usage overflows'')"
    using storedBlobManifestBytesAtDepth_no_overflow
    by (auto simp: parseStoredBlobManifestUsage_def Let_def res_simps split: option.splits)
  have exact: "storedBlobManifestBytesAtDepth m 0 = Inr (own_and_fallback m) \<and> 0 < own_and_fallback m
      \<and> own_and_fallback m \<le> 2 * 17179869184"
    if p: "parseStoredBlobManifestUsage c raw = Inr (Some m)" for m
  proof -
    obtain n where n: "storedBlobManifestBytesAtDepth m 0 = Inr n" using parse_bytes [OF p] by blast
    have "n = own_and_fallback m"
    proof (cases "m_migration_fallback m")
      case None
      then show ?thesis using storedBlobManifestBytesAtDepth_chunks [OF n] by (simp add: own_and_fallback_def)
    next
      case (Some f)
      with storedBlobManifestBytesAtDepth_chunks [OF n] obtain k
        where k: "storedBlobManifestBytesAtDepth f 1 = Inr k" "n = sum_list (m_chunks m) + k" by auto
      moreover have "k = sum_list (m_chunks f)"
        using storedBlobManifestBytesAtDepth_chunks [OF k(1)] AtDepth_1_no_fallback [OF k(1)] by simp
      ultimately show ?thesis using Some by (simp add: own_and_fallback_def)
    qed
    then show ?thesis
      using n storedBlobManifestBytesAtDepth_bounds [OF n] by (simp add: maxStoredBlobSnapshotBytes_def)
  qed
  then have "storedBlobManifestBytes c raw = Inr (own_and_fallback m) \<and> 0 < own_and_fallback m
      \<and> own_and_fallback m \<le> 2 * 17179869184"
    if "parseStoredBlobManifestUsage c raw = Inr (Some m)" for m
    using that by (simp add: storedBlobManifestBytes_def)
  with no show ?thesis
    using storedBlobManifestBytesAtDepth_no_overflow
    by (auto simp: storedBlobManifestBytes_def res_simps split: option.splits)
qed

theorem storedBlobManifestBytes_exact_witness:
  "\<exists>m. parseStoredBlobManifestUsage sample_ctx '' m2 '' = Inr (Some m)
     \<and> storedBlobManifestBytes sample_ctx '' m2 '' = Inr (own_and_fallback m) \<and> own_and_fallback m = 8192"
proof -
  have "map_sum id (map_option own_and_fallback) (parseStoredBlobManifestUsage sample_ctx '' m2 '') = Inr (Some 8192)"
    by code_simp
  then obtain x where x: "parseStoredBlobManifestUsage sample_ctx '' m2 '' = Inr x"
      "map_option own_and_fallback x = Some 8192"
    by (auto dest: sample_run)
  from x(2) obtain m where m: "x = Some m" "own_and_fallback m = 8192" by (cases x) simp_all
  have "storedBlobManifestBytes sample_ctx '' m2 '' = Inr (own_and_fallback m)"
    using storedBlobManifestBytes_exact [of sample_ctx "'' m2 ''", THEN conjunct2, THEN conjunct2,
        rule_format, OF x(1) [unfolded m(1)]] by (rule conjunct1)
  then show ?thesis using x(1) m by (intro exI [of _ m] conjI) (simp_all only:)
qed

lemma sumManifestBytes_total:
  assumes "\<forall>raw \<in> set raws. \<exists>b. storedBlobManifestBytes c raw = Inr b" and "0 \<le> tot"
    and "tot + int (length raws) * (2 * maxStoredBlobSnapshotBytes) \<le> MaxInt64"
  shows "\<exists>n. sumManifestBytes c raws tot = Inr n"
  using assms
proof (induction c raws tot rule: sumManifestBytes.induct)
  case (2 c raw raws tot)
  then obtain b where b: "storedBlobManifestBytes c raw = Inr b" by auto
  note bd = storedBlobManifestBytes_bounds [OF b]
  have "0 \<le> int (length raws) * (2 * maxStoredBlobSnapshotBytes)" by (simp add: maxStoredBlobSnapshotBytes_def)
  moreover have "tot + (2 * maxStoredBlobSnapshotBytes + int (length raws) * (2 * maxStoredBlobSnapshotBytes)) \<le> MaxInt64"
    using 2(4) by (simp add: distrib_right)
  ultimately have "\<not> tot > MaxInt64 - b"
    "tot + b + int (length raws) * (2 * maxStoredBlobSnapshotBytes) \<le> MaxInt64"
    using bd by linarith+
  with 2 b bd show ?case by simp
qed simp

text \<open>
  The storage an account uses is the sum of what its stored manifests account for: when each
  of them is valid and there are at most 2^27 runtimes, the query succeeds with exactly that sum.
\<close>

theorem accountStorageBytesUsed_sum:
  assumes "\<forall>r \<in> set (storedManifests (TrimSpace a) d). \<exists>b. storedBlobManifestBytes c (manifestText r) = Inr b"
    and "length (runtimes d) \<le> 134217728"
  shows "\<exists>n. accountStorageBytesUsed c a d = Inr n \<and> 0 \<le> n
    \<and> n = sum_list (map (\<lambda>r. projr (storedBlobManifestBytes c (manifestText r))) (storedManifests (TrimSpace a) d))"
proof -
  let ?raws = "map manifestText (storedManifests (TrimSpace a) d)"
  have "length ?raws \<le> length (runtimes d)" by (simp add: storedManifests_def)
  with assms(2) have "int (length ?raws) \<le> 134217728" by linarith
  then have "0 + int (length ?raws) * (2 * maxStoredBlobSnapshotBytes) \<le> MaxInt64"
    by (simp add: manifest_limits)
  then obtain n where n: "sumManifestBytes c ?raws 0 = Inr n"
    using sumManifestBytes_total [of ?raws c 0] assms(1) by auto
  have "n = sum_list (map (\<lambda>raw. projr (storedBlobManifestBytes c raw)) ?raws)"
    using sumManifestBytes_sum [OF n] by simp
  moreover have "0 \<le> sum_list (map (\<lambda>raw. projr (storedBlobManifestBytes c raw)) ?raws)"
  proof (rule sum_list_nonneg)
    fix x assume "x \<in> set (map (\<lambda>raw. projr (storedBlobManifestBytes c raw)) ?raws)"
    then obtain r where "r \<in> set (storedManifests (TrimSpace a) d)"
        "x = projr (storedBlobManifestBytes c (manifestText r))" by auto
    then show "0 \<le> x" using assms(1) storedBlobManifestBytes_bounds(1) by fastforce
  qed
  ultimately show ?thesis using n by (simp add: accountStorageBytesUsed_def o_def)
qed

theorem accountStorageBytesUsed_sum_witness:
  "accountStorageBytesUsed sample_ctx '' a1''
     (sample_db\<lparr>runtimes := [sample_runtime\<lparr>r_blob_manifest_json := Some ''m2''\<rparr>]\<rparr>) = Inr 8192"
proof -
  let ?d = "sample_db\<lparr>runtimes := [sample_runtime\<lparr>r_blob_manifest_json := Some ''m2''\<rparr>]\<rparr>"
  have "map (\<lambda>r. storedBlobManifestBytes sample_ctx (manifestText r)) (storedManifests (TrimSpace '' a1'') ?d) = [Inr 8192]"
    by code_simp
  then have all: "\<forall>r \<in> set (storedManifests (TrimSpace '' a1'') ?d). storedBlobManifestBytes sample_ctx (manifestText r) = Inr 8192"
    and sum: "sum_list (map (\<lambda>r. projr (storedBlobManifestBytes sample_ctx (manifestText r))) (storedManifests (TrimSpace '' a1'') ?d)) = 8192"
    by (auto simp: map_eq_Cons_conv)
  have len: "length (runtimes ?d) \<le> 134217728" by simp
  show ?thesis using accountStorageBytesUsed_sum [of "'' a1''" ?d sample_ctx] all sum len by auto
qed

end
