(* ===== verification/Statements.thy ===== *)
theory Statements
  imports Samples
begin

text \<open>
  The statements that several transactions of \<open>internal/store\<close> share: lines of the runtime log,
  start events, and the statements that end sessions and revoke capabilities
  (\<open>appendRuntimeLogTX\<close> to \<open>pruneExpiredBlobKeyHandoffsTX\<close> in \<open>store.go\<close>).
  Each is a function on the database. None of them can fail on the runtimes its callers pass,
  which are rows they have just read or updated.
\<close>

section \<open>Runtime logs\<close>

definition runtimeLogRetentionRows :: nat where
  "runtimeLogRetentionRows = 2000"

text \<open>\<open>ORDER BY created_at DESC, id DESC\<close>: the order in which log lines are listed.\<close>

definition log_newer :: "runtime_log \<Rightarrow> runtime_log \<Rightarrow> bool" where
  "log_newer g h \<longleftrightarrow> g_created_at g > g_created_at h
     \<or> (g_created_at g = g_created_at h \<and> g_id g > g_id h)"

definition latest_log :: "string \<Rightarrow> db \<Rightarrow> runtime_log option" where
  "latest_log runtimeID d =
     best_by log_newer (filter (\<lambda>g. g_runtime_id g = runtimeID) (runtime_logs d))"

definition appendRuntimeLogTX :: "ctx \<Rightarrow> string \<Rightarrow> string \<Rightarrow> string \<Rightarrow> string \<Rightarrow> db \<Rightarrow> db" where
  "appendRuntimeLogTX c runtimeID source0 level0 message0 d =
     (let source = truncateRunes (defaultString source0 ''system'') 64;
          level = truncateRunes (defaultString level0 ''info'') 32;
          message = truncateRunes (TrimSpace message0) 4096;
          same = (\<lambda>g. g_source g = source \<and> g_level g = level \<and> g_message g = message);
          fresh = \<lparr>g_id = runtime_log_seq d, g_runtime_id = runtimeID, g_source = source,
                    g_level = level, g_message = message, g_repeat_count = 1,
                    g_created_at = db_now c, g_last_seen_at = None\<rparr>;
          insert = d\<lparr>runtime_logs := runtime_logs d @ [fresh],
                      runtime_log_seq := runtime_log_seq d + 1\<rparr>
      in case latest_log runtimeID d of
           None \<Rightarrow> insert
         | Some latest \<Rightarrow>
             if same latest
             then d\<lparr>runtime_logs := update_where (\<lambda>g. g_id g = g_id latest)
                      (\<lambda>g. g\<lparr>g_repeat_count := g_repeat_count g + 1,
                             g_last_seen_at := Some (db_now c)\<rparr>) (runtime_logs d)\<rparr>
             else insert)"

definition log_rank :: "string \<Rightarrow> runtime_log list \<Rightarrow> runtime_log \<Rightarrow> nat" where
  "log_rank runtimeID logs g =
     count_where (\<lambda>h. g_runtime_id h = runtimeID \<and> log_newer h g) logs"

definition AppendRuntimeLog :: "ctx \<Rightarrow> string \<Rightarrow> string \<Rightarrow> string \<Rightarrow> string \<Rightarrow> unit tx" where
  "AppendRuntimeLog c runtimeID source level message d =
     (if \<not> (\<exists>r \<in> set (runtimes d). r_id r = runtimeID)
      then Inl (ErrConstraint ''runtime_logs_runtime_id_fkey'')
      else let d1 = appendRuntimeLogTX c runtimeID source level message d;
               logs = runtime_logs d1
           in Inr ((), d1\<lparr>runtime_logs :=
                delete_where (\<lambda>g. g_runtime_id g = runtimeID
                                  \<and> log_rank runtimeID logs g \<ge> runtimeLogRetentionRows) logs\<rparr>))"

section \<open>Start events\<close>

definition appendRuntimeStartEventTX :: "ctx \<Rightarrow> string \<Rightarrow> string \<Rightarrow> db \<Rightarrow> db" where
  "appendRuntimeStartEventTX c accountID runtimeID d =
     d\<lparr>runtime_start_events := runtime_start_events d
        @ [\<lparr>v_account_id = accountID, v_runtime_id = runtimeID, v_created_at = db_now c\<rparr>]\<rparr>"

section \<open>Ending sessions and revoking capabilities\<close>

definition closeRuntimeSessionsTX :: "ctx \<Rightarrow> string \<Rightarrow> string \<Rightarrow> db \<Rightarrow> db" where
  "closeRuntimeSessionsTX c runtimeID reason d =
     d\<lparr>sessions := update_where (\<lambda>s. s_runtime_id s = runtimeID \<and> live_session s)
        (\<lambda>s. s\<lparr>s_status := ''closed'', s_updated_at := db_now c, s_ended_at := Some (db_now c),
               s_end_reason := Some (TrimSpace reason)\<rparr>) (sessions d)\<rparr>"

definition revoke_capability :: "ctx \<Rightarrow> runtime_capability \<Rightarrow> runtime_capability" where
  "revoke_capability c k =
     k\<lparr>c_revoked_at := coalesce2 (c_revoked_at k) (Some (db_now c)), c_updated_at := db_now c\<rparr>"

definition revoke_capabilities_where :: "ctx \<Rightarrow> (runtime_capability \<Rightarrow> bool) \<Rightarrow> db \<Rightarrow> db" where
  "revoke_capabilities_where c P d =
     d\<lparr>runtime_capabilities :=
        update_where (\<lambda>k. c_revoked_at k = None \<and> P k) (revoke_capability c) (runtime_capabilities d)\<rparr>"

definition revokeRuntimeCapabilityTX :: "ctx \<Rightarrow> string \<Rightarrow> string \<Rightarrow> db \<Rightarrow> db" where
  "revokeRuntimeCapabilityTX c accountID capabilityID d =
     revoke_capabilities_where c
       (\<lambda>k. c_account_id k = TrimSpace accountID \<and> c_id k = TrimSpace capabilityID) d"

definition revokeRuntimeCapabilitiesForRuntimeTX :: "ctx \<Rightarrow> string \<Rightarrow> db \<Rightarrow> db" where
  "revokeRuntimeCapabilitiesForRuntimeTX c runtimeID d =
     revoke_capabilities_where c (\<lambda>k. c_runtime_id k = TrimSpace runtimeID) d"

definition ended_status :: "string \<Rightarrow> bool" where
  "ended_status st \<longleftrightarrow> st \<in> {''closed'', ''expired'', ''stale'', ''revoked''}"

definition revokeEndedSessionCapabilitiesTX :: "ctx \<Rightarrow> db \<Rightarrow> db" where
  "revokeEndedSessionCapabilitiesTX c d =
     revoke_capabilities_where c
       (\<lambda>k. (\<exists>s \<in> set (sessions d). s_capability_id s = Some (c_id k) \<and> s_ended_at s \<noteq> None
                \<and> ended_status (s_status s))
            \<and> \<not> (\<exists>s \<in> set (sessions d). s_capability_id s = Some (c_id k) \<and> live_session s
                \<and> s_expires_at s > db_now c)) d"

definition revokeExpiredRuntimeCapabilitiesTX :: "ctx \<Rightarrow> db \<Rightarrow> db" where
  "revokeExpiredRuntimeCapabilitiesTX c d =
     revoke_capabilities_where c (\<lambda>k. c_expires_at k \<le> db_now c) d"

definition pruneExpiredRuntimeCapabilityNoncesTX :: "ctx \<Rightarrow> db \<Rightarrow> db" where
  "pruneExpiredRuntimeCapabilityNoncesTX c d =
     d\<lparr>runtime_capability_nonces :=
        delete_where (\<lambda>x. x_expires_at x < db_now c) (runtime_capability_nonces d)\<rparr>"

definition pruneExpiredBlobKeyHandoffsTX :: "ctx \<Rightarrow> db \<Rightarrow> db" where
  "pruneExpiredBlobKeyHandoffsTX c d =
     d\<lparr>runtime_blob_key_handoffs :=
        delete_where (\<lambda>b. b_expires_at b \<le> db_now c) (runtime_blob_key_handoffs d)\<rparr>"

section \<open>What the statements leave alone\<close>

named_theorems frame_simps \<open>tables a shared statement does not write\<close>

lemma appendRuntimeLogTX_frame [simp, frame_simps]:
  "accounts (appendRuntimeLogTX c r s l m d) = accounts d"
  "account_entitlements (appendRuntimeLogTX c r s l m d) = account_entitlements d"
  "account_ledger (appendRuntimeLogTX c r s l m d) = account_ledger d"
  "usdt_deposits (appendRuntimeLogTX c r s l m d) = usdt_deposits d"
  "hosts (appendRuntimeLogTX c r s l m d) = hosts d"
  "node_operators (appendRuntimeLogTX c r s l m d) = node_operators d"
  "approved_nodes (appendRuntimeLogTX c r s l m d) = approved_nodes d"
  "approved_node_keys (appendRuntimeLogTX c r s l m d) = approved_node_keys d"
  "runtimes (appendRuntimeLogTX c r s l m d) = runtimes d"
  "runtime_start_events (appendRuntimeLogTX c r s l m d) = runtime_start_events d"
  "runtime_capabilities (appendRuntimeLogTX c r s l m d) = runtime_capabilities d"
  "sessions (appendRuntimeLogTX c r s l m d) = sessions d"
  "devices (appendRuntimeLogTX c r s l m d) = devices d"
  "device_request_nonces (appendRuntimeLogTX c r s l m d) = device_request_nonces d"
  "node_request_nonces (appendRuntimeLogTX c r s l m d) = node_request_nonces d"
  "runtime_capability_nonces (appendRuntimeLogTX c r s l m d) = runtime_capability_nonces d"
  "runtime_blob_key_handoffs (appendRuntimeLogTX c r s l m d) = runtime_blob_key_handoffs d"
  "provisioned_vms (appendRuntimeLogTX c r s l m d) = provisioned_vms d"
  by (simp_all add: appendRuntimeLogTX_def Let_def split: option.splits)

lemma appendRuntimeStartEventTX_frame [simp, frame_simps]:
  "accounts (appendRuntimeStartEventTX c a r d) = accounts d"
  "account_entitlements (appendRuntimeStartEventTX c a r d) = account_entitlements d"
  "account_ledger (appendRuntimeStartEventTX c a r d) = account_ledger d"
  "runtimes (appendRuntimeStartEventTX c a r d) = runtimes d"
  "runtime_capabilities (appendRuntimeStartEventTX c a r d) = runtime_capabilities d"
  "sessions (appendRuntimeStartEventTX c a r d) = sessions d"
  "provisioned_vms (appendRuntimeStartEventTX c a r d) = provisioned_vms d"
  "approved_nodes (appendRuntimeStartEventTX c a r d) = approved_nodes d"
  "approved_node_keys (appendRuntimeStartEventTX c a r d) = approved_node_keys d"
  by (simp_all add: appendRuntimeStartEventTX_def)

lemma closeRuntimeSessionsTX_frame [simp, frame_simps]:
  "accounts (closeRuntimeSessionsTX c r m d) = accounts d"
  "account_entitlements (closeRuntimeSessionsTX c r m d) = account_entitlements d"
  "account_ledger (closeRuntimeSessionsTX c r m d) = account_ledger d"
  "usdt_deposits (closeRuntimeSessionsTX c r m d) = usdt_deposits d"
  "runtimes (closeRuntimeSessionsTX c r m d) = runtimes d"
  "runtime_logs (closeRuntimeSessionsTX c r m d) = runtime_logs d"
  "runtime_capabilities (closeRuntimeSessionsTX c r m d) = runtime_capabilities d"
  "runtime_start_events (closeRuntimeSessionsTX c r m d) = runtime_start_events d"
  "provisioned_vms (closeRuntimeSessionsTX c r m d) = provisioned_vms d"
  "approved_nodes (closeRuntimeSessionsTX c r m d) = approved_nodes d"
  "approved_node_keys (closeRuntimeSessionsTX c r m d) = approved_node_keys d"
  by (simp_all add: closeRuntimeSessionsTX_def)

lemma revoke_capabilities_where_frame [simp, frame_simps]:
  "accounts (revoke_capabilities_where c P d) = accounts d"
  "account_entitlements (revoke_capabilities_where c P d) = account_entitlements d"
  "account_ledger (revoke_capabilities_where c P d) = account_ledger d"
  "usdt_deposits (revoke_capabilities_where c P d) = usdt_deposits d"
  "runtimes (revoke_capabilities_where c P d) = runtimes d"
  "runtime_logs (revoke_capabilities_where c P d) = runtime_logs d"
  "sessions (revoke_capabilities_where c P d) = sessions d"
  "runtime_start_events (revoke_capabilities_where c P d) = runtime_start_events d"
  "provisioned_vms (revoke_capabilities_where c P d) = provisioned_vms d"
  "approved_nodes (revoke_capabilities_where c P d) = approved_nodes d"
  "approved_node_keys (revoke_capabilities_where c P d) = approved_node_keys d"
  by (simp_all add: revoke_capabilities_where_def)

lemmas revoke_defs = revokeRuntimeCapabilityTX_def revokeRuntimeCapabilitiesForRuntimeTX_def
  revokeEndedSessionCapabilitiesTX_def revokeExpiredRuntimeCapabilitiesTX_def

section \<open>Sessions of a runtime\<close>

text \<open>
  What the unique indexes on \<open>sessions\<close> enforce: one row per id, one live session per runtime
  (\<open>idx_sessions_one_live_per_runtime\<close>).
\<close>

definition sessions_wf :: "db \<Rightarrow> bool" where
  "sessions_wf d \<longleftrightarrow> distinct (map s_id (sessions d)) \<and> unique_where live_session s_runtime_id (sessions d)"

definition no_live_session :: "string \<Rightarrow> db \<Rightarrow> bool" where
  "no_live_session runtimeID d \<longleftrightarrow> (\<forall>s \<in> set (sessions d). s_runtime_id s = runtimeID \<longrightarrow> \<not> live_session s)"

definition no_valid_capability :: "string \<Rightarrow> db \<Rightarrow> bool" where
  "no_valid_capability runtimeID d \<longleftrightarrow>
     (\<forall>k \<in> set (runtime_capabilities d). c_runtime_id k = runtimeID \<longrightarrow> c_revoked_at k \<noteq> None)"

text \<open>A statement on sessions that opens none and keeps each session's id and runtime.\<close>

lemma sessions_wf_update:
  assumes "sessions_wf d"
    and "\<And>s. P s \<Longrightarrow> s_id (f s) = s_id s" "\<And>s. P s \<Longrightarrow> s_runtime_id (f s) = s_runtime_id s"
    and "\<And>s. P s \<Longrightarrow> live_session (f s) \<Longrightarrow> live_session s"
  shows "sessions_wf (d\<lparr>sessions := update_where P f (sessions d)\<rparr>)"
proof -
  have "distinct (map s_id (update_where P f (sessions d)))"
    using assms(1,2) by (simp add: sessions_wf_def distinct_map_update_where)
  moreover have "unique_where live_session s_runtime_id (update_where P f (sessions d))"
    using assms(1,3,4) by (intro unique_where_update) (auto simp: sessions_wf_def)
  ultimately show ?thesis by (simp add: sessions_wf_def)
qed

lemma sessions_wf_frame [simp, frame_simps]:
  "sessions_wf (appendRuntimeLogTX c r s l m d) = sessions_wf d"
  "sessions_wf (appendRuntimeStartEventTX c a r d) = sessions_wf d"
  "sessions_wf (revoke_capabilities_where c P d) = sessions_wf d"
  by (simp_all add: sessions_wf_def)

lemma sessions_wf_cong: "sessions d' = sessions d \<Longrightarrow> sessions_wf d' = sessions_wf d"
  by (simp add: sessions_wf_def)

lemma closed_not_live [simp]: "\<not> live_session (s\<lparr>s_status := ''closed'', s_updated_at := t, s_ended_at := e, s_end_reason := w\<rparr>)"
  by (simp add: live_session_def)

lemma closeRuntimeSessionsTX_wf:
  assumes "sessions_wf d"
  shows "sessions_wf (closeRuntimeSessionsTX c r m d)"
  unfolding closeRuntimeSessionsTX_def using assms by (intro sessions_wf_update) auto

lemma closeRuntimeSessionsTX_none [simp]: "no_live_session r (closeRuntimeSessionsTX c r m d)"
  by (simp add: no_live_session_def closeRuntimeSessionsTX_def ball_update_where)

lemma no_live_session_frame [simp, frame_simps]:
  "no_live_session i (appendRuntimeLogTX c r s l m d) = no_live_session i d"
  "no_live_session i (revoke_capabilities_where c P d) = no_live_session i d"
  by (simp_all add: no_live_session_def)

text \<open>Closing ends no session of another runtime, and a closed session is never reopened.\<close>

lemma closeRuntimeSessionsTX_others:
  "filter (\<lambda>s. s_runtime_id s \<noteq> r) (sessions (closeRuntimeSessionsTX c r m d))
     = filter (\<lambda>s. s_runtime_id s \<noteq> r) (sessions d)"
proof -
  have "filter (\<lambda>s. s_runtime_id s \<noteq> r) (update_where (\<lambda>s. s_runtime_id s = r \<and> live_session s) f ss)
      = filter (\<lambda>s. s_runtime_id s \<noteq> r) ss"
    if "\<And>s. s_runtime_id (f s) = s_runtime_id s" for f ss
    using that by (induction ss) auto
  then show ?thesis by (simp add: closeRuntimeSessionsTX_def)
qed

lemma no_live_session_close:
  assumes "no_live_session i d"
  shows "no_live_session i (closeRuntimeSessionsTX c r m d)"
  using assms by (simp add: no_live_session_def closeRuntimeSessionsTX_def ball_update_where)

section \<open>Capabilities of a runtime\<close>

lemma revoke_capability_simps [simp]:
  "c_id (revoke_capability c k) = c_id k" "c_runtime_id (revoke_capability c k) = c_runtime_id k"
  "c_account_id (revoke_capability c k) = c_account_id k"
  "c_public_key (revoke_capability c k) = c_public_key k"
  "c_revoked_at (revoke_capability c k) = Some (coalesce (c_revoked_at k) (db_now c))"
  by (cases "c_revoked_at k"; simp add: revoke_capability_def)+

lemma no_valid_capability_revoke:
  "(\<And>k. c_runtime_id k = r \<Longrightarrow> P k) \<Longrightarrow> no_valid_capability r (revoke_capabilities_where c P d)"
  by (auto simp: no_valid_capability_def revoke_capabilities_where_def ball_update_where)

lemma revoke_for_runtime_none:
  "TrimSpace r = r \<Longrightarrow> no_valid_capability r (revokeRuntimeCapabilitiesForRuntimeTX c r d)"
  by (simp add: revokeRuntimeCapabilitiesForRuntimeTX_def no_valid_capability_revoke)

lemma revoke_for_runtime_frame [simp, frame_simps]:
  "accounts (revokeRuntimeCapabilitiesForRuntimeTX c r d) = accounts d"
  "account_entitlements (revokeRuntimeCapabilitiesForRuntimeTX c r d) = account_entitlements d"
  "account_ledger (revokeRuntimeCapabilitiesForRuntimeTX c r d) = account_ledger d"
  "usdt_deposits (revokeRuntimeCapabilitiesForRuntimeTX c r d) = usdt_deposits d"
  "runtimes (revokeRuntimeCapabilitiesForRuntimeTX c r d) = runtimes d"
  "runtime_logs (revokeRuntimeCapabilitiesForRuntimeTX c r d) = runtime_logs d"
  "sessions (revokeRuntimeCapabilitiesForRuntimeTX c r d) = sessions d"
  "runtime_start_events (revokeRuntimeCapabilitiesForRuntimeTX c r d) = runtime_start_events d"
  "provisioned_vms (revokeRuntimeCapabilitiesForRuntimeTX c r d) = provisioned_vms d"
  "approved_nodes (revokeRuntimeCapabilitiesForRuntimeTX c r d) = approved_nodes d"
  "approved_node_keys (revokeRuntimeCapabilitiesForRuntimeTX c r d) = approved_node_keys d"
  "sessions_wf (revokeRuntimeCapabilitiesForRuntimeTX c r d) = sessions_wf d"
  "no_live_session i (revokeRuntimeCapabilitiesForRuntimeTX c r d) = no_live_session i d"
  by (simp_all add: revokeRuntimeCapabilitiesForRuntimeTX_def)

lemma no_valid_capability_frame [simp, frame_simps]:
  "no_valid_capability i (appendRuntimeLogTX c r s l m d) = no_valid_capability i d"
  "no_valid_capability i (closeRuntimeSessionsTX c r x d) = no_valid_capability i d"
  by (simp_all add: no_valid_capability_def)

lemma no_valid_capability_mono:
  "no_valid_capability i d \<Longrightarrow> no_valid_capability i (revoke_capabilities_where c P d)"
  by (auto simp: no_valid_capability_def revoke_capabilities_where_def ball_update_where)

section \<open>Retention of runtime logs\<close>

definition logs_wf :: "db \<Rightarrow> bool" where
  "logs_wf d \<longleftrightarrow> distinct (map g_id (runtime_logs d)) \<and> (\<forall>g \<in> set (runtime_logs d). g_id g < runtime_log_seq d)"

lemma empty_logs_wf: "logs_wf empty_db"
  by (simp add: logs_wf_def empty_db_def)

lemma appendRuntimeLogTX_logs_wf:
  assumes "logs_wf d"
  shows "logs_wf (appendRuntimeLogTX c r s l m d)"
  using assms unfolding logs_wf_def appendRuntimeLogTX_def Let_def
  by (auto simp: distinct_map_update_where set_update_where split: option.splits)

text \<open>
  Of rows in a strict total order, at most \<open>k\<close> have fewer than \<open>k\<close> better rows: the worst of them
  has all the others above it.
\<close>

lemma log_newer_total:
  "g_id g \<noteq> g_id h \<Longrightarrow> log_newer g h \<or> log_newer h g"
  by (auto simp: log_newer_def)

lemma log_newer_trans: "log_newer f g \<Longrightarrow> log_newer g h \<Longrightarrow> log_newer f h"
  by (auto simp: log_newer_def)

lemma oldest_exists:
  assumes "finite A" "A \<noteq> {}" "inj_on g_id A"
  shows "\<exists>g \<in> A. \<forall>h \<in> A. h \<noteq> g \<longrightarrow> log_newer h g"
  using assms
proof (induction A rule: finite_ne_induct)
  case (singleton x)
  then show ?case by simp
next
  case (insert x A)
  then obtain g where g: "g \<in> A" "\<forall>h \<in> A. h \<noteq> g \<longrightarrow> log_newer h g" by auto
  have "g_id x \<noteq> g_id g" using insert g by (auto simp: inj_on_def)
  then consider "log_newer x g" | "log_newer g x" using log_newer_total by blast
  then show ?case
  proof cases
    case 1
    with g show ?thesis by auto
  next
    case 2
    with g have "\<forall>h \<in> A. log_newer h x" using log_newer_trans by metis
    then show ?thesis by blast
  qed
qed

lemma rank_bound:
  assumes "distinct (map g_id logs)"
  shows "count_where (\<lambda>g. g_runtime_id g = r \<and> log_rank r logs g < k) logs \<le> k"
proof (cases "filter (\<lambda>g. g_runtime_id g = r \<and> log_rank r logs g < k) logs = []")
  case False
  let ?kept = "{g \<in> set logs. g_runtime_id g = r \<and> log_rank r logs g < k}"
  have dist: "distinct logs" and inj: "inj_on g_id (set logs)"
    using assms by (auto simp: distinct_map)
  have "?kept \<noteq> {}" using False by (auto simp: filter_empty_conv)
  moreover have "inj_on g_id ?kept" using inj by (rule inj_on_subset) auto
  ultimately have "\<exists>g \<in> ?kept. \<forall>h \<in> ?kept. h \<noteq> g \<longrightarrow> log_newer h g"
    by (intro oldest_exists) auto
  then obtain g where g: "g \<in> ?kept" "\<forall>h \<in> ?kept. h \<noteq> g \<longrightarrow> log_newer h g"
    by blast
  have card_filter: "count_where P logs = card {h \<in> set logs. P h}" for P
    using distinct_card [OF distinct_filter [OF dist], of P] by (simp add: count_where_def)
  have "?kept - {g} \<subseteq> {h \<in> set logs. g_runtime_id h = r \<and> log_newer h g}"
    using g(2) by blast
  then have "card (?kept - {g}) \<le> log_rank r logs g"
    unfolding log_rank_def card_filter by (intro card_mono) auto
  moreover have "card (?kept - {g}) = card ?kept - 1" using g(1) by (intro card_Diff_singleton)
  moreover have "log_rank r logs g < k" using g(1) by simp
  ultimately have "card ?kept \<le> k" by linarith
  then show ?thesis unfolding card_filter by simp
qed (simp add: count_where_def)

lemma AppendRuntimeLog_cases:
  assumes "AppendRuntimeLog c r s l m d = Inr (u, d')"
  shows "runtime_logs d' = delete_where (\<lambda>g. g_runtime_id g = r
           \<and> log_rank r (runtime_logs (appendRuntimeLogTX c r s l m d)) g \<ge> runtimeLogRetentionRows)
         (runtime_logs (appendRuntimeLogTX c r s l m d))"
  using assms by (auto simp: AppendRuntimeLog_def Let_def split: if_splits)

lemma filter_update_where_other:
  "(\<And>g. g \<in> set gs \<Longrightarrow> P g \<Longrightarrow> \<not> Q g) \<Longrightarrow> (\<And>g. Q (f g) = Q g) \<Longrightarrow>
     filter Q (update_where P f gs) = filter Q gs"
  by (induction gs) auto

lemma latest_log_runtime:
  assumes "logs_wf d" "latest_log r d = Some h" "g \<in> set (runtime_logs d)" "g_id g = g_id h"
  shows "g_runtime_id g = r"
proof -
  have h: "h \<in> set (runtime_logs d)" "g_runtime_id h = r"
    using assms(2) best_by_in [of log_newer "filter (\<lambda>g. g_runtime_id g = r) (runtime_logs d)" h]
    by (simp_all add: latest_log_def)
  have "g = h"
    using assms(1,3,4) h(1) key_eq_row [of g_id "runtime_logs d" g h] by (simp add: logs_wf_def)
  then show ?thesis using h(2) by blast
qed

lemma appendRuntimeLogTX_others:
  assumes "logs_wf d"
  shows "filter (\<lambda>g. g_runtime_id g \<noteq> r) (runtime_logs (appendRuntimeLogTX c r s l m d))
       = filter (\<lambda>g. g_runtime_id g \<noteq> r) (runtime_logs d)"
proof (cases "latest_log r d")
  case None
  then show ?thesis by (simp add: appendRuntimeLogTX_def)
next
  case (Some h)
  have "filter (\<lambda>g. g_runtime_id g \<noteq> r) (update_where (\<lambda>g. g_id g = g_id h)
      (\<lambda>g. g\<lparr>g_repeat_count := g_repeat_count g + 1, g_last_seen_at := Some t\<rparr>) (runtime_logs d))
    = filter (\<lambda>g. g_runtime_id g \<noteq> r) (runtime_logs d)" for t
    by (rule filter_update_where_other) (blast dest: latest_log_runtime [OF assms Some], simp)
  with Some show ?thesis by (simp add: appendRuntimeLogTX_def Let_def)
qed

text \<open>
  Appending a line to a runtime's log leaves at most 2000 lines of that runtime and neither
  deletes nor changes a line of another runtime.
\<close>

theorem AppendRuntimeLog_retention:
  assumes "logs_wf d" and "AppendRuntimeLog c r s l m d = Inr (u, d')"
  shows "count_where (\<lambda>g. g_runtime_id g = r) (runtime_logs d') \<le> 2000
    \<and> filter (\<lambda>g. g_runtime_id g \<noteq> r) (runtime_logs d') = filter (\<lambda>g. g_runtime_id g \<noteq> r) (runtime_logs d)"
proof
  let ?logs = "runtime_logs (appendRuntimeLogTX c r s l m d)"
  have "count_where (\<lambda>g. g_runtime_id g = r) (runtime_logs d')
      = count_where (\<lambda>g. g_runtime_id g = r \<and> log_rank r ?logs g < 2000) ?logs"
    unfolding AppendRuntimeLog_cases [OF assms(2)] count_where_def delete_where_def filter_filter
    by (rule arg_cong [where f = length], rule filter_cong) (auto simp: runtimeLogRetentionRows_def)
  also have "\<dots> \<le> 2000"
    using appendRuntimeLogTX_logs_wf [OF assms(1)] by (intro rank_bound) (simp add: logs_wf_def)
  finally show "count_where (\<lambda>g. g_runtime_id g = r) (runtime_logs d') \<le> 2000" .
  have "filter (\<lambda>g. g_runtime_id g \<noteq> r) (runtime_logs d') = filter (\<lambda>g. g_runtime_id g \<noteq> r) ?logs"
    unfolding AppendRuntimeLog_cases [OF assms(2)] delete_where_def filter_filter
    by (rule filter_cong) auto
  then show "filter (\<lambda>g. g_runtime_id g \<noteq> r) (runtime_logs d')
      = filter (\<lambda>g. g_runtime_id g \<noteq> r) (runtime_logs d)"
    using appendRuntimeLogTX_others [OF assms(1)] by simp
qed

theorem AppendRuntimeLog_retention_witness:
  "logs_wf sample_live \<and> (\<exists>d'. AppendRuntimeLog sample_ctx ''r1'' ''node'' ''info'' ''Booted.'' sample_live = Inr ((), d')
     \<and> count_where (\<lambda>g. g_runtime_id g = ''r1'') (runtime_logs d') \<le> 2000)"
proof -
  have wf: "logs_wf sample_live" by code_simp
  moreover obtain d' where "AppendRuntimeLog sample_ctx ''r1'' ''node'' ''info'' ''Booted.'' sample_live = Inr ((), d')"
    by (simp add: AppendRuntimeLog_def Let_def sample_live_def sample_running_def sample_runtime_def)
  ultimately show ?thesis using AppendRuntimeLog_retention [OF wf] by blast
qed

end
