(* ===== verification/Billing.thy ===== *)
theory Billing
  imports Manifest Statements
begin

text \<open>
  Metering and charging (\<open>internal/store/billing.go\<close>): trial seconds, charges for running time
  and storage, and the stops queued when a trial or a balance is used up. \<open>MeterUsage\<close> is one
  transaction; the rows that other transactions hold locked are skipped, as the queries'
  \<open>SKIP LOCKED\<close> does.
\<close>

section \<open>Dates\<close>

text \<open>
  The UTC date of a day number (days since 1970-01-01), the labels \<open>Format("2006-01-02T15")\<close>
  and \<open>to_char(t, 'YYYY-MM')\<close> make of a time, and decimal numbers padded with zeros.
\<close>

definition day_of :: "time \<Rightarrow> int" where
  "day_of t = t div (24 * hour)"

definition civil_from_days :: "int \<Rightarrow> int \<times> int \<times> int" where
  "civil_from_days days =
     (let z = days + 719468;
          era = z div 146097;
          doe = z mod 146097;
          yoe = (doe - doe div 1460 + doe div 36524 - doe div 146096) div 365;
          doy = doe - (365 * yoe + yoe div 4 - yoe div 100);
          mp = (5 * doy + 2) div 153;
          dd = doy - (153 * mp + 2) div 5 + 1;
          mm = if mp < 10 then mp + 3 else mp - 9
      in (yoe + era * 400 + (if mm \<le> 2 then 1 else 0), mm, dd))"

fun decimal :: "nat \<Rightarrow> nat \<Rightarrow> string" where
  "decimal 0 n = []"
| "decimal (Suc width) n = decimal width (n div 10) @ [char_of (48 + n mod 10)]"

definition month_label :: "time \<Rightarrow> string" where
  "month_label t = (case civil_from_days (day_of t) of (y, m, _) \<Rightarrow>
     decimal 4 (nat y) @ ''-'' @ decimal 2 (nat m))"

definition hour_label :: "time \<Rightarrow> string" where
  "hour_label t = (case civil_from_days (day_of t) of (y, m, dd) \<Rightarrow>
     decimal 4 (nat y) @ ''-'' @ decimal 2 (nat m) @ ''-'' @ decimal 2 (nat dd)
     @ ''T'' @ decimal 2 (nat (t mod (24 * hour) div hour)))"

section \<open>Amounts\<close>

definition Enabled :: "pricing \<Rightarrow> bool" where
  "Enabled p \<longleftrightarrow> RuntimeHourMicro p > 0 \<or> StorageGiBMonthMicro p > 0"

definition MinimumStartMicro :: "pricing \<Rightarrow> int" where
  "MinimumStartMicro p = sgn (RuntimeHourMicro p) * (\<bar>RuntimeHourMicro p\<bar> div 6)"

definition mulDivRound :: "int \<Rightarrow> int \<Rightarrow> int \<Rightarrow> int" where
  "mulDivRound a b c =
     (if a \<le> 0 \<or> b \<le> 0 \<or> c \<le> 0 then 0
      else let quotient = (a * b + c div 2) div c
           in if quotient > MaxInt64 then 0 else quotient)"

record hourPart =
  hp_start :: time
  hp_duration :: duration

definition truncate_hour :: "time \<Rightarrow> time" where
  "truncate_hour t = t - t mod hour"

function splitByHour :: "time \<Rightarrow> time \<Rightarrow> hourPart list" where
  "splitByHour from to =
     (if from < to
      then let start = truncate_hour from;
               stop = (if start + hour > to then to else start + hour)
           in \<lparr>hp_start = start, hp_duration = stop - from\<rparr> # splitByHour stop to
      else [])"
  by auto

lemma hour_end_after: "from < truncate_hour from + hour"
  unfolding truncate_hour_def using pos_mod_bound [of hour "from"] by simp

termination splitByHour
proof (relation "measure (\<lambda>(from, to). nat (to - from))")
  fix "from" to start stop :: int
  assume "from < to" "start = truncate_hour from"
    "stop = (if start + hour > to then to else start + hour)"
  then show "((stop, to), (from, to)) \<in> measure (\<lambda>(from, to). nat (to - from))"
    using hour_end_after [of "from"] by auto
qed simp

declare splitByHour.simps [simp del]

section \<open>The ledger\<close>

definition accountBalance :: "string \<Rightarrow> db \<Rightarrow> int" where
  "accountBalance accountID d =
     sum_list (map l_amount_micro
       (filter (\<lambda>l. l_account_id l = TrimSpace accountID) (account_ledger d)))"

definition paidBalanceCheck :: "pricing \<Rightarrow> string \<Rightarrow> string \<Rightarrow> int \<Rightarrow> db \<Rightarrow> unit res" where
  "paidBalanceCheck p accountID source minimum d =
     (if \<not> Enabled p \<or> \<not> EqualFold (TrimSpace source) ''paid'' then Inr ()
      else let balance = accountBalance accountID d
           in if balance < minimum \<or> balance \<le> 0 then Inl ErrRuntimeBalance else Inr ())"

definition usage_kind :: "ledger_entry \<Rightarrow> bool" where
  "usage_kind l \<longleftrightarrow> l_kind l = ''runtime'' \<or> l_kind l = ''storage''"

definition addUsageChargeTX :: "ctx \<Rightarrow> string \<Rightarrow> string \<Rightarrow> string \<Rightarrow> int \<Rightarrow> db \<Rightarrow> db" where
  "addUsageChargeTX c accountID kind reference amount d =
     (let same = (\<lambda>l. usage_kind l \<and> l_account_id l = accountID \<and> l_reference l = reference)
      in if \<exists>l \<in> set (account_ledger d). same l
         then d\<lparr>account_ledger := update_where same
                  (\<lambda>l. l\<lparr>l_amount_micro := l_amount_micro l + - amount\<rparr>) (account_ledger d)\<rparr>
         else d\<lparr>account_ledger := account_ledger d
                  @ [\<lparr>l_account_id = accountID, l_kind = kind, l_amount_micro = - amount,
                      l_reference = reference, l_created_at = db_now c\<rparr>]\<rparr>)"

section \<open>Running time\<close>

record due =
  du_runtimeID :: string
  du_accountID :: string
  du_source :: string
  du_status :: string
  du_since :: time
  du_now :: time

definition metered :: "account_entitlement \<Rightarrow> runtime \<Rightarrow> bool" where
  "metered e r \<longleftrightarrow> e_account_id e = r_account_id r \<and> (e_source e = ''trial'' \<or> e_source e = ''paid'')
     \<and> r_deleted_at r = None \<and> r_desired_state r = ''running'' \<and> r_started_at r \<noteq> None"

definition due_of :: "ctx \<Rightarrow> runtime \<Rightarrow> account_entitlement \<Rightarrow> due" where
  "due_of c r e =
     (let started = coalesce (r_started_at r) 0
      in \<lparr>du_runtimeID = r_id r, du_accountID = r_account_id r, du_source = e_source e,
          du_status = r_status r, du_since = max (coalesce (r_billed_through r) started) started,
          du_now = db_now c\<rparr>)"

definition dues :: "ctx \<Rightarrow> db \<Rightarrow> due list" where
  "dues c d =
     concat (map (\<lambda>r. map (due_of c r) (filter (\<lambda>e. metered e r) (account_entitlements d)))
       (filter (\<lambda>r. \<not> row_locked c (r_id r)) (runtimes d)))"

definition seconds_between :: "time \<Rightarrow> time \<Rightarrow> int" where
  "seconds_between since now = (now - since + second div 2) div second"

definition chargePart :: "ctx \<Rightarrow> int \<Rightarrow> due \<Rightarrow> hourPart \<Rightarrow> nat \<times> db \<Rightarrow> nat \<times> db" where
  "chargePart c hourMicro u part s =
     (case s of (charges, d) \<Rightarrow>
        let amount = mulDivRound (hp_duration part) hourMicro hour
        in if amount \<le> 0 then (charges, d)
           else (charges + 1,
                 addUsageChargeTX c (du_accountID u) ''runtime''
                   (''runtime:'' @ du_runtimeID u @ '':'' @ hour_label (hp_start part)) amount d))"

definition addTrialSeconds :: "ctx \<Rightarrow> string \<Rightarrow> int \<Rightarrow> db \<Rightarrow> db" where
  "addTrialSeconds c accountID secs d =
     d\<lparr>account_entitlements := update_where (\<lambda>e. e_account_id e = accountID)
        (\<lambda>e. e\<lparr>e_trial_runtime_seconds_used := e_trial_runtime_seconds_used e + secs,
               e_updated_at := db_now c\<rparr>) (account_entitlements d)\<rparr>"

definition setBilledThrough :: "string \<Rightarrow> time \<Rightarrow> db \<Rightarrow> db" where
  "setBilledThrough runtimeID t d =
     d\<lparr>runtimes := update_where (\<lambda>r. r_id r = runtimeID) (\<lambda>r. r\<lparr>r_billed_through := Some t\<rparr>) (runtimes d)\<rparr>"

definition meterDue :: "ctx \<Rightarrow> int \<Rightarrow> due \<Rightarrow> nat \<times> int \<times> db \<Rightarrow> nat \<times> int \<times> db" where
  "meterDue c hourMicro u s =
     (case s of (charges, trialSeconds, d) \<Rightarrow>
        let (charges', trialSeconds', d') =
          (if du_status u = ''running'' \<and> du_now u > du_since u
           then if du_source u = ''trial''
                then let secs = seconds_between (du_since u) (du_now u)
                     in (charges, trialSeconds + secs, addTrialSeconds c (du_accountID u) secs d)
                else if du_source u = ''paid''
                then let (n, d1) = fold (chargePart c hourMicro u)
                                     (splitByHour (du_since u) (du_now u)) (charges, d)
                     in (n, trialSeconds, d1)
                else (charges, trialSeconds, d)
           else (charges, trialSeconds, d))
        in (charges', trialSeconds', setBilledThrough (du_runtimeID u) (du_now u) d'))"

definition meterRuntimeTimeTX :: "ctx \<Rightarrow> int \<Rightarrow> db \<Rightarrow> nat \<times> int \<times> db" where
  "meterRuntimeTimeTX c hourMicro d = fold (meterDue c hourMicro) (dues c d) (0, 0, d)"

section \<open>Storage\<close>

definition storage_due :: "ctx \<Rightarrow> db \<Rightarrow> string list" where
  "storage_due c d =
     concat (map (\<lambda>a. map (\<lambda>_. a_id a)
         (filter (\<lambda>e. e_account_id e = a_id a \<and> e_source e = ''paid'') (account_entitlements d)))
       (filter (\<lambda>a. \<not> row_locked c (a_id a) \<and> a_deleted_at a = None
                    \<and> (case a_storage_billed_on a of None \<Rightarrow> True | Some b \<Rightarrow> b < day_of (db_now c)))
         (accounts d)))"

definition chargeAccountStorage :: "ctx \<Rightarrow> int \<Rightarrow> string \<Rightarrow> nat \<times> db \<Rightarrow> err + (nat \<times> db)" where
  "chargeAccountStorage c gibMonthMicro accountID s =
     (case s of (charges, d) \<Rightarrow>
        ebind (accountStorageBytesUsed c accountID d) (\<lambda>used.
          let amount = mulDivRound used gibMonthMicro (1073741824 * 30);
              (charges', d1) =
                (if amount > 0
                 then (charges + 1, addUsageChargeTX c accountID ''storage''
                                      (''storage:'' @ month_label (db_now c)) amount d)
                 else (charges, d))
          in Inr (charges', d1\<lparr>accounts := update_where (\<lambda>a. a_id a = accountID)
                      (\<lambda>a. a\<lparr>a_storage_billed_on := Some (day_of (db_now c))\<rparr>) (accounts d1)\<rparr>)))"

definition chargeStorageTX :: "ctx \<Rightarrow> int \<Rightarrow> db \<Rightarrow> err + (nat \<times> db)" where
  "chargeStorageTX c gibMonthMicro d =
     (if gibMonthMicro \<le> 0 then Inr (0, d)
      else efold (chargeAccountStorage c gibMonthMicro) (storage_due c d) (0, d))"

section \<open>Stopping what is used up\<close>

definition stop_row :: "ctx \<Rightarrow> runtime \<Rightarrow> runtime" where
  "stop_row c r =
     r\<lparr>r_status := (if r_host_id r = None then ''stopped'' else ''stopping''),
       r_desired_state := ''stopped'',
       r_operation_generation := r_operation_generation r + 1,
       r_connection_status := (if r_host_id r = None then ''offline'' else ''disconnecting''),
       r_started_at := None, r_last_error := None, r_updated_at := db_now c\<rparr>"

definition endRuntimeAccess :: "ctx \<Rightarrow> string \<Rightarrow> string \<Rightarrow> string \<Rightarrow> db \<Rightarrow> db" where
  "endRuntimeAccess c sessionReason logMessage runtimeID d =
     revokeRuntimeCapabilitiesForRuntimeTX c runtimeID
       (appendRuntimeLogTX c runtimeID ''system'' ''warn'' logMessage
         (closeRuntimeSessionsTX c runtimeID sessionReason d))"

definition queueRuntimeStopsTX ::
  "ctx \<Rightarrow> (runtime \<Rightarrow> bool) \<Rightarrow> string \<Rightarrow> string \<Rightarrow> db \<Rightarrow> string list \<times> db" where
  "queueRuntimeStopsTX c candidate sessionReason logMessage d =
     (let cand = (\<lambda>r. candidate r \<and> \<not> row_locked c (r_id r));
          candidateIDs = map r_id (filter cand (runtimes d));
          runtimeIDs = map r_id (filter (\<lambda>r. r_id r \<in> set candidateIDs) (runtimes d));
          d1 = d\<lparr>runtimes := update_where (\<lambda>r. r_id r \<in> set candidateIDs) (stop_row c) (runtimes d)\<rparr>
      in (runtimeIDs, fold (endRuntimeAccess c sessionReason logMessage) runtimeIDs d1))"

definition trial_over :: "db \<Rightarrow> runtime \<Rightarrow> bool" where
  "trial_over d r \<longleftrightarrow> r_deleted_at r = None \<and> r_desired_state r = ''running''
     \<and> (\<exists>e \<in> set (account_entitlements d). e_account_id e = r_account_id r \<and> e_source e = ''trial''
          \<and> e_trial_runtime_seconds_used e \<ge> e_trial_runtime_seconds e)"

definition balance_over :: "db \<Rightarrow> runtime \<Rightarrow> bool" where
  "balance_over d r \<longleftrightarrow> r_deleted_at r = None \<and> r_desired_state r = ''running''
     \<and> (\<exists>e \<in> set (account_entitlements d). e_account_id e = r_account_id r \<and> e_source e = ''paid'')
     \<and> sum_list (map l_amount_micro
           (filter (\<lambda>l. l_account_id l = r_account_id r) (account_ledger d))) \<le> 0"

record UsageResult =
  RuntimeCharges :: nat
  StorageCharges :: nat
  TrialSeconds :: int
  StoppedRuntimeIDs :: "string list"

definition MeterUsage :: "ctx \<Rightarrow> pricing \<Rightarrow> UsageResult tx" where
  "MeterUsage c p d =
     (case meterRuntimeTimeTX c (RuntimeHourMicro p) d of (runtimeCharges, trialSeconds, d1) \<Rightarrow>
        ebind (if Enabled p then chargeStorageTX c (StorageGiBMonthMicro p) d1 else Inr (0, d1))
          (\<lambda>(storageCharges, d2).
             let (trialOver, d3) = queueRuntimeStopsTX c (trial_over d2) ''trial runtime time used up''
                   ''Runtime stop queued because the trial's hour of running time is used up.'' d2;
                 (withoutBalance, d4) =
                   (if Enabled p
                    then queueRuntimeStopsTX c (balance_over d3) ''USDT balance used up''
                      ''Runtime stop queued because the account's USDT balance is used up.'' d3
                    else ([], d3))
             in Inr (\<lparr>RuntimeCharges = runtimeCharges, StorageCharges = storageCharges,
                      TrialSeconds = trialSeconds, StoppedRuntimeIDs = trialOver @ withoutBalance\<rparr>, d4)))"

section \<open>Rounding and hours\<close>

text \<open>
  Within the range of 64-bit integers, \<open>mulDivRound\<close> is \<open>a * b / c\<close> rounded to the nearest
  integer, halves up: the result is within half a unit of the exact quotient, never rounds a
  half down, and loses nothing to overflow on the way.
\<close>

theorem mulDivRound_nearest:
  assumes "0 < a" "0 < b" "0 < c" "a * b + c div 2 < c * (MaxInt64 + 1)"
  shows "2 * c * mulDivRound a b c \<le> 2 * (a * b) + c
    \<and> 2 * (a * b) + c < 2 * c * (mulDivRound a b c + 1) \<and> 0 \<le> mulDivRound a b c"
proof -
  define n q m where "n = a * b + c div 2" and "q = n div c" and "m = n mod c"
  have n: "n = c * q + m" "0 \<le> m" "m < c"
    using assms(3) by (simp_all add: q_def m_def)
  have "0 \<le> n" using assms by (simp add: n_def)
  then have q0: "0 \<le> q" using assms(3) by (simp add: q_def pos_imp_zdiv_nonneg_iff)
  have "q < MaxInt64 + 1"
  proof (rule ccontr)
    assume "\<not> q < MaxInt64 + 1"
    then have "c * (MaxInt64 + 1) \<le> c * q" using assms(3) by (intro mult_left_mono) linarith+
    with n assms(4) show False unfolding n_def by linarith
  qed
  then have q: "mulDivRound a b c = q"
    using assms by (simp add: mulDivRound_def Let_def q_def n_def)
  have "c = 2 * (c div 2) + c mod 2" "c mod 2 < 2" "0 \<le> c mod 2" by simp_all
  moreover have "n = a * b + c div 2" by (fact n_def)
  ultimately have "2 * (a * b) + c = 2 * (c * q) + 2 * m + c mod 2"
    using n(1) by linarith
  then have "2 * c * q \<le> 2 * (a * b) + c" "2 * (a * b) + c < 2 * c * (q + 1)"
    using n(2,3) \<open>c mod 2 < 2\<close> \<open>0 \<le> c mod 2\<close> by (simp_all add: distrib_left mult.assoc)
  with q0 show ?thesis unfolding q by blast
qed

theorem mulDivRound_nearest_witness:
  "(0::int) < 30000000 \<and> mulDivRound 30000000 60000 3600000000 = 500
   \<and> 2 * 3600000000 * mulDivRound 30000000 60000 3600000000 \<le> 2 * (30000000 * 60000) + 3600000000"
  using mulDivRound_nearest [of 30000000 60000 3600000000]
  by (simp add: mulDivRound_def MaxInt64_def)

lemma mulDivRound_nonneg: "0 \<le> mulDivRound a b c"
  by (auto simp: mulDivRound_def Let_def pos_imp_zdiv_nonneg_iff)

lemma truncate_hour_le: "truncate_hour t \<le> t"
  unfolding truncate_hour_def using pos_mod_sign [of hour t] by simp

text \<open>
  Where the parts of an interval lie: \<open>tiles t to ps\<close> says that the parts \<open>ps\<close> lie end to end
  from \<open>t\<close> to \<open>to\<close>, each within the hour it is labelled with.
\<close>

fun tiles :: "time \<Rightarrow> time \<Rightarrow> hourPart list \<Rightarrow> bool" where
  "tiles t to [] \<longleftrightarrow> t = to"
| "tiles t to (p # ps) \<longleftrightarrow> hp_start p = truncate_hour t \<and> 0 < hp_duration p
     \<and> t + hp_duration p \<le> hp_start p + hour \<and> tiles (t + hp_duration p) to ps"

lemma splitByHour_tiles: "from \<le> to \<Longrightarrow> tiles from to (splitByHour from to)"
proof (induction "from" to rule: splitByHour.induct)
  case (1 "from" to)
  show ?case
  proof (cases "from < to")
    case True
    let ?start = "truncate_hour from"
    let ?stop = "if ?start + hour > to then to else ?start + hour"
    have "tiles ?stop to (splitByHour ?stop to)"
      using 1(1) [OF True refl refl] by simp
    moreover have "from < ?stop" using True hour_end_after [of "from"] by simp
    ultimately show ?thesis
      using True truncate_hour_le [of "from"]
      by (subst splitByHour.simps) (simp add: Let_def split: if_splits)
  next
    case False
    with 1(2) show ?thesis by (subst splitByHour.simps) simp
  qed
qed

lemma tiles_sum: "tiles t to ps \<Longrightarrow> sum_list (map hp_duration ps) = to - t"
  by (induction ps arbitrary: t) auto

text \<open>
  Splitting an interval of running time at hour boundaries ends, and its parts lie end to
  end from its start to its end: each is non-empty, lies within the UTC hour it is labelled
  with, and together they account for the whole interval and nothing else.
\<close>

theorem splitByHour_partition:
  "tiles from (max from to) (splitByHour from to)
   \<and> sum_list (map hp_duration (splitByHour from to)) = max 0 (to - from)"
proof (cases "from \<le> to")
  case True
  then show ?thesis using tiles_sum [OF splitByHour_tiles [OF True]] splitByHour_tiles [OF True]
    by (simp add: max_absorb2)
next
  case False
  then show ?thesis by (subst (1 2) splitByHour.simps) simp
qed

section \<open>The ledger adds up\<close>

text \<open>What \<open>idx_account_ledger_usage\<close> enforces: one usage entry per account and reference.\<close>

definition ledger_wf :: "db \<Rightarrow> bool" where
  "ledger_wf d \<longleftrightarrow> unique_where usage_kind (\<lambda>l. (l_account_id l, l_reference l)) (account_ledger d)"

definition balance_of :: "string \<Rightarrow> db \<Rightarrow> int" where
  "balance_of a d = sum_list (map (\<lambda>l. if l_account_id l = a then l_amount_micro l else 0) (account_ledger d))"

lemma balance_of_filter:
  "balance_of a d = sum_list (map l_amount_micro (filter (\<lambda>l. l_account_id l = a) (account_ledger d)))"
  unfolding balance_of_def by (induction "account_ledger d") (simp_all add: sum_list_map_filter')

lemma accountBalance_eq: "accountBalance a d = balance_of (TrimSpace a) d"
  by (simp add: accountBalance_def balance_of_filter)

lemma balance_of_cong: "account_ledger d' = account_ledger d \<Longrightarrow> balance_of a d' = balance_of a d"
  by (simp add: balance_of_def)

lemma ledger_wf_cong: "account_ledger d' = account_ledger d \<Longrightarrow> ledger_wf d' = ledger_wf d"
  by (simp add: ledger_wf_def)

lemma addUsageChargeTX_frame [simp]:
  "accounts (addUsageChargeTX c a k r x d) = accounts d"
  "account_entitlements (addUsageChargeTX c a k r x d) = account_entitlements d"
  "runtimes (addUsageChargeTX c a k r x d) = runtimes d"
  "sessions (addUsageChargeTX c a k r x d) = sessions d"
  "runtime_capabilities (addUsageChargeTX c a k r x d) = runtime_capabilities d"
  "usdt_deposits (addUsageChargeTX c a k r x d) = usdt_deposits d"
  "provisioned_vms (addUsageChargeTX c a k r x d) = provisioned_vms d"
  by (simp_all add: addUsageChargeTX_def Let_def)

lemma usage_kind_amount [simp]: "usage_kind (l\<lparr>l_amount_micro := x\<rparr>) = usage_kind l"
  by (simp add: usage_kind_def)

text \<open>The two ways a charge is recorded: added to the entry there is, or as a new entry.\<close>

lemma addUsageChargeTX_cases:
  obtains (added) "\<exists>l \<in> set (account_ledger d). usage_kind l \<and> (l_account_id l, l_reference l) = (a, r)"
      "account_ledger (addUsageChargeTX c a k r x d) =
         update_where (\<lambda>l. usage_kind l \<and> (l_account_id l, l_reference l) = (a, r))
           (\<lambda>l. l\<lparr>l_amount_micro := l_amount_micro l - x\<rparr>) (account_ledger d)"
  | (new) "\<forall>l \<in> set (account_ledger d). usage_kind l \<longrightarrow> (l_account_id l, l_reference l) \<noteq> (a, r)"
      "account_ledger (addUsageChargeTX c a k r x d) = account_ledger d
         @ [\<lparr>l_account_id = a, l_kind = k, l_amount_micro = - x, l_reference = r, l_created_at = db_now c\<rparr>]"
  unfolding addUsageChargeTX_def Let_def
  by (cases "\<exists>l \<in> set (account_ledger d). usage_kind l \<and> l_account_id l = a \<and> l_reference l = r") auto

lemma addUsageChargeTX_wf:
  assumes "ledger_wf d" and "k = ''runtime'' \<or> k = ''storage''"
  shows "ledger_wf (addUsageChargeTX c a k r x d)"
  using assms unfolding ledger_wf_def
  by (cases rule: addUsageChargeTX_cases [of d a r c k x])
     (auto simp: unique_where_append1 intro: unique_where_update)

lemma addUsageChargeTX_balance:
  assumes "ledger_wf d"
  shows "balance_of b (addUsageChargeTX c a k r x d) = balance_of b d - (if b = a then x else 0)"
proof (cases rule: addUsageChargeTX_cases [of d a r c k x])
  case added
  let ?val = "\<lambda>l. if l_account_id l = b then l_amount_micro l else 0"
  let ?f = "\<lambda>l. l\<lparr>l_amount_micro := l_amount_micro l - x\<rparr>"
  have "sum_list (map ?val (update_where
          (\<lambda>l. usage_kind l \<and> (l_account_id l, l_reference l) = (a, r)) ?f (account_ledger d)))
      = sum_list (map ?val (account_ledger d)) + (if b = a then - x else 0)"
    using assms added(1) unfolding ledger_wf_def by (intro sum_update_one) auto
  then show ?thesis unfolding balance_of_def added(2) by simp
next
  case new
  show ?thesis unfolding balance_of_def new(2) by simp
qed

text \<open>What a pass charges for one runtime: every part of the time it ran, rounded.\<close>

definition runtimeCharge :: "int \<Rightarrow> due \<Rightarrow> int" where
  "runtimeCharge hourMicro u =
     (if du_status u = ''running'' \<and> du_now u > du_since u \<and> du_source u = ''paid''
      then sum_list (map (\<lambda>p. mulDivRound (hp_duration p) hourMicro hour)
             (splitByHour (du_since u) (du_now u)))
      else 0)"

lemma chargePart_step:
  "snd (chargePart c h u p (n, d)) =
     (let amount = mulDivRound (hp_duration p) h hour
      in if amount \<le> 0 then d
         else addUsageChargeTX c (du_accountID u) ''runtime''
                (''runtime:'' @ du_runtimeID u @ '':'' @ hour_label (hp_start p)) amount d)"
  by (simp add: chargePart_def Let_def)

lemma chargePart_frame [simp]:
  "accounts (snd (chargePart c h u p s)) = accounts (snd s)"
  "account_entitlements (snd (chargePart c h u p s)) = account_entitlements (snd s)"
  "runtimes (snd (chargePart c h u p s)) = runtimes (snd s)"
  "sessions (snd (chargePart c h u p s)) = sessions (snd s)"
  "runtime_capabilities (snd (chargePart c h u p s)) = runtime_capabilities (snd s)"
  by (cases s; simp add: chargePart_step Let_def)+

lemma chargeParts_frame [simp]:
  "accounts (snd (fold (chargePart c h u) ps s)) = accounts (snd s)"
  "account_entitlements (snd (fold (chargePart c h u) ps s)) = account_entitlements (snd s)"
  "runtimes (snd (fold (chargePart c h u) ps s)) = runtimes (snd s)"
  "sessions (snd (fold (chargePart c h u) ps s)) = sessions (snd s)"
  "runtime_capabilities (snd (fold (chargePart c h u) ps s)) = runtime_capabilities (snd s)"
  by (induction ps arbitrary: s) simp_all

lemma chargePart_ledger:
  assumes "ledger_wf (snd s)"
  shows "ledger_wf (snd (chargePart c h u p s))"
    and "balance_of b (snd (chargePart c h u p s))
       = balance_of b (snd s) - (if b = du_accountID u then mulDivRound (hp_duration p) h hour else 0)"
  using assms mulDivRound_nonneg [of "hp_duration p" h hour]
  by (cases s; auto simp: chargePart_step Let_def addUsageChargeTX_wf addUsageChargeTX_balance)+

lemma chargeParts_ledger:
  assumes "ledger_wf (snd s)"
  shows "ledger_wf (snd (fold (chargePart c h u) ps s))
    \<and> balance_of b (snd (fold (chargePart c h u) ps s)) = balance_of b (snd s)
       - (if b = du_accountID u
          then sum_list (map (\<lambda>p. mulDivRound (hp_duration p) h hour) ps) else 0)"
  using assms by (induction ps arbitrary: s) (simp_all add: chargePart_ledger)

section \<open>One metering pass\<close>

abbreviation db_of :: "nat \<times> int \<times> db \<Rightarrow> db" where
  "db_of s \<equiv> snd (snd s)"

text \<open>What metering keeps: everything but the ledger, the trial's seconds and \<open>billed_through\<close>.\<close>

definition same_but_billing :: "db \<Rightarrow> db \<Rightarrow> bool" where
  "same_but_billing d d' \<longleftrightarrow>
     accounts d' = accounts d \<and> sessions d' = sessions d
     \<and> runtime_capabilities d' = runtime_capabilities d
     \<and> map (\<lambda>r. r\<lparr>r_billed_through := None\<rparr>) (runtimes d')
        = map (\<lambda>r. r\<lparr>r_billed_through := None\<rparr>) (runtimes d)
     \<and> map (\<lambda>e. (e_account_id e, e_source e)) (account_entitlements d')
        = map (\<lambda>e. (e_account_id e, e_source e)) (account_entitlements d)"

lemma same_but_billing_refl [simp]: "same_but_billing d d"
  by (simp add: same_but_billing_def)

lemma same_but_billing_trans:
  "same_but_billing d d1 \<Longrightarrow> same_but_billing d1 d2 \<Longrightarrow> same_but_billing d d2"
  by (simp add: same_but_billing_def)

lemma same_but_billing_steps [simp]:
  "same_but_billing d0 (addTrialSeconds c a n d) = same_but_billing d0 d"
  "same_but_billing d0 (setBilledThrough r t d) = same_but_billing d0 d"
  "same_but_billing d0 (snd (fold (chargePart c h u) ps (k, d))) = same_but_billing d0 d"
  by (simp_all add: same_but_billing_def addTrialSeconds_def setBilledThrough_def map_update_where)

lemma meterDue_db:
  "db_of (meterDue c h u (n, t, d)) = setBilledThrough (du_runtimeID u) (du_now u)
     (if du_status u = ''running'' \<and> du_now u > du_since u
      then if du_source u = ''trial''
           then addTrialSeconds c (du_accountID u) (seconds_between (du_since u) (du_now u)) d
           else if du_source u = ''paid''
           then snd (fold (chargePart c h u) (splitByHour (du_since u) (du_now u)) (n, d))
           else d
      else d)"
  by (simp add: meterDue_def Let_def split: prod.splits)

lemma meterDue_same: "same_but_billing (db_of s) (db_of (meterDue c h u s))"
  by (cases s) (simp add: meterDue_db)

lemma meterRuntimeTimeTX_same: "same_but_billing d (db_of (meterRuntimeTimeTX c h d))"
  unfolding meterRuntimeTimeTX_def
  by (rule fold_invariant_snd [where I = "\<lambda>s. same_but_billing d (db_of s)"])
     (auto intro: same_but_billing_trans [OF _ meterDue_same])

lemma ledger_frame [simp]:
  "account_ledger (addTrialSeconds c a n d) = account_ledger d"
  "account_ledger (setBilledThrough r t d) = account_ledger d"
  by (simp_all add: addTrialSeconds_def setBilledThrough_def)

lemma ledger_wf_frame [simp]:
  "ledger_wf (addTrialSeconds c a n d) = ledger_wf d"
  "ledger_wf (setBilledThrough r t d) = ledger_wf d"
  "balance_of b (addTrialSeconds c a n d) = balance_of b d"
  "balance_of b (setBilledThrough r t d) = balance_of b d"
  by (simp_all add: ledger_wf_def balance_of_def)

lemma meterDue_ledger:
  assumes "ledger_wf (db_of s)"
  shows "ledger_wf (db_of (meterDue c h u s))
    \<and> balance_of b (db_of (meterDue c h u s)) = balance_of b (db_of s)
        - (if b = du_accountID u then runtimeCharge h u else 0)"
  using assms chargeParts_ledger [of "(fst s, db_of s)"]
  by (cases s) (auto simp: meterDue_db runtimeCharge_def)

lemma meterDues_ledger:
  assumes "ledger_wf (db_of s)"
  shows "ledger_wf (db_of (fold (meterDue c h) us s))
    \<and> balance_of b (db_of (fold (meterDue c h) us s)) = balance_of b (db_of s)
        - sum_list (map (\<lambda>u. if du_accountID u = b then runtimeCharge h u else 0) us)"
  using assms
proof (induction us arbitrary: s)
  case (Cons u us)
  have "ledger_wf (db_of (meterDue c h u s))" using meterDue_ledger [OF Cons.prems] by simp
  from Cons.IH [OF this] meterDue_ledger [OF Cons.prems, of c h u b] show ?case by auto
qed simp

subsection \<open>Storage charges\<close>

lemma storage_used_cong:
  assumes "map (\<lambda>r. (r_account_id r, r_deleted_at r, r_blob_manifest_json r)) (runtimes d')
         = map (\<lambda>r. (r_account_id r, r_deleted_at r, r_blob_manifest_json r)) (runtimes d)"
  shows "accountStorageBytesUsed c a d' = accountStorageBytesUsed c a d"
proof -
  let ?k = "\<lambda>r. (r_account_id r, r_deleted_at r, r_blob_manifest_json r)"
  have "map manifestText (storedManifests b x)
      = map (\<lambda>(_, _, m). coalesce m [])
          (filter (\<lambda>(acc, del, m). acc = b \<and> del = None \<and> sql_filled m) (map ?k (runtimes x)))" for b x
    by (simp add: storedManifests_def filter_map o_def manifestText_def)
  then show ?thesis using assms by (simp add: accountStorageBytesUsed_def)
qed

lemma storage_used_same:
  assumes "same_but_billing d d'"
  shows "accountStorageBytesUsed c a d' = accountStorageBytesUsed c a d"
proof (rule storage_used_cong)
  let ?k = "\<lambda>r. (r_account_id r, r_deleted_at r, r_blob_manifest_json r)"
  let ?u = "\<lambda>r. r\<lparr>r_billed_through := None\<rparr>"
  have key: "map ?k rs = map ?k (map ?u rs)" for rs
    by simp
  have "map ?u (runtimes d') = map ?u (runtimes d)" using assms by (simp only: same_but_billing_def)
  then show "map ?k (runtimes d') = map ?k (runtimes d)"
    unfolding key [of "runtimes d'"] key [of "runtimes d"] by (rule arg_cong)
qed

lemma storage_due_same:
  assumes "same_but_billing d d'"
  shows "storage_due c d' = storage_due c d"
proof -
  let ?k = "\<lambda>e. (e_account_id e, e_source e)"
  have key: "map (\<lambda>_. i) (filter (\<lambda>e. e_account_id e = i \<and> e_source e = ''paid'') es)
      = map (\<lambda>_. i) (filter (\<lambda>(acc, src). acc = i \<and> src = ''paid'') (map ?k es))" for i :: string and es
    by (simp add: filter_map o_def)
  have "map ?k (account_entitlements d') = map ?k (account_entitlements d)" "accounts d' = accounts d"
    using assms by (simp_all add: same_but_billing_def)
  then show ?thesis unfolding storage_due_def key by simp
qed

definition storageCharge :: "ctx \<Rightarrow> int \<Rightarrow> string \<Rightarrow> db \<Rightarrow> int" where
  "storageCharge c gibMonthMicro a d =
     (case accountStorageBytesUsed c a d of Inl _ \<Rightarrow> 0
      | Inr used \<Rightarrow> mulDivRound used gibMonthMicro (1073741824 * 30))"

text \<open>A storage step charges its account and marks it billed today; nothing else changes.\<close>

lemma chargeAccountStorage_cases:
  assumes "chargeAccountStorage c g a (n, d) = Inr (n', d')"
  obtains d1 where "d' = d1\<lparr>accounts := update_where (\<lambda>x. a_id x = a)
           (\<lambda>x. x\<lparr>a_storage_billed_on := Some (day_of (db_now c))\<rparr>) (accounts d)\<rparr>"
    and "(storageCharge c g a d = 0 \<and> n' = n \<and> d1 = d)
       \<or> (0 < storageCharge c g a d \<and> n' = n + 1
          \<and> d1 = addUsageChargeTX c a ''storage'' (''storage:'' @ month_label (db_now c)) (storageCharge c g a d) d)"
proof -
  from assms obtain used where used: "accountStorageBytesUsed c a d = Inr used"
    by (auto simp: chargeAccountStorage_def res_simps)
  then have sc: "storageCharge c g a d = mulDivRound used g 32212254720"
    by (simp add: storageCharge_def)
  have "0 \<le> mulDivRound used g 32212254720" by (rule mulDivRound_nonneg)
  then show thesis
    using assms used sc that by (cases "mulDivRound used g 32212254720 > 0")
      (simp_all add: chargeAccountStorage_def Let_def)
qed

lemma chargeAccountStorage_ledger:
  assumes "chargeAccountStorage c g a s = Inr s'" and "ledger_wf (snd s)"
  shows "ledger_wf (snd s')"
    and "balance_of b (snd s') = balance_of b (snd s) - (if a = b then storageCharge c g a (snd s) else 0)"
proof -
  have frame: "ledger_wf (x\<lparr>accounts := y\<rparr>) = ledger_wf x" "balance_of b (x\<lparr>accounts := y\<rparr>) = balance_of b x"
    for x y by (simp_all add: ledger_wf_def balance_of_def)
  obtain n d n' d' where s: "s = (n, d)" "s' = (n', d')" by (cases s, cases s') auto
  from assms(1) show "ledger_wf (snd s')"
      "balance_of b (snd s') = balance_of b (snd s) - (if a = b then storageCharge c g a (snd s) else 0)"
    unfolding s using assms(2)
    by (auto elim!: chargeAccountStorage_cases simp: s frame addUsageChargeTX_wf addUsageChargeTX_balance)
qed

lemma chargeAccountStorage_frame:
  assumes "chargeAccountStorage c g a s = Inr s'"
  shows "runtimes (snd s') = runtimes (snd s)"
    and "account_entitlements (snd s') = account_entitlements (snd s)"
    and "sessions (snd s') = sessions (snd s)"
    and "runtime_capabilities (snd s') = runtime_capabilities (snd s)"
    and "accounts (snd s') = update_where (\<lambda>x. a_id x = a)
           (\<lambda>x. x\<lparr>a_storage_billed_on := Some (day_of (db_now c))\<rparr>) (accounts (snd s))"
proof -
  obtain n d n' d' where s: "s = (n, d)" "s' = (n', d')" by (cases s, cases s') auto
  from assms obtain d1 where d1: "d' = d1\<lparr>accounts := update_where (\<lambda>x. a_id x = a)
           (\<lambda>x. x\<lparr>a_storage_billed_on := Some (day_of (db_now c))\<rparr>) (accounts d)\<rparr>"
      "runtimes d1 = runtimes d" "account_entitlements d1 = account_entitlements d"
      "sessions d1 = sessions d" "runtime_capabilities d1 = runtime_capabilities d"
    unfolding s by (elim chargeAccountStorage_cases) auto
  then show "runtimes (snd s') = runtimes (snd s)"
    "account_entitlements (snd s') = account_entitlements (snd s)"
    "sessions (snd s') = sessions (snd s)"
    "runtime_capabilities (snd s') = runtime_capabilities (snd s)"
    "accounts (snd s') = update_where (\<lambda>x. a_id x = a)
           (\<lambda>x. x\<lparr>a_storage_billed_on := Some (day_of (db_now c))\<rparr>) (accounts (snd s))"
    unfolding s by simp_all
qed

lemma storageCharge_cong: "runtimes d' = runtimes d \<Longrightarrow> storageCharge c g a d' = storageCharge c g a d"
  using storage_used_cong [of d' d c a] by (simp add: storageCharge_def)

lemma chargeStorages_ledger:
  assumes "efold (chargeAccountStorage c g) as s = Inr s'" and "ledger_wf (snd s)"
  shows "ledger_wf (snd s') \<and> runtimes (snd s') = runtimes (snd s)
    \<and> balance_of b (snd s') = balance_of b (snd s)
        - sum_list (map (\<lambda>a. if a = b then storageCharge c g a (snd s) else 0) as)"
  using assms
proof (induction as arbitrary: s)
  case (Cons a as)
  then obtain t where t: "chargeAccountStorage c g a s = Inr t"
      "efold (chargeAccountStorage c g) as t = Inr s'"
    by (auto simp: res_simps)
  note step = chargeAccountStorage_ledger [OF t(1) Cons.prems(2)] chargeAccountStorage_frame(1) [OF t(1)]
  have sc: "storageCharge c g x (snd t) = storageCharge c g x (snd s)" for x
    by (rule storageCharge_cong [OF step(3)])
  have "ledger_wf (snd s') \<and> runtimes (snd s') = runtimes (snd t)
    \<and> balance_of b (snd s') = balance_of b (snd t)
        - sum_list (map (\<lambda>a. if a = b then storageCharge c g a (snd t) else 0) as)"
    by (rule Cons.IH [OF t(2) step(1)])
  then show ?case using step(2) [of b] step(3) unfolding sc by simp
qed simp

lemma chargeStorages_frame:
  assumes "efold (chargeAccountStorage c g) as s = Inr s'"
  shows "runtimes (snd s') = runtimes (snd s) \<and> account_entitlements (snd s') = account_entitlements (snd s)
    \<and> sessions (snd s') = sessions (snd s) \<and> runtime_capabilities (snd s') = runtime_capabilities (snd s)"
  using assms
  by (rule efold_invariant) (simp_all add: chargeAccountStorage_frame)

lemma chargeStorages_billed:
  assumes "efold (chargeAccountStorage c g) as s = Inr s'"
  shows "accounts (snd s') = update_where (\<lambda>x. a_id x \<in> set as)
      (\<lambda>x. x\<lparr>a_storage_billed_on := Some (day_of (db_now c))\<rparr>) (accounts (snd s))"
  using assms
proof (induction as arbitrary: s)
  case Nil
  then show ?case by (simp add: update_where_id)
next
  case (Cons a as)
  then obtain t where t: "chargeAccountStorage c g a s = Inr t"
      "efold (chargeAccountStorage c g) as t = Inr s'"
    by (auto simp: res_simps)
  from Cons.IH [OF t(2)] chargeAccountStorage_frame(5) [OF t(1)]
  show ?case by (auto simp: update_where_def)
qed

lemma chargeStorageTX_zero:
  "chargeStorageTX c g d = Inr (n, d') \<Longrightarrow> g \<le> 0 \<Longrightarrow> d' = d"
  by (simp add: chargeStorageTX_def)

lemma storageCharge_zero: "g \<le> 0 \<Longrightarrow> storageCharge c g a d = 0"
  by (simp add: storageCharge_def mulDivRound_def split: sum.splits)

lemma chargeStorageTX_ledger:
  assumes "chargeStorageTX c g d = Inr (n, d')" and "ledger_wf d"
  shows "ledger_wf d'" and "balance_of b d' = balance_of b d
        - sum_list (map (\<lambda>a. if a = b then storageCharge c g a d else 0) (storage_due c d))"
proof -
  show "ledger_wf d'"
    using assms chargeStorages_ledger [of c g "storage_due c d" "(0, d)" "(n, d')"]
    by (simp add: chargeStorageTX_def split: if_splits)
  show "balance_of b d' = balance_of b d
        - sum_list (map (\<lambda>a. if a = b then storageCharge c g a d else 0) (storage_due c d))"
    using assms chargeStorages_ledger [of c g "storage_due c d" "(0, d)" "(n, d')" b]
    by (auto simp: chargeStorageTX_def storageCharge_zero cong: if_cong split: if_splits)
qed

subsection \<open>Queued stops\<close>

lemma endRuntimeAccess_frame [simp]:
  "accounts (endRuntimeAccess c x y i d) = accounts d"
  "account_entitlements (endRuntimeAccess c x y i d) = account_entitlements d"
  "account_ledger (endRuntimeAccess c x y i d) = account_ledger d"
  "runtimes (endRuntimeAccess c x y i d) = runtimes d"
  by (simp_all add: endRuntimeAccess_def)

lemma endRuntimeAccesses_frame [simp]:
  "accounts (fold (endRuntimeAccess c x y) is d) = accounts d"
  "account_entitlements (fold (endRuntimeAccess c x y) is d) = account_entitlements d"
  "account_ledger (fold (endRuntimeAccess c x y) is d) = account_ledger d"
  "runtimes (fold (endRuntimeAccess c x y) is d) = runtimes d"
  by (induction "is" arbitrary: d) simp_all

definition access_ended :: "string \<Rightarrow> db \<Rightarrow> bool" where
  "access_ended i d \<longleftrightarrow> no_live_session i d \<and> no_valid_capability i d"

lemma access_ended_runtimes [simp]: "access_ended i (d\<lparr>runtimes := rs\<rparr>) = access_ended i d"
  by (simp add: access_ended_def no_live_session_def no_valid_capability_def)

lemma endRuntimeAccess_ends: "TrimSpace i = i \<Longrightarrow> access_ended i (endRuntimeAccess c x y i d)"
  by (simp add: access_ended_def endRuntimeAccess_def revoke_for_runtime_none)

lemma endRuntimeAccess_keeps: "access_ended i d \<Longrightarrow> access_ended i (endRuntimeAccess c x y j d)"
  unfolding access_ended_def endRuntimeAccess_def revokeRuntimeCapabilitiesForRuntimeTX_def
  by (simp add: no_live_session_close no_valid_capability_mono)

lemma endRuntimeAccesses_keep: "access_ended i d \<Longrightarrow> access_ended i (fold (endRuntimeAccess c x y) is d)"
  by (induction "is" arbitrary: d) (simp_all add: endRuntimeAccess_keeps)

lemma endRuntimeAccesses_end:
  assumes "i \<in> set is" "TrimSpace i = i"
  shows "access_ended i (fold (endRuntimeAccess c x y) is d)"
  using assms
proof (induction "is" arbitrary: d)
  case (Cons j js)
  show ?case
  proof (cases "i = j")
    case True
    then show ?thesis using Cons.prems by (simp add: endRuntimeAccesses_keep endRuntimeAccess_ends)
  next
    case False
    with Cons show ?thesis by simp
  qed
qed simp

definition stop_ids :: "ctx \<Rightarrow> (runtime \<Rightarrow> bool) \<Rightarrow> db \<Rightarrow> string set" where
  "stop_ids c candidate d = r_id ` {r \<in> set (runtimes d). candidate r \<and> \<not> row_locked c (r_id r)}"

lemma queueRuntimeStopsTX_frame [simp]:
  "accounts (snd (queueRuntimeStopsTX c P x y d)) = accounts d"
  "account_entitlements (snd (queueRuntimeStopsTX c P x y d)) = account_entitlements d"
  "account_ledger (snd (queueRuntimeStopsTX c P x y d)) = account_ledger d"
  "runtimes (snd (queueRuntimeStopsTX c P x y d))
     = update_where (\<lambda>r. r_id r \<in> stop_ids c P d) (stop_row c) (runtimes d)"
  "set (fst (queueRuntimeStopsTX c P x y d)) = stop_ids c P d"
  by (auto simp: queueRuntimeStopsTX_def Let_def stop_ids_def)

lemma queueRuntimeStopsTX_ends:
  assumes "i \<in> stop_ids c P d" "TrimSpace i = i"
  shows "access_ended i (snd (queueRuntimeStopsTX c P x y d))"
proof -
  have "i \<in> set (fst (queueRuntimeStopsTX c P x y d))" using assms(1) by simp
  then show ?thesis
    unfolding queueRuntimeStopsTX_def Let_def fst_conv snd_conv
    by (rule endRuntimeAccesses_end) (rule assms(2))
qed

lemma queueRuntimeStopsTX_keeps:
  "access_ended i d \<Longrightarrow> access_ended i (snd (queueRuntimeStopsTX c P x y d))"
  unfolding queueRuntimeStopsTX_def Let_def snd_conv by (rule endRuntimeAccesses_keep) simp

lemma stop_row_simps [simp]:
  "r_id (stop_row c r) = r_id r" "r_desired_state (stop_row c r) = ''stopped''"
  "r_started_at (stop_row c r) = None" "r_deleted_at (stop_row c r) = r_deleted_at r"
  "r_account_id (stop_row c r) = r_account_id r" "r_viewer_port (stop_row c r) = r_viewer_port r"
  "r_operation_generation (stop_row c r) = r_operation_generation r + 1"
  by (simp_all add: stop_row_def)

text \<open>After the statement no unlocked row is a candidate, for a condition on running rows.\<close>

lemma queueRuntimeStopsTX_none_left:
  assumes "\<And>r. P r \<Longrightarrow> r_desired_state r = ''running''"
    and "r \<in> set (runtimes (snd (queueRuntimeStopsTX c P x y d)))" and "\<not> row_locked c (r_id r)"
  shows "\<not> P r"
proof -
  from assms(2) consider q where "q \<in> set (runtimes d)" "r = stop_row c q"
    | "r \<in> set (runtimes d)" "r_id r \<notin> stop_ids c P d"
    unfolding queueRuntimeStopsTX_frame in_update_where by blast
  then show ?thesis
  proof cases
    case 1
    then show ?thesis using assms(1) [of r] stop_row_simps(2) [of c q] by auto
  next
    case 2
    then show ?thesis using assms(3) by (auto simp: stop_ids_def)
  qed
qed

section \<open>What a pass does\<close>

text \<open>The phases of \<open>MeterUsage\<close>, with what each hands to the next.\<close>

lemma MeterUsage_phases:
  assumes "MeterUsage c p d = Inr (u, d')"
  obtains d1 d2 d3 where
    "d1 = db_of (meterRuntimeTimeTX c (RuntimeHourMicro p) d)"
    "RuntimeCharges u = fst (meterRuntimeTimeTX c (RuntimeHourMicro p) d)"
    "TrialSeconds u = fst (snd (meterRuntimeTimeTX c (RuntimeHourMicro p) d))"
    "if Enabled p then chargeStorageTX c (StorageGiBMonthMicro p) d1 = Inr (StorageCharges u, d2)
     else StorageCharges u = 0 \<and> d2 = d1"
    "d3 = snd (queueRuntimeStopsTX c (trial_over d2) ''trial runtime time used up''
            ''Runtime stop queued because the trial's hour of running time is used up.'' d2)"
    "d' = (if Enabled p then snd (queueRuntimeStopsTX c (balance_over d3) ''USDT balance used up''
            ''Runtime stop queued because the account's USDT balance is used up.'' d3) else d3)"
    "set (StoppedRuntimeIDs u) = stop_ids c (trial_over d2) d2
       \<union> (if Enabled p then stop_ids c (balance_over d3) d3 else {})"
proof -
  obtain n t d1 where m: "meterRuntimeTimeTX c (RuntimeHourMicro p) d = (n, t, d1)"
    by (metis prod_cases3)
  obtain k d2 where s: "(if Enabled p then chargeStorageTX c (StorageGiBMonthMicro p) d1 else Inr (0, d1)) = Inr (k, d2)"
    using assms unfolding MeterUsage_def m by (auto simp: res_simps split: if_splits)
  obtain ids1 d3 where q1: "queueRuntimeStopsTX c (trial_over d2) ''trial runtime time used up''
            ''Runtime stop queued because the trial's hour of running time is used up.'' d2 = (ids1, d3)"
    by (metis prod.exhaust)
  obtain ids2 d4 where q2: "(if Enabled p then queueRuntimeStopsTX c (balance_over d3) ''USDT balance used up''
            ''Runtime stop queued because the account's USDT balance is used up.'' d3 else ([], d3)) = (ids2, d4)"
    by (metis prod.exhaust)
  have res: "u = \<lparr>RuntimeCharges = n, StorageCharges = k, TrialSeconds = t, StoppedRuntimeIDs = ids1 @ ids2\<rparr>" "d' = d4"
    using assms unfolding MeterUsage_def m prod.case s ebind_simps q1 Let_def q2 by simp_all
  show thesis
  proof (rule that [of d1 d2 d3])
    show "d3 = snd (queueRuntimeStopsTX c (trial_over d2) ''trial runtime time used up''
            ''Runtime stop queued because the trial's hour of running time is used up.'' d2)"
      by (simp add: q1)
    show "d' = (if Enabled p then snd (queueRuntimeStopsTX c (balance_over d3) ''USDT balance used up''
            ''Runtime stop queued because the account's USDT balance is used up.'' d3) else d3)"
      using q2 res(2) by (auto split: if_splits)
    show "set (StoppedRuntimeIDs u) = stop_ids c (trial_over d2) d2
       \<union> (if Enabled p then stop_ids c (balance_over d3) d3 else {})"
      using arg_cong [OF q1, of "\<lambda>x. set (fst x)"] arg_cong [OF q2, of "\<lambda>x. set (fst x)"] res(1)
      by (auto split: if_splits)
    show "if Enabled p then chargeStorageTX c (StorageGiBMonthMicro p) d1 = Inr (StorageCharges u, d2)
     else StorageCharges u = 0 \<and> d2 = d1"
      using s res(1) by (simp split: if_splits)
  qed (simp_all add: m res)
qed

text \<open>
  C1. A metering pass charges each account exactly what is due: its balance falls by the rounded
  price of every hour part its running paid runtimes ran since they were last billed, plus one
  day's storage when that day is not billed yet, and by nothing else. The ledger keeps one usage
  entry per account and reference.
\<close>

theorem MeterUsage_charges_exactly:
  assumes "MeterUsage c p d = Inr (u, d')" and "ledger_wf d"
  shows "ledger_wf d' \<and> balance_of a d' = balance_of a d
    - sum_list (map (\<lambda>x. if du_accountID x = a then runtimeCharge (RuntimeHourMicro p) x else 0) (dues c d))
    - sum_list (map (\<lambda>x. if x = a then storageCharge c (StorageGiBMonthMicro p) x d else 0) (storage_due c d))"
  using assms(1)
proof (rule MeterUsage_phases)
  fix d1 d2 d3
  assume d1: "d1 = db_of (meterRuntimeTimeTX c (RuntimeHourMicro p) d)"
    and d2: "if Enabled p then chargeStorageTX c (StorageGiBMonthMicro p) d1 = Inr (StorageCharges u, d2)
     else StorageCharges u = 0 \<and> d2 = d1"
    and d3: "d3 = snd (queueRuntimeStopsTX c (trial_over d2) ''trial runtime time used up''
            ''Runtime stop queued because the trial's hour of running time is used up.'' d2)"
    and d4: "d' = (if Enabled p then snd (queueRuntimeStopsTX c (balance_over d3) ''USDT balance used up''
            ''Runtime stop queued because the account's USDT balance is used up.'' d3) else d3)"
  have same: "same_but_billing d d1" unfolding d1 by (rule meterRuntimeTimeTX_same)
  have l1: "ledger_wf d1" "balance_of a d1 = balance_of a d
      - sum_list (map (\<lambda>x. if du_accountID x = a then runtimeCharge (RuntimeHourMicro p) x else 0) (dues c d))"
    unfolding d1 meterRuntimeTimeTX_def using meterDues_ledger [of "(0, 0, d)"] assms(2) by simp_all
  have sd: "storage_due c d1 = storage_due c d" and sc: "storageCharge c g x d1 = storageCharge c g x d" for g x
    by (simp_all add: storage_due_same [OF same] storageCharge_def storage_used_same [OF same])
  have "ledger_wf d2 \<and> balance_of a d2 = balance_of a d1
      - sum_list (map (\<lambda>x. if x = a then storageCharge c (StorageGiBMonthMicro p) x d else 0) (storage_due c d))"
  proof (cases "Enabled p")
    case True
    with d2 have "chargeStorageTX c (StorageGiBMonthMicro p) d1 = Inr (StorageCharges u, d2)" by simp
    from chargeStorageTX_ledger [OF this l1(1)] show ?thesis unfolding sd sc by simp
  next
    case False
    with d2 l1(1) show ?thesis by (simp add: storageCharge_zero Enabled_def cong: if_cong)
  qed
  moreover have "account_ledger d' = account_ledger d2" unfolding d4 d3 by simp
  ultimately show ?thesis using l1 by (simp add: ledger_wf_def balance_of_def)
qed

text \<open>
  C3. A pass stops what is used up: afterwards no runtime that no other transaction holds is
  still wanted running on a used-up trial, nor, while charging is on, on a used-up balance; and
  the runtimes it stopped have no live session and no usable capability left.
\<close>

theorem MeterUsage_stops_used_up:
  assumes "MeterUsage c p d = Inr (u, d')"
    and "r \<in> set (runtimes d')" and "\<not> row_locked c (r_id r)"
  shows "\<not> trial_over d' r \<and> (Enabled p \<longrightarrow> \<not> balance_over d' r)
    \<and> (r_id r \<in> set (StoppedRuntimeIDs u) \<longrightarrow> TrimSpace (r_id r) = r_id r \<longrightarrow> access_ended (r_id r) d')"
  using assms(1)
proof (rule MeterUsage_phases)
  fix d1 d2 d3
  assume d3: "d3 = snd (queueRuntimeStopsTX c (trial_over d2) ''trial runtime time used up''
            ''Runtime stop queued because the trial's hour of running time is used up.'' d2)"
    and d4: "d' = (if Enabled p then snd (queueRuntimeStopsTX c (balance_over d3) ''USDT balance used up''
            ''Runtime stop queued because the account's USDT balance is used up.'' d3) else d3)"
    and ids: "set (StoppedRuntimeIDs u) = stop_ids c (trial_over d2) d2
       \<union> (if Enabled p then stop_ids c (balance_over d3) d3 else {})"
  have ent: "account_entitlements d3 = account_entitlements d2" "account_ledger d3 = account_ledger d2"
      "account_entitlements d' = account_entitlements d2" "account_ledger d' = account_ledger d2"
    unfolding d4 d3 by simp_all
  have none3: "\<not> trial_over d2 q" if "q \<in> set (runtimes d3)" "\<not> row_locked c (r_id q)" for q
    using queueRuntimeStopsTX_none_left [of "trial_over d2"] that unfolding d3 trial_over_def by blast
  have "\<not> trial_over d2 r"
  proof (cases "Enabled p")
    case True
    from assms(2) consider q where "r = stop_row c q" | "r \<in> set (runtimes d3)"
      unfolding d4 using True by (auto simp: in_update_where)
    then show ?thesis
      by cases (use none3 assms(3) in \<open>auto simp: trial_over_def\<close>)
  next
    case False
    then show ?thesis using none3 assms(2,3) unfolding d4 by simp
  qed
  moreover have "\<not> balance_over d3 r" if "Enabled p"
    using queueRuntimeStopsTX_none_left [of "balance_over d3"] that assms(2,3) unfolding d4 balance_over_def
    by (simp del: queueRuntimeStopsTX_frame)
  moreover have "access_ended (r_id r) d'"
    if i: "r_id r \<in> set (StoppedRuntimeIDs u)" and t: "TrimSpace (r_id r) = r_id r"
  proof -
    from i consider "r_id r \<in> stop_ids c (trial_over d2) d2"
      | "Enabled p" "r_id r \<in> stop_ids c (balance_over d3) d3"
      unfolding ids by (auto split: if_splits)
    then show ?thesis
    proof cases
      case 1
      then have "access_ended (r_id r) d3" unfolding d3 by (rule queueRuntimeStopsTX_ends) (rule t)
      then show ?thesis unfolding d4 by (simp add: queueRuntimeStopsTX_keeps)
    next
      case 2
      then show ?thesis unfolding d4 by (simp add: queueRuntimeStopsTX_ends t)
    qed
  qed
  ultimately show ?thesis by (auto simp: trial_over_def balance_over_def ent)
qed

subsection \<open>Passing again counts nothing twice\<close>

lemma meterDue_billed:
  assumes "du_now u = db_now c"
  shows "runtimes (db_of (meterDue c h u s)) = update_where (\<lambda>r. r_id r = du_runtimeID u)
      (\<lambda>r. r\<lparr>r_billed_through := Some (db_now c)\<rparr>) (runtimes (db_of s))"
  using assms by (cases s) (simp add: meterDue_db setBilledThrough_def addTrialSeconds_def)

lemma meterDues_billed:
  assumes "\<forall>u \<in> set us. du_now u = db_now c"
  shows "runtimes (db_of (fold (meterDue c h) us s)) = update_where (\<lambda>r. r_id r \<in> du_runtimeID ` set us)
      (\<lambda>r. r\<lparr>r_billed_through := Some (db_now c)\<rparr>) (runtimes (db_of s))"
  using assms
proof (induction us arbitrary: s)
  case Nil
  then show ?case by (simp add: update_where_id)
next
  case (Cons u us)
  then show ?case by (simp add: meterDue_billed) (simp add: update_where_def)
qed

lemma in_dues:
  "u \<in> set (dues c d) \<longleftrightarrow> (\<exists>r \<in> set (runtimes d). \<exists>e \<in> set (account_entitlements d).
     \<not> row_locked c (r_id r) \<and> metered e r \<and> u = due_of c r e)"
  unfolding dues_def by auto

lemma due_of_simps [simp]:
  "du_runtimeID (due_of c r e) = r_id r" "du_now (due_of c r e) = db_now c"
  by (simp_all add: due_of_def Let_def)

lemma metered_billed:
  assumes d1: "d1 = db_of (meterRuntimeTimeTX c h d)"
    and r: "r \<in> set (runtimes d1)" "\<not> row_locked c (r_id r)"
    and e: "e \<in> set (account_entitlements d1)" "metered e r"
  shows "r_billed_through r = Some (db_now c)"
proof -
  have now: "\<forall>u \<in> set (dues c d). du_now u = db_now c" by (auto simp: in_dues)
  have "runtimes d1 = update_where (\<lambda>r. r_id r \<in> du_runtimeID ` set (dues c d))
      (\<lambda>r. r\<lparr>r_billed_through := Some (db_now c)\<rparr>) (runtimes d)"
    unfolding d1 meterRuntimeTimeTX_def
    using meterDues_billed [of "dues c d" c h "(0, 0, d)"] now by simp
  with r(1) consider q where "q \<in> set (runtimes d)" "r = q\<lparr>r_billed_through := Some (db_now c)\<rparr>"
    | "r \<in> set (runtimes d)" "r_id r \<notin> du_runtimeID ` set (dues c d)"
    by (auto simp: in_update_where)
  then show ?thesis
  proof cases
    case 1
    then show ?thesis by simp
  next
    case 2
    have "map (\<lambda>e. (e_account_id e, e_source e)) (account_entitlements d1)
        = map (\<lambda>e. (e_account_id e, e_source e)) (account_entitlements d)"
      using meterRuntimeTimeTX_same [of d c h] unfolding d1 same_but_billing_def by blast
    moreover have "(e_account_id e, e_source e) \<in> set (map (\<lambda>e. (e_account_id e, e_source e)) (account_entitlements d1))"
      using e(1) by auto
    ultimately obtain e0 where "e0 \<in> set (account_entitlements d)"
        "e_account_id e0 = e_account_id e" "e_source e0 = e_source e"
      by auto
    moreover from this have "metered e0 r" using e(2) by (simp add: metered_def)
    ultimately have "due_of c r e0 \<in> set (dues c d)" using 2(1) r(2) in_dues by blast
    then have "r_id r \<in> du_runtimeID ` set (dues c d)" by (metis due_of_simps(1) image_eqI)
    with 2 show ?thesis by blast
  qed
qed

text \<open>No charge and no trial second is due on a row billed up to now.\<close>

definition nothing_due :: "ctx \<Rightarrow> db \<Rightarrow> bool" where
  "nothing_due c d \<longleftrightarrow> (\<forall>u \<in> set (dues c d). \<not> du_now u > du_since u)"

lemma meterDue_idle:
  "\<not> du_now u > du_since u \<Longrightarrow>
     meterDue c h u (n, t, d) = (n, t, setBilledThrough (du_runtimeID u) (du_now u) d)"
  by (simp add: meterDue_def)

lemma meterDues_idle:
  assumes "\<forall>u \<in> set us. \<not> du_now u > du_since u"
  shows "\<exists>d'. fold (meterDue c h) us (n, t, d) = (n, t, d') \<and> account_ledger d' = account_ledger d
     \<and> account_entitlements d' = account_entitlements d \<and> accounts d' = accounts d"
  using assms
proof (induction us arbitrary: d)
  case (Cons u us)
  have "\<exists>d'. fold (meterDue c h) us (n, t, setBilledThrough (du_runtimeID u) (du_now u) d) = (n, t, d')
     \<and> account_ledger d' = account_ledger (setBilledThrough (du_runtimeID u) (du_now u) d)
     \<and> account_entitlements d' = account_entitlements (setBilledThrough (du_runtimeID u) (du_now u) d)
     \<and> accounts d' = accounts (setBilledThrough (du_runtimeID u) (du_now u) d)"
    by (rule Cons.IH) (use Cons.prems in simp)
  then show ?case using Cons.prems by (simp add: meterDue_idle setBilledThrough_def)
qed simp

lemma nothing_due_after:
  assumes "MeterUsage c p d = Inr (u, d')"
  shows "nothing_due c d'"
  using assms
proof (rule MeterUsage_phases)
  fix d1 d2 d3
  assume d1: "d1 = db_of (meterRuntimeTimeTX c (RuntimeHourMicro p) d)"
    and d2: "if Enabled p then chargeStorageTX c (StorageGiBMonthMicro p) d1 = Inr (StorageCharges u, d2)
     else StorageCharges u = 0 \<and> d2 = d1"
    and d3: "d3 = snd (queueRuntimeStopsTX c (trial_over d2) ''trial runtime time used up''
            ''Runtime stop queued because the trial's hour of running time is used up.'' d2)"
    and d4: "d' = (if Enabled p then snd (queueRuntimeStopsTX c (balance_over d3) ''USDT balance used up''
            ''Runtime stop queued because the account's USDT balance is used up.'' d3) else d3)"
  have r2: "runtimes d2 = runtimes d1" "account_entitlements d2 = account_entitlements d1"
    using d2 chargeStorages_frame [of c "StorageGiBMonthMicro p" "storage_due c d1" "(0, d1)" "(StorageCharges u, d2)"]
    by (auto simp: chargeStorageTX_def split: if_splits)
  have ent: "account_entitlements d' = account_entitlements d1" unfolding d4 d3 by (simp add: r2)
  have rows: "r \<in> set (runtimes d1)" if "r \<in> set (runtimes d')" "r_desired_state r = ''running''" for r
  proof -
    from that have "r \<in> set (runtimes d3)" unfolding d4 by (auto simp: in_update_where split: if_splits)
    with that(2) show ?thesis unfolding d3 by (auto simp: in_update_where r2)
  qed
  have "db_now c \<le> du_since (due_of c r e)"
    if "r \<in> set (runtimes d')" "e \<in> set (account_entitlements d')" "\<not> row_locked c (r_id r)" "metered e r" for r e
  proof -
    have "r_billed_through r = Some (db_now c)"
      using metered_billed [OF d1 rows] that ent by (simp add: metered_def)
    then show ?thesis by (simp add: due_of_def Let_def)
  qed
  then show ?thesis unfolding nothing_due_def by (auto simp: in_dues leD)
qed

lemma storage_due_after:
  assumes "chargeStorageTX c g d1 = Inr (n, d2)" and "g > 0"
  shows "storage_due c d2 = []"
proof -
  have e: "efold (chargeAccountStorage c g) (storage_due c d1) (0, d1) = Inr (n, d2)"
    using assms by (simp add: chargeStorageTX_def)
  have acc: "accounts d2 = update_where (\<lambda>x. a_id x \<in> set (storage_due c d1))
      (\<lambda>x. x\<lparr>a_storage_billed_on := Some (day_of (db_now c))\<rparr>) (accounts d1)"
    using chargeStorages_billed [OF e] by simp
  have ent: "account_entitlements d2 = account_entitlements d1"
    using chargeStorages_frame [OF e] by simp
  show ?thesis
  proof (rule ccontr)
    assume "storage_due c d2 \<noteq> []"
    then obtain a en where a: "a \<in> set (accounts d2)" "\<not> row_locked c (a_id a)" "a_deleted_at a = None"
        "case a_storage_billed_on a of None \<Rightarrow> True | Some b \<Rightarrow> b < day_of (db_now c)"
      and en: "en \<in> set (account_entitlements d1)" "e_account_id en = a_id a" "e_source en = ''paid''"
      unfolding storage_due_def by (auto simp: ent filter_empty_conv)
    then have "a \<in> set (accounts d1)" "a_id a \<notin> set (storage_due c d1)"
      unfolding acc in_update_where by auto
    with a en show False unfolding storage_due_def by auto
  qed
qed

text \<open>
  C2. Metering twice at the same moment counts nothing twice: a second pass succeeds, records no
  charge and no trial second, and leaves the ledger and the entitlements as they are.
\<close>

theorem MeterUsage_twice:
  assumes "MeterUsage c p d = Inr (u, d')"
  shows "\<exists>u' d''. MeterUsage c p d' = Inr (u', d'') \<and> RuntimeCharges u' = 0 \<and> StorageCharges u' = 0
    \<and> TrialSeconds u' = 0 \<and> account_ledger d'' = account_ledger d'
    \<and> account_entitlements d'' = account_entitlements d'"
proof -
  let ?g = "StorageGiBMonthMicro p"
  obtain d1 where m: "meterRuntimeTimeTX c (RuntimeHourMicro p) d' = (0, 0, d1)"
      "account_ledger d1 = account_ledger d'" "account_entitlements d1 = account_entitlements d'"
      "accounts d1 = accounts d'"
    using meterDues_idle [of "dues c d'" c "RuntimeHourMicro p" 0 0 d'] nothing_due_after [OF assms]
    by (auto simp: meterRuntimeTimeTX_def nothing_due_def)
  have "storage_due c d' = []" if "Enabled p" "?g > 0"
    using assms
  proof (rule MeterUsage_phases)
    fix e1 e2 e3
    assume "if Enabled p then chargeStorageTX c ?g e1 = Inr (StorageCharges u, e2)
       else StorageCharges u = 0 \<and> e2 = e1"
      and e3: "e3 = snd (queueRuntimeStopsTX c (trial_over e2) ''trial runtime time used up''
            ''Runtime stop queued because the trial's hour of running time is used up.'' e2)"
      and e4: "d' = (if Enabled p then snd (queueRuntimeStopsTX c (balance_over e3) ''USDT balance used up''
            ''Runtime stop queued because the account's USDT balance is used up.'' e3) else e3)"
    then have "storage_due c e2 = []" using that storage_due_after by simp
    then show ?thesis unfolding e4 e3 storage_due_def by simp
  qed
  moreover have "storage_due c d1 = storage_due c d'" by (simp add: storage_due_def m)
  ultimately have "(if Enabled p then chargeStorageTX c ?g d1 else Inr (0, d1)) = Inr (0, d1)"
    by (simp add: chargeStorageTX_def)
  then show ?thesis
    unfolding MeterUsage_def m(1) prod.case by (simp add: Let_def split_beta m)
qed

section \<open>Witnesses\<close>

text \<open>
  The sample account has paid some millionths of a USDT and its runtime has been running for
  30 seconds, which cost 500 of them.
\<close>

definition sample_paid_with :: "int \<Rightarrow> db" where
  "sample_paid_with amount = sample_live\<lparr>account_entitlements := [sample_entitlement\<lparr>e_source := ''paid''\<rparr>],
     account_ledger := [\<lparr>l_account_id = ''a1'', l_kind = ''deposit'', l_amount_micro = amount,
        l_reference = ''tron:t1'', l_created_at = 0\<rparr>]\<rparr>"

definition pass_outcome :: "int \<Rightarrow> err + nat \<times> string list \<times> string list" where
  "pass_outcome amount = map_sum id (\<lambda>(u, d). (RuntimeCharges u, StoppedRuntimeIDs u, map r_id (runtimes d)))
     (MeterUsage sample_ctx sample_pricing (sample_paid_with amount))"

lemma pass_outcomes:
  "pass_outcome 1000 = Inr (1, [], [''r1''])" "pass_outcome 500 = Inr (1, [''r1''], [''r1''])"
  by code_simp+

lemma pass_outcomeD:
  assumes "pass_outcome amount = Inr (n, is, rs)"
  obtains u d' where "MeterUsage sample_ctx sample_pricing (sample_paid_with amount) = Inr (u, d')"
    "RuntimeCharges u = n" "StoppedRuntimeIDs u = is" "map r_id (runtimes d') = rs"
  using assms unfolding pass_outcome_def by (auto dest!: sample_run)

theorem MeterUsage_charges_exactly_witness:
  "\<exists>u d'. MeterUsage sample_ctx sample_pricing (sample_paid_with 1000) = Inr (u, d')
     \<and> ledger_wf (sample_paid_with 1000) \<and> balance_of ''a1'' (sample_paid_with 1000) = 1000
     \<and> balance_of ''a1'' d' = 500"
proof -
  obtain u d' where m: "MeterUsage sample_ctx sample_pricing (sample_paid_with 1000) = Inr (u, d')"
    using pass_outcomes(1) by (rule pass_outcomeD)
  have wf: "ledger_wf (sample_paid_with 1000)" by code_simp
  have "balance_of ''a1'' (sample_paid_with 1000) = 1000"
    "sum_list (map (\<lambda>x. if du_accountID x = ''a1'' then runtimeCharge (RuntimeHourMicro sample_pricing) x else 0)
       (dues sample_ctx (sample_paid_with 1000))) = 500"
    "sum_list (map (\<lambda>x. if x = ''a1'' then storageCharge sample_ctx (StorageGiBMonthMicro sample_pricing) x
       (sample_paid_with 1000) else 0) (storage_due sample_ctx (sample_paid_with 1000))) = 0"
    by code_simp+
  with MeterUsage_charges_exactly [OF m wf, of "''a1''"] m wf show ?thesis by simp
qed

theorem MeterUsage_stops_used_up_witness:
  "\<exists>u d' r. MeterUsage sample_ctx sample_pricing (sample_paid_with 500) = Inr (u, d')
     \<and> r \<in> set (runtimes d') \<and> r_id r = ''r1'' \<and> ''r1'' \<in> set (StoppedRuntimeIDs u)
     \<and> \<not> balance_over d' r \<and> access_ended ''r1'' d'"
proof -
  obtain u d' where m: "MeterUsage sample_ctx sample_pricing (sample_paid_with 500) = Inr (u, d')"
      and ids: "StoppedRuntimeIDs u = [''r1'']" and rs: "map r_id (runtimes d') = [''r1'']"
    using pass_outcomes(2) by (rule pass_outcomeD)
  from rs obtain r where r: "r \<in> set (runtimes d')" "r_id r = ''r1''" by auto
  have t: "TrimSpace ''r1'' = ''r1''" "\<not> row_locked sample_ctx ''r1''" "Enabled sample_pricing" by code_simp+
  from MeterUsage_stops_used_up [OF m r(1)] r ids t m show ?thesis by auto
qed

theorem MeterUsage_twice_witness:
  "\<exists>u d' u' d''. MeterUsage sample_ctx sample_pricing (sample_paid_with 1000) = Inr (u, d')
     \<and> RuntimeCharges u = 1 \<and> MeterUsage sample_ctx sample_pricing d' = Inr (u', d'')
     \<and> RuntimeCharges u' = 0 \<and> account_ledger d'' = account_ledger d'"
proof -
  obtain u d' where m: "MeterUsage sample_ctx sample_pricing (sample_paid_with 1000) = Inr (u, d')"
      and n: "RuntimeCharges u = 1"
    using pass_outcomes(1) by (rule pass_outcomeD)
  with MeterUsage_twice [OF m] show ?thesis by blast
qed

end
