(* ===== verification/Wallet.thy ===== *)
theory Wallet
  imports Billing
begin

text \<open>
  Deposits and wallets (\<open>internal/store/wallet.go\<close>): deposit indexes, the list of addresses the
  payments service watches, and crediting a confirmed transfer.
\<close>

definition PaidRuntimeLimit :: int where "PaidRuntimeLimit = 10"
definition PaidRuntimeStartsPerDay :: int where "PaidRuntimeStartsPerDay = 1000"
definition PaidStorageBytesLimit :: int where "PaidStorageBytesLimit = 68719476736"

record wallet =
  DepositIndex :: int
  BalanceMicro :: int
  Plan :: string
  TrialSecondsLeft :: int
  Deposits :: "usdt_deposit list"
  Entries :: "ledger_entry list"

text \<open>
  The update of \<open>AccountWallet\<close>: \<open>COALESCE\<close> evaluates \<open>nextval\<close> only for an account that has no
  index yet.
\<close>

definition openWallet :: "ctx \<Rightarrow> string \<Rightarrow> int tx" where
  "openWallet c accountID d =
     (case find (\<lambda>a. a_id a = accountID \<and> a_deleted_at a = None) (accounts d) of
        None \<Rightarrow> Inl ErrAccountNotFound
      | Some a \<Rightarrow>
          (let fresh = (a_deposit_index a = None);
               index = coalesce (a_deposit_index a) (deposit_index_seq d)
           in Inr (index, d\<lparr>accounts := update_where (\<lambda>x. a_id x = accountID \<and> a_deleted_at x = None)
                  (\<lambda>x. x\<lparr>a_deposit_index := Some index, a_wallet_viewed_at := Some (db_now c)\<rparr>) (accounts d),
                deposit_index_seq := (if fresh then deposit_index_seq d + 1 else deposit_index_seq d)\<rparr>)))"

definition AccountWallet :: "ctx \<Rightarrow> string \<Rightarrow> wallet tx" where
  "AccountWallet c accountID0 d =
     (let accountID = TrimSpace accountID0 in
      ebind (openWallet c accountID d) (\<lambda>(index, d1).
        let entitlement = find (\<lambda>e. e_account_id e = accountID) (account_entitlements d1);
            plan = (case entitlement of None \<Rightarrow> ''none'' | Some e \<Rightarrow> e_source e);
            left = (case entitlement of None \<Rightarrow> 0
                    | Some e \<Rightarrow> max (e_trial_runtime_seconds e - e_trial_runtime_seconds_used e) 0)
        in Inr (\<lparr>DepositIndex = index,
                 BalanceMicro = sum_list (map l_amount_micro
                   (filter (\<lambda>l. l_account_id l = accountID) (account_ledger d1))),
                 Plan = plan,
                 TrialSecondsLeft = (if plan \<noteq> ''trial'' then 0 else left),
                 Deposits = take 20 (rev (sort_key d_block_time
                   (filter (\<lambda>x. d_account_id x = accountID) (usdt_deposits d1)))),
                 Entries = take 50 (rev (filter (\<lambda>l. l_account_id l = accountID) (account_ledger d1)))\<rparr>,
                d1)))"

text \<open>
  \<open>ORDER BY wallet_viewed_at DESC NULLS LAST, deposit_index LIMIT n\<close>: sorted by index first, then
  (the sort is stable) by when the wallet was viewed.
\<close>

definition watch_key :: "account \<Rightarrow> bool \<times> int" where
  "watch_key a = (a_wallet_viewed_at a = None, - coalesce (a_wallet_viewed_at a) 0)"

fun insert_watch :: "account \<Rightarrow> account list \<Rightarrow> account list" where
  "insert_watch a [] = [a]"
| "insert_watch a (b # bs) =
     (let ka = watch_key a; kb = watch_key b; earlier =
        (fst ka < fst kb \<or> (fst ka = fst kb \<and> snd ka < snd kb)
         \<or> (ka = kb \<and> coalesce (a_deposit_index a) 0 \<le> coalesce (a_deposit_index b) 0))
      in if earlier then a # b # bs else b # insert_watch a bs)"

definition DepositWatchList :: "int \<Rightarrow> db \<Rightarrow> (int \<times> time option) list" where
  "DepositWatchList limit d =
     map (\<lambda>a. (coalesce (a_deposit_index a) 0, a_wallet_viewed_at a))
       (take (nat (max limit 1))
         (foldr insert_watch (filter (\<lambda>a. a_deposit_index a \<noteq> None \<and> a_deleted_at a = None) (accounts d)) []))"

record DepositCredit =
  TxID :: string
  Address :: string
  Index :: int
  AmountMicro :: int
  BlockTime :: time

text \<open>The check \<open>tx_id ~ '^[0-9a-f]{64}$'\<close> of the deposits table.\<close>

definition hex_digit :: "char \<Rightarrow> bool" where
  "hex_digit ch \<longleftrightarrow> is_digit ch \<or> ((97::nat) \<le> of_char ch \<and> of_char ch \<le> (102::nat))"

definition valid_tx_id :: "string \<Rightarrow> bool" where
  "valid_tx_id s \<longleftrightarrow> length s = 64 \<and> list_all hex_digit s"

definition switchToPaid :: "ctx \<Rightarrow> string \<Rightarrow> db \<Rightarrow> db" where
  "switchToPaid c accountID d =
     (let switched = (\<lambda>e. e_account_id e = accountID \<and> e_source e = ''trial'');
          d1 = d\<lparr>account_entitlements := update_where switched
                  (\<lambda>e. e\<lparr>e_source := ''paid'', e_expires_at := None,
                         e_runtime_limit := max (e_runtime_limit e) PaidRuntimeLimit,
                         e_runtime_starts_per_day := max (e_runtime_starts_per_day e) PaidRuntimeStartsPerDay,
                         e_storage_bytes_limit := max (e_storage_bytes_limit e) PaidStorageBytesLimit,
                         e_updated_at := db_now c\<rparr>) (account_entitlements d)\<rparr>
      in if \<exists>e \<in> set (account_entitlements d). switched e
         then d1\<lparr>runtimes := update_where
                  (\<lambda>r. r_account_id r = accountID \<and> r_started_at r \<noteq> None \<and> r_deleted_at r = None)
                  (\<lambda>r. r\<lparr>r_billed_through := Some (db_now c)\<rparr>) (runtimes d)\<rparr>
         else d1)"

definition CreditDeposit :: "ctx \<Rightarrow> DepositCredit \<Rightarrow> bool tx" where
  "CreditDeposit c deposit d =
     (if AmountMicro deposit \<le> 0 then Inl (ErrMsg ''deposit amount must be positive'')
      else case find (\<lambda>a. a_deposit_index a = Some (Index deposit) \<and> a_deleted_at a = None) (accounts d) of
        None \<Rightarrow> Inl ErrDepositAccountNotFound
      | Some a \<Rightarrow>
          (let accountID = a_id a; txID = ToLower (TxID deposit) in
           if \<not> valid_tx_id txID then Inl (ErrConstraint ''usdt_deposits_tx_id_check'')
           else if \<exists>x \<in> set (usdt_deposits d). d_tx_id x = txID \<and> d_address x = Address deposit
           then Inr (False, d)
           else Inr (True, switchToPaid c accountID
             (d\<lparr>usdt_deposits := usdt_deposits d
                  @ [\<lparr>d_tx_id = txID, d_address = Address deposit, d_account_id = accountID,
                      d_amount_micro = AmountMicro deposit, d_block_time = BlockTime deposit,
                      d_credited_at = db_now c\<rparr>],
                account_ledger := account_ledger d
                  @ [\<lparr>l_account_id = accountID, l_kind = ''deposit'', l_amount_micro = AmountMicro deposit,
                      l_reference = ''tron:'' @ txID, l_created_at = db_now c\<rparr>]\<rparr>))))"

section \<open>Deposit indexes\<close>

text \<open>
  Accounts have distinct ids and distinct deposit indexes (\<open>deposit_index\<close> is unique), all of them
  below the sequence's next value.
\<close>

definition indexes_wf :: "db \<Rightarrow> bool" where
  "indexes_wf d \<longleftrightarrow> distinct (map a_id (accounts d))
     \<and> unique_where (\<lambda>a. a_deposit_index a \<noteq> None) a_deposit_index (accounts d)
     \<and> (\<forall>a \<in> set (accounts d). \<forall>i. a_deposit_index a = Some i \<longrightarrow> i < deposit_index_seq d)"

text \<open>Each row of a table keeps its index and id, in place: what \<open>openWallet\<close> changes is one row.\<close>

lemma openWallet_cases:
  assumes "openWallet c i d = Inr (n, d')"
  obtains a where "a \<in> set (accounts d)" "a_id a = i" "a_deleted_at a = None"
    "n = coalesce (a_deposit_index a) (deposit_index_seq d)"
    "accounts d' = update_where (\<lambda>x. a_id x = i \<and> a_deleted_at x = None)
       (\<lambda>x. x\<lparr>a_deposit_index := Some n, a_wallet_viewed_at := Some (db_now c)\<rparr>) (accounts d)"
    "deposit_index_seq d' = (if a_deposit_index a = None then deposit_index_seq d + 1 else deposit_index_seq d)"
    "account_ledger d' = account_ledger d" "account_entitlements d' = account_entitlements d"
    "usdt_deposits d' = usdt_deposits d"
  using assms unfolding openWallet_def
  by (auto simp: Let_def split: option.splits dest!: find_SomeD)

lemma openWallet_row:
  assumes "indexes_wf d" "openWallet c i d = Inr (n, d')" "x \<in> set (accounts d)"
    and "a_id x = i" "a_deleted_at x = None"
  shows "a_deposit_index x = None \<and> n = deposit_index_seq d \<and> deposit_index_seq d' = deposit_index_seq d + 1
       \<or> a_deposit_index x = Some n \<and> deposit_index_seq d' = deposit_index_seq d"
  using assms(2)
proof (rule openWallet_cases)
  fix a assume a: "a \<in> set (accounts d)" "a_id a = i"
    and n: "n = coalesce (a_deposit_index a) (deposit_index_seq d)"
      "deposit_index_seq d' = (if a_deposit_index a = None then deposit_index_seq d + 1 else deposit_index_seq d)"
  have "x = a"
    using assms(1,3,4) a key_eq_row [of a_id "accounts d" x a] by (simp add: indexes_wf_def)
  with n show ?thesis by (cases "a_deposit_index a") auto
qed

lemma openWallet_indexes:
  assumes wf: "indexes_wf d" and op: "openWallet c i d = Inr (n, d')"
  shows "indexes_wf d'"
  using op
proof (rule openWallet_cases)
  fix a
  assume a: "a \<in> set (accounts d)" "a_id a = i" "a_deleted_at a = None"
    and acc: "accounts d' = update_where (\<lambda>x. a_id x = i \<and> a_deleted_at x = None)
       (\<lambda>x. x\<lparr>a_deposit_index := Some n, a_wallet_viewed_at := Some (db_now c)\<rparr>) (accounts d)"
  note row = openWallet_row [OF wf op a]
  have lt: "j < deposit_index_seq d" if "x \<in> set (accounts d)" "a_deposit_index x = Some j" for x j
    using wf that by (auto simp: indexes_wf_def)
  have new: "a_deposit_index q \<noteq> Some n" if "q \<in> set (accounts d)" "\<not> (a_id q = i \<and> a_deleted_at q = None)" for q
  proof
    assume q: "a_deposit_index q = Some n"
    with row lt [OF that(1) q] have "a_deposit_index a = Some n" by auto
    with q that(1) a(1) wf have "q = a"
      using unique_whereD [of "\<lambda>a. a_deposit_index a \<noteq> None" a_deposit_index "accounts d" q a]
      by (simp add: indexes_wf_def)
    with that(2) a show False by simp
  qed
  have "unique_where (\<lambda>a. a_deposit_index a \<noteq> None) a_deposit_index (accounts d')"
    unfolding acc using wf new
    by (intro unique_where_set_key [where pk = a_id and i = i]) (auto simp: indexes_wf_def)
  moreover have "distinct (map a_id (accounts d'))"
    unfolding acc using wf by (simp add: indexes_wf_def distinct_map_update_where)
  moreover have "\<forall>x \<in> set (accounts d'). \<forall>j. a_deposit_index x = Some j \<longrightarrow> j < deposit_index_seq d'"
    unfolding acc ball_update_where using row lt a(1) by fastforce
  ultimately show ?thesis by (simp add: indexes_wf_def)
qed

text \<open>
  Deposit indexes are permanent and never shared: opening a wallet keeps all accounts' indexes
  distinct, keeps every index already given, and shows the account its own index.
\<close>

theorem AccountWallet_index:
  assumes "indexes_wf d" and "AccountWallet c accountID d = Inr (w, d')"
  shows "indexes_wf d'
    \<and> (\<forall>x \<in> set (accounts d). \<forall>i. a_deposit_index x = Some i \<longrightarrow>
         (\<exists>y \<in> set (accounts d'). a_id y = a_id x \<and> a_deposit_index y = Some i))
    \<and> (\<exists>y \<in> set (accounts d'). a_id y = TrimSpace accountID \<and> a_deposit_index y = Some (DepositIndex w))"
proof -
  let ?i = "TrimSpace accountID"
  obtain n where op: "openWallet c ?i d = Inr (n, d')" and w: "DepositIndex w = n"
    using assms(2) unfolding AccountWallet_def Let_def by (auto simp: res_simps)
  from op obtain a where a: "a \<in> set (accounts d)" "a_id a = ?i" "a_deleted_at a = None"
    and acc: "accounts d' = update_where (\<lambda>x. a_id x = ?i \<and> a_deleted_at x = None)
       (\<lambda>x. x\<lparr>a_deposit_index := Some n, a_wallet_viewed_at := Some (db_now c)\<rparr>) (accounts d)"
    by (rule openWallet_cases)
  have keep: "\<exists>y \<in> set (accounts d'). a_id y = a_id x \<and> a_deposit_index y = Some i"
    if x: "x \<in> set (accounts d)" "a_deposit_index x = Some i" for x i
  proof (cases "a_id x = ?i \<and> a_deleted_at x = None")
    case True
    with openWallet_row [OF assms(1) op x(1)] x(2) have "i = n" by auto
    with True x show ?thesis unfolding acc bex_update_where by (intro bexI [of _ x]) auto
  next
    case False
    with x show ?thesis unfolding acc bex_update_where by (intro bexI [of _ x]) auto
  qed
  have "\<exists>y \<in> set (accounts d'). a_id y = ?i \<and> a_deposit_index y = Some n"
    unfolding acc bex_update_where using a by auto
  with keep openWallet_indexes [OF assms(1) op] w show ?thesis by blast
qed

theorem AccountWallet_index_witness:
  "indexes_wf sample_db \<and> (\<exists>w d'. AccountWallet sample_ctx '' a1 '' sample_db = Inr (w, d')
     \<and> DepositIndex w = 7 \<and> indexes_wf d')"
proof -
  have wf: "indexes_wf sample_db" by (simp add: indexes_wf_def unique_where_def sample_defs)
  have "map_sum id (\<lambda>(w, d). DepositIndex w) (AccountWallet sample_ctx '' a1 '' sample_db) = Inr 7" by code_simp
  then obtain w d' where w: "AccountWallet sample_ctx '' a1 '' sample_db = Inr (w, d')" "DepositIndex w = 7"
    by (auto dest!: sample_run)
  from AccountWallet_index [OF wf w(1)] wf w show ?thesis by blast
qed

section \<open>Crediting deposits\<close>

lemma switchToPaid_frame [simp]:
  "account_ledger (switchToPaid c a d) = account_ledger d"
  "usdt_deposits (switchToPaid c a d) = usdt_deposits d"
  "accounts (switchToPaid c a d) = accounts d"
  "sessions (switchToPaid c a d) = sessions d"
  by (simp_all add: switchToPaid_def Let_def)

lemma ToLower_idem [simp]: "ToLower (ToLower s) = ToLower s"
proof -
  have "lower_char (lower_char ch) = lower_char ch" for ch
    unfolding lower_char_def Let_def by (simp add: of_char_of)
  then show ?thesis by (simp add: ToLower_def)
qed

text \<open>The deposits an account's ledger holds, and those the chain reported for it.\<close>

definition ledger_deposits :: "string \<Rightarrow> db \<Rightarrow> int" where
  "ledger_deposits a d = sum_list (map l_amount_micro
     (filter (\<lambda>l. l_account_id l = a \<and> l_kind l = ''deposit'') (account_ledger d)))"

definition chain_deposits :: "string \<Rightarrow> db \<Rightarrow> int" where
  "chain_deposits a d = sum_list (map d_amount_micro (filter (\<lambda>x. d_account_id x = a) (usdt_deposits d)))"

definition deposits_wf :: "db \<Rightarrow> bool" where
  "deposits_wf d \<longleftrightarrow> distinct (map (\<lambda>x. (d_tx_id x, d_address x)) (usdt_deposits d))
     \<and> (\<forall>x \<in> set (usdt_deposits d). 0 < d_amount_micro x)"

definition deposits_booked :: "db \<Rightarrow> bool" where
  "deposits_booked d \<longleftrightarrow> (\<forall>a. ledger_deposits a d = chain_deposits a d)"

lemma CreditDeposit_cases:
  assumes "CreditDeposit c dep d = Inr (b, d')"
  obtains (again) "b = False" "d' = d" "\<exists>x \<in> set (usdt_deposits d). d_tx_id x = ToLower (TxID dep) \<and> d_address x = Address dep"
  | (credited) a where "b = True" "a \<in> set (accounts d)" "a_deposit_index a = Some (Index dep)"
      "a_deleted_at a = None" "0 < AmountMicro dep" "valid_tx_id (ToLower (TxID dep))"
      "\<forall>x \<in> set (usdt_deposits d). (d_tx_id x, d_address x) \<noteq> (ToLower (TxID dep), Address dep)"
      "d' = switchToPaid c (a_id a)
             (d\<lparr>usdt_deposits := usdt_deposits d
                  @ [\<lparr>d_tx_id = ToLower (TxID dep), d_address = Address dep, d_account_id = a_id a,
                      d_amount_micro = AmountMicro dep, d_block_time = BlockTime dep,
                      d_credited_at = db_now c\<rparr>],
                account_ledger := account_ledger d
                  @ [\<lparr>l_account_id = a_id a, l_kind = ''deposit'', l_amount_micro = AmountMicro dep,
                      l_reference = ''tron:'' @ ToLower (TxID dep), l_created_at = db_now c\<rparr>]\<rparr>)"
proof -
  have amt: "0 < AmountMicro dep"
    using assms by (simp add: CreditDeposit_def split: if_splits)
  obtain a where a: "find (\<lambda>a. a_deposit_index a = Some (Index dep) \<and> a_deleted_at a = None) (accounts d) = Some a"
    using assms amt by (cases "find (\<lambda>a. a_deposit_index a = Some (Index dep) \<and> a_deleted_at a = None) (accounts d)")
      (simp_all add: CreditDeposit_def)
  have v: "valid_tx_id (ToLower (TxID dep))"
    using assms amt a by (simp add: CreditDeposit_def Let_def split: if_splits)
  show thesis
  proof (cases "\<exists>x \<in> set (usdt_deposits d). d_tx_id x = ToLower (TxID dep) \<and> d_address x = Address dep")
    case True
    moreover from assms True have "b = False" "d' = d"
      using amt a v by (simp_all add: CreditDeposit_def Let_def)
    ultimately show ?thesis using again by simp
  next
    case False
    have "a \<in> set (accounts d)" "a_deposit_index a = Some (Index dep)" "a_deleted_at a = None"
      using find_SomeD [OF a] by simp_all
    moreover have "\<forall>x \<in> set (usdt_deposits d). (d_tx_id x, d_address x) \<noteq> (ToLower (TxID dep), Address dep)"
      using False by simp
    ultimately show ?thesis
      using assms amt a v False unfolding CreditDeposit_def Let_def
      by (intro credited [of a]) (simp_all split: if_splits)
  qed
qed

text \<open>
  C4. A transfer is credited once and in full: when it is credited, the balance of the account
  that owns the deposit index rises by exactly its amount and no other balance changes; and from
  then on reporting the same transfer again, in any letter case of its transaction id, is
  answered with false and changes nothing.
\<close>

theorem CreditDeposit_once:
  assumes "CreditDeposit c dep d = Inr (True, d')"
  shows "(\<exists>a \<in> set (accounts d). a_deposit_index a = Some (Index dep) \<and> a_deleted_at a = None
       \<and> (\<forall>i. balance_of i d' = balance_of i d + (if i = a_id a then AmountMicro dep else 0)))
    \<and> (\<forall>c' dep'. ToLower (TxID dep') = ToLower (TxID dep) \<and> Address dep' = Address dep
         \<and> Index dep' = Index dep \<and> 0 < AmountMicro dep' \<longrightarrow> CreditDeposit c' dep' d' = Inr (False, d'))"
  using assms
proof (cases rule: CreditDeposit_cases)
  case (credited a)
  have "find (\<lambda>a. a_deposit_index a = Some (Index dep) \<and> a_deleted_at a = None) (accounts d) \<noteq> None"
    using credited(2,3,4) by (auto simp: find_None_iff)
  then obtain b where b: "find (\<lambda>a. a_deposit_index a = Some (Index dep) \<and> a_deleted_at a = None) (accounts d) = Some b"
    by blast
  have bal: "balance_of i d' = balance_of i d + (if i = a_id a then AmountMicro dep else 0)" for i
    by (simp add: credited(8) balance_of_def)
  have "CreditDeposit c' dep' d' = Inr (False, d')"
    if "ToLower (TxID dep') = ToLower (TxID dep)" "Address dep' = Address dep" "Index dep' = Index dep"
      "0 < AmountMicro dep'" for c' dep'
    using that b credited(6) unfolding CreditDeposit_def credited(8) by (simp add: Let_def)
  with bal credited(2,3,4) show ?thesis by blast
qed simp

text \<open>
  C5. Every deposit in a ledger is a transfer the chain reported: crediting keeps each transfer
  recorded once with a positive amount, and keeps each account's ledger deposits equal to the
  sum of its recorded transfers.
\<close>

theorem CreditDeposit_booked:
  assumes "deposits_wf d" "deposits_booked d" and "CreditDeposit c dep d = Inr (b, d')"
  shows "deposits_wf d' \<and> deposits_booked d'"
  using assms(3)
proof (cases rule: CreditDeposit_cases)
  case again
  with assms show ?thesis by simp
next
  case (credited a)
  have "deposits_wf d'"
    using assms(1) credited(5,7) by (auto simp: deposits_wf_def credited(8))
  moreover have "ledger_deposits i d' = ledger_deposits i d + (if i = a_id a then AmountMicro dep else 0)"
    "chain_deposits i d' = chain_deposits i d + (if i = a_id a then AmountMicro dep else 0)" for i
    by (auto simp: ledger_deposits_def chain_deposits_def credited(8))
  ultimately show ?thesis using assms(2) by (simp add: deposits_booked_def)
qed

text \<open>A sample transfer to the sample account's deposit index.\<close>

definition sample_deposit :: DepositCredit where
  "sample_deposit = \<lparr>TxID = replicate 64 (CHR ''A''), Address = ''T1'', Index = 7,
     AmountMicro = 5000000, BlockTime = 0\<rparr>"

lemma sample_credit: "\<exists>d'. CreditDeposit sample_ctx sample_deposit sample_live = Inr (True, d')"
proof -
  have "map_sum id fst (CreditDeposit sample_ctx sample_deposit sample_live) = Inr True" by code_simp
  then show ?thesis by (auto dest!: sample_run)
qed

theorem CreditDeposit_once_witness:
  "\<exists>d'. CreditDeposit sample_ctx sample_deposit sample_live = Inr (True, d')
     \<and> balance_of ''a1'' d' = balance_of ''a1'' sample_live + 5000000
     \<and> CreditDeposit sample_ctx sample_deposit d' = Inr (False, d')"
proof -
  obtain d' where d: "CreditDeposit sample_ctx sample_deposit sample_live = Inr (True, d')"
    using sample_credit by blast
  have v: "AmountMicro sample_deposit = 5000000" by (simp add: sample_deposit_def)
  have ids: "\<forall>a \<in> set (accounts sample_live). a_id a = ''a1''" by code_simp
  from CreditDeposit_once [OF d] ids v d show ?thesis by auto
qed

theorem CreditDeposit_booked_witness:
  "\<exists>d'. CreditDeposit sample_ctx sample_deposit sample_live = Inr (True, d')
     \<and> deposits_wf sample_live \<and> deposits_booked sample_live \<and> deposits_booked d'"
proof -
  obtain d' where d: "CreditDeposit sample_ctx sample_deposit sample_live = Inr (True, d')"
    using sample_credit by blast
  have wf: "deposits_wf sample_live" "deposits_booked sample_live"
    by (simp_all add: deposits_wf_def deposits_booked_def ledger_deposits_def chain_deposits_def sample_defs)
  from CreditDeposit_booked [OF wf d] wf d show ?thesis by blast
qed

end
