(* ===== verification/Entitlement.thy ===== *)
theory Entitlement
  imports Billing
begin

text \<open>
  What an account may do: the entitlement and quota checks of \<open>internal/store/store.go\<close> made when
  a runtime is created, started or viewed, the summary the app shows of them, and the codes the
  HTTP API gives their errors. The main result is that the summary and the check agree.
\<close>

section \<open>The checks\<close>

definition accountEntitlementTX :: "string \<Rightarrow> db \<Rightarrow> account_entitlement res" where
  "accountEntitlementTX accountID d =
     of_row ErrRuntimeEntitlement (find (\<lambda>e. e_account_id e = accountID) (account_entitlements d))"

definition entitlementActive :: "ctx \<Rightarrow> account_entitlement \<Rightarrow> bool" where
  "entitlementActive c e \<longleftrightarrow> TrimSpace (e_status e) = ''active''
     \<and> (case e_expires_at e of None \<Rightarrow> True | Some t \<Rightarrow> t > go_now c)"

definition owned_runtime :: "string \<Rightarrow> runtime \<Rightarrow> bool" where
  "owned_runtime accountID r \<longleftrightarrow>
     r_account_id r = accountID \<and> r_deleted_at r = None \<and> r_desired_state r \<noteq> ''deleted''"

definition active_runtime :: "string \<Rightarrow> runtime \<Rightarrow> bool" where
  "active_runtime accountID r \<longleftrightarrow>
     r_account_id r = accountID \<and> r_deleted_at r = None \<and> r_desired_state r = ''running''"

definition starts_today :: "ctx \<Rightarrow> string \<Rightarrow> db \<Rightarrow> int" where
  "starts_today c accountID d =
     int (count_where (\<lambda>v. v_account_id v = accountID \<and> v_created_at v \<ge> db_now c - 24 * hour)
       (runtime_start_events d))"

definition ensureRuntimeCreateEntitlementTX :: "ctx \<Rightarrow> string \<Rightarrow> db \<Rightarrow> unit res" where
  "ensureRuntimeCreateEntitlementTX c accountID d =
     ebind (accountEntitlementTX accountID d) (\<lambda>e.
       if \<not> entitlementActive c e then Inl ErrRuntimeEntitlement
       else if e_runtime_limit e \<le> 0 then Inl ErrRuntimeQuota
       else let runtimeCount = int (count_where (owned_runtime accountID) (runtimes d))
            in if runtimeCount \<ge> e_runtime_limit e then Inl ErrRuntimeQuota else Inr ())"

definition trialRuntimeSecondsUsed :: "string \<Rightarrow> db \<Rightarrow> int" where
  "trialRuntimeSecondsUsed accountID d =
     (case find (\<lambda>e. e_account_id e = TrimSpace accountID) (account_entitlements d) of
        None \<Rightarrow> 0 | Some e \<Rightarrow> e_trial_runtime_seconds_used e)"

definition trialRuntimeTimeExhausted :: "account_entitlement \<Rightarrow> int \<Rightarrow> bool" where
  "trialRuntimeTimeExhausted e used \<longleftrightarrow> EqualFold (TrimSpace (e_source e)) ''trial''
     \<and> (e_trial_runtime_seconds e \<le> 0 \<or> used \<ge> e_trial_runtime_seconds e)"

definition ensureRuntimeStartEntitlementTX :: "ctx \<Rightarrow> pricing \<Rightarrow> string \<Rightarrow> string \<Rightarrow> db \<Rightarrow> unit res" where
  "ensureRuntimeStartEntitlementTX c p accountID runtimeID d =
     ebind (accountEntitlementTX accountID d) (\<lambda>e.
       if \<not> entitlementActive c e then Inl ErrRuntimeEntitlement
       else if e_active_runtime_limit e \<le> 0 then Inl ErrRuntimeActiveQuota
       else let activeRuntimeCount =
              int (count_where (\<lambda>r. active_runtime accountID r \<and> r_id r \<noteq> runtimeID) (runtimes d))
         in if activeRuntimeCount \<ge> e_active_runtime_limit e then Inl ErrRuntimeActiveQuota
            else if e_runtime_starts_per_day e \<le> 0 then Inl ErrRuntimeStartQuota
            else if starts_today c accountID d \<ge> e_runtime_starts_per_day e then Inl ErrRuntimeStartQuota
            else if trialRuntimeTimeExhausted e (trialRuntimeSecondsUsed accountID d)
            then Inl ErrRuntimeTrialTimeQuota
            else paidBalanceCheck p accountID (e_source e) (MinimumStartMicro p) d)"

definition ensureSessionTimeAvailable :: "pricing \<Rightarrow> string \<Rightarrow> db \<Rightarrow> unit res" where
  "ensureSessionTimeAvailable p accountID d =
     (case find (\<lambda>e. e_account_id e = TrimSpace accountID) (account_entitlements d) of
        None \<Rightarrow> Inl ErrRuntimeEntitlement
      | Some e \<Rightarrow>
          if \<not> EqualFold (TrimSpace (e_source e)) ''trial''
          then paidBalanceCheck p accountID (e_source e) 1 d
          else let used = trialRuntimeSecondsUsed accountID d
               in if e_trial_runtime_seconds e \<le> 0 \<or> used \<ge> e_trial_runtime_seconds e
                  then Inl ErrRuntimeTrialTimeQuota else Inr ())"

section \<open>The summary\<close>

record AccountEntitlementSummary =
  es_AccountID :: string
  es_Source :: string
  es_Status :: string
  es_RuntimeLimit :: int
  es_RuntimeCount :: int
  es_RuntimeRemaining :: int
  es_ActiveRuntimeLimit :: int
  es_ActiveRuntimeCount :: int
  es_ActiveRuntimeRemaining :: int
  es_RuntimeStartsPerDay :: int
  es_RuntimeStartsUsedToday :: int
  es_RuntimeStartsRemainingToday :: int
  es_StorageBytesLimit :: int
  es_StorageBytesUsed :: int
  es_StorageBytesRemaining :: int
  es_TrialRuntimeSeconds :: int
  es_TrialRuntimeSecondsUsed :: int
  es_TrialRuntimeSecondsRemaining :: int
  es_ExpiresAt :: "time option"
  es_BalanceMicro :: "int option"
  es_MinimumStartBalanceMicro :: "int option"
  CanCreateRuntime :: bool
  CanStartRuntime :: bool
  CreateRuntimeBlockedCode :: string
  CreateRuntimeBlockedReason :: string
  StartRuntimeBlockedCode :: string
  StartRuntimeBlockedReason :: string

definition blockCreate :: "string \<Rightarrow> string \<Rightarrow> AccountEntitlementSummary \<Rightarrow> AccountEntitlementSummary" where
  "blockCreate code reason s =
     (let s1 = s\<lparr>CanCreateRuntime := False\<rparr>
      in if CreateRuntimeBlockedCode s = []
         then s1\<lparr>CreateRuntimeBlockedCode := code, CreateRuntimeBlockedReason := reason\<rparr> else s1)"

definition blockStart :: "string \<Rightarrow> string \<Rightarrow> AccountEntitlementSummary \<Rightarrow> AccountEntitlementSummary" where
  "blockStart code reason s =
     (let s1 = s\<lparr>CanStartRuntime := False\<rparr>
      in if StartRuntimeBlockedCode s = []
         then s1\<lparr>StartRuntimeBlockedCode := code, StartRuntimeBlockedReason := reason\<rparr> else s1)"

definition RuntimeEntitlementRequiredCode :: string where
  "RuntimeEntitlementRequiredCode = ''runtime_entitlement_required''"

definition RuntimeQuotaExceededCode :: string where
  "RuntimeQuotaExceededCode = ''runtime_quota_exceeded''"

definition ActiveRuntimeQuotaExceededCode :: string where
  "ActiveRuntimeQuotaExceededCode = ''active_runtime_quota_exceeded''"

definition RuntimeStartQuotaExceededCode :: string where
  "RuntimeStartQuotaExceededCode = ''runtime_start_quota_exceeded''"

definition RuntimeTrialTimeExceededCode :: string where
  "RuntimeTrialTimeExceededCode = ''runtime_trial_time_exceeded''"

definition RuntimeBalanceInsufficientCode :: string where
  "RuntimeBalanceInsufficientCode = ''runtime_balance_insufficient''"

definition new_summary :: "string \<Rightarrow> AccountEntitlementSummary" where
  "new_summary accountID = \<lparr>es_AccountID = accountID, es_Source = [], es_Status = [],
     es_RuntimeLimit = 0, es_RuntimeCount = 0, es_RuntimeRemaining = 0, es_ActiveRuntimeLimit = 0,
     es_ActiveRuntimeCount = 0, es_ActiveRuntimeRemaining = 0, es_RuntimeStartsPerDay = 0,
     es_RuntimeStartsUsedToday = 0, es_RuntimeStartsRemainingToday = 0, es_StorageBytesLimit = 0,
     es_StorageBytesUsed = 0, es_StorageBytesRemaining = 0, es_TrialRuntimeSeconds = 0,
     es_TrialRuntimeSecondsUsed = 0, es_TrialRuntimeSecondsRemaining = 0, es_ExpiresAt = None,
     es_BalanceMicro = None, es_MinimumStartBalanceMicro = None, CanCreateRuntime = False,
     CanStartRuntime = False, CreateRuntimeBlockedCode = [], CreateRuntimeBlockedReason = [],
     StartRuntimeBlockedCode = [], StartRuntimeBlockedReason = []\<rparr>"

definition missingEntitlementSummary :: "string \<Rightarrow> AccountEntitlementSummary" where
  "missingEntitlementSummary accountID =
     blockStart RuntimeEntitlementRequiredCode ''runtime entitlement is required''
       (blockCreate RuntimeEntitlementRequiredCode ''runtime entitlement is required''
         ((new_summary accountID)\<lparr>es_Source := ''none'', es_Status := ''missing''\<rparr>))"

definition remaining :: "int \<Rightarrow> int \<Rightarrow> int" where
  "remaining limit used = (let value = limit - used in if value < 0 then 0 else value)"

text \<open>The summary before any block: the limits, what is used and what is left.\<close>

definition usageSummary :: "ctx \<Rightarrow> account_entitlement \<Rightarrow> string \<Rightarrow> int \<Rightarrow> db \<Rightarrow> AccountEntitlementSummary" where
  "usageSummary c e accountID storageBytesUsed d =
     (let runtimeCount = int (count_where (owned_runtime accountID) (runtimes d));
          activeRuntimeCount = int (count_where (active_runtime accountID) (runtimes d));
          startsToday = starts_today c accountID d;
          trialSecondsUsed = trialRuntimeSecondsUsed accountID d
      in (new_summary (e_account_id e))\<lparr>es_Source := e_source e, es_Status := e_status e,
           es_RuntimeLimit := e_runtime_limit e, es_ActiveRuntimeLimit := e_active_runtime_limit e,
           es_RuntimeStartsPerDay := e_runtime_starts_per_day e,
           es_StorageBytesLimit := e_storage_bytes_limit e,
           es_TrialRuntimeSeconds := e_trial_runtime_seconds e, es_ExpiresAt := e_expires_at e,
           CanCreateRuntime := True, CanStartRuntime := True,
           es_RuntimeCount := runtimeCount, es_ActiveRuntimeCount := activeRuntimeCount,
           es_RuntimeStartsUsedToday := startsToday,
           es_TrialRuntimeSecondsUsed := trialSecondsUsed,
           es_TrialRuntimeSecondsRemaining := remaining (e_trial_runtime_seconds e) trialSecondsUsed,
           es_StorageBytesUsed := storageBytesUsed,
           es_StorageBytesRemaining := remaining (e_storage_bytes_limit e) storageBytesUsed,
           es_RuntimeRemaining := remaining (e_runtime_limit e) runtimeCount,
           es_ActiveRuntimeRemaining := remaining (e_active_runtime_limit e) activeRuntimeCount,
           es_RuntimeStartsRemainingToday := remaining (e_runtime_starts_per_day e) startsToday\<rparr>)"

text \<open>The blocks, in the order the code adds them.\<close>

definition blockUsage :: "account_entitlement \<Rightarrow> AccountEntitlementSummary \<Rightarrow> AccountEntitlementSummary" where
  "blockUsage e s0 =
     (let s1 = (if es_RuntimeLimit s0 \<le> 0 \<or> es_RuntimeCount s0 \<ge> es_RuntimeLimit s0
                then blockCreate RuntimeQuotaExceededCode ''runtime quota exceeded'' s0 else s0);
          s2 = (if es_ActiveRuntimeLimit s1 \<le> 0 \<or> es_ActiveRuntimeCount s1 \<ge> es_ActiveRuntimeLimit s1
                then blockStart ActiveRuntimeQuotaExceededCode ''active runtime quota exceeded'' s1 else s1);
          s3 = (if es_RuntimeStartsPerDay s2 \<le> 0 \<or> es_RuntimeStartsUsedToday s2 \<ge> es_RuntimeStartsPerDay s2
                then blockStart RuntimeStartQuotaExceededCode ''runtime start quota exceeded'' s2 else s2)
      in if trialRuntimeTimeExhausted e (es_TrialRuntimeSecondsUsed s3)
         then blockStart RuntimeTrialTimeExceededCode ''trial runtime time quota exceeded'' s3 else s3)"

definition blockBalance :: "pricing \<Rightarrow> account_entitlement \<Rightarrow> string \<Rightarrow> db
    \<Rightarrow> AccountEntitlementSummary \<Rightarrow> AccountEntitlementSummary" where
  "blockBalance p e accountID d s =
     (if EqualFold (TrimSpace (e_source e)) ''paid''
      then let s1 = s\<lparr>es_BalanceMicro := Some (accountBalance accountID d)\<rparr>
           in if Enabled p
              then let minimum = MinimumStartMicro p;
                       s2 = s1\<lparr>es_MinimumStartBalanceMicro := Some minimum\<rparr>
                   in if paidBalanceCheck p accountID (e_source e) minimum d \<noteq> Inr ()
                      then blockStart RuntimeBalanceInsufficientCode ''the account's USDT balance is too low'' s2
                      else s2
              else s1
      else s)"

definition GetAccountEntitlementSummary :: "ctx \<Rightarrow> pricing \<Rightarrow> string \<Rightarrow> db \<Rightarrow> AccountEntitlementSummary res" where
  "GetAccountEntitlementSummary c p accountID0 d =
     (let accountID = TrimSpace accountID0 in
      if accountID = [] then Inl (ErrMsg ''account id is required'')
      else case find (\<lambda>e. e_account_id e = accountID) (account_entitlements d) of
        None \<Rightarrow> Inr (missingEntitlementSummary accountID)
      | Some e \<Rightarrow>
          ebind (accountStorageBytesUsed c accountID d) (\<lambda>storageBytesUsed.
            let s = usageSummary c e accountID storageBytesUsed d
            in if \<not> entitlementActive c e
               then Inr (blockStart RuntimeEntitlementRequiredCode ''runtime entitlement is required''
                      (blockCreate RuntimeEntitlementRequiredCode ''runtime entitlement is required'' s))
               else Inr (blockBalance p e accountID d (blockUsage e s))))"

section \<open>The API's codes\<close>

text \<open>The HTTP status and code the API answers a failed runtime request with.\<close>

definition writeRuntimeMutationError :: "err \<Rightarrow> int \<times> string" where
  "writeRuntimeMutationError e =
     (case e of
        ErrAppSelection m \<Rightarrow> (400, ''app_selection_invalid'')
      | ErrRuntimeNotFound \<Rightarrow> (404, ''runtime_not_found'')
      | ErrNoReadyHost \<Rightarrow> (409, ''no_ready_host'')
      | ErrRuntimeBlobOwner \<Rightarrow> (409, ''runtime_blob_owner_unknown'')
      | ErrRuntimeCleanupPending \<Rightarrow> (409, ''runtime_cleanup_pending'')
      | ErrRuntimeNotReady \<Rightarrow> (409, ''runtime_not_ready'')
      | ErrRuntimeMediaSettingsActive \<Rightarrow> (409, ''runtime_media_settings_active'')
      | ErrRuntimeEntitlement \<Rightarrow> (402, RuntimeEntitlementRequiredCode)
      | ErrRuntimeQuota \<Rightarrow> (409, RuntimeQuotaExceededCode)
      | ErrRuntimeActiveQuota \<Rightarrow> (409, ActiveRuntimeQuotaExceededCode)
      | ErrRuntimeStartQuota \<Rightarrow> (429, RuntimeStartQuotaExceededCode)
      | ErrRuntimeTrialTimeQuota \<Rightarrow> (402, RuntimeTrialTimeExceededCode)
      | ErrRuntimeBalance \<Rightarrow> (402, RuntimeBalanceInsufficientCode)
      | ErrRuntimeProfile \<Rightarrow> (400, ''runtime_profile_not_allowed'')
      | ErrRuntimeIdleTimeout \<Rightarrow> (400, ''runtime_idle_timeout_invalid'')
      | ErrRuntimeEgressActive \<Rightarrow> (409, ''runtime_egress_active'')
      | ErrRuntimeEgressMode \<Rightarrow> (400, ''runtime_egress_mode_invalid'')
      | ErrRuntimeRegion \<Rightarrow> (400, ''runtime_region_invalid'')
      | _ \<Rightarrow> (500, ''runtime_mutation_failed''))"

section \<open>The summary tells the truth\<close>

lemma block_simps [simp]:
  "CanStartRuntime (blockStart code reason s) = False"
  "CanStartRuntime (blockCreate code reason s) = CanStartRuntime s"
  "StartRuntimeBlockedCode (blockStart code reason s) =
     (if StartRuntimeBlockedCode s = [] then code else StartRuntimeBlockedCode s)"
  "StartRuntimeBlockedCode (blockCreate code reason s) = StartRuntimeBlockedCode s"
  "CanCreateRuntime (blockCreate code reason s) = False"
  "CanCreateRuntime (blockStart code reason s) = CanCreateRuntime s"
  "CreateRuntimeBlockedCode (blockCreate code reason s) =
     (if CreateRuntimeBlockedCode s = [] then code else CreateRuntimeBlockedCode s)"
  "CreateRuntimeBlockedCode (blockStart code reason s) = CreateRuntimeBlockedCode s"
  by (simp_all add: blockStart_def blockCreate_def Let_def)

lemma block_usage_fields [simp]:
  "es_ActiveRuntimeLimit (blockCreate code reason s) = es_ActiveRuntimeLimit s"
  "es_ActiveRuntimeCount (blockCreate code reason s) = es_ActiveRuntimeCount s"
  "es_RuntimeStartsPerDay (blockCreate code reason s) = es_RuntimeStartsPerDay s"
  "es_RuntimeStartsUsedToday (blockCreate code reason s) = es_RuntimeStartsUsedToday s"
  "es_TrialRuntimeSecondsUsed (blockCreate code reason s) = es_TrialRuntimeSecondsUsed s"
  "es_RuntimeStartsPerDay (blockStart code reason s) = es_RuntimeStartsPerDay s"
  "es_RuntimeStartsUsedToday (blockStart code reason s) = es_RuntimeStartsUsedToday s"
  "es_TrialRuntimeSecondsUsed (blockStart code reason s) = es_TrialRuntimeSecondsUsed s"
  by (simp_all add: blockStart_def blockCreate_def Let_def)

lemmas summary_codes = RuntimeEntitlementRequiredCode_def RuntimeQuotaExceededCode_def
  ActiveRuntimeQuotaExceededCode_def RuntimeStartQuotaExceededCode_def RuntimeTrialTimeExceededCode_def
  RuntimeBalanceInsufficientCode_def

text \<open>The first block of the start checks wins, as the first failing check does.\<close>

definition start_block :: "account_entitlement \<Rightarrow> AccountEntitlementSummary \<Rightarrow> string" where
  "start_block e s =
     (if es_ActiveRuntimeLimit s \<le> 0 \<or> es_ActiveRuntimeCount s \<ge> es_ActiveRuntimeLimit s
      then ActiveRuntimeQuotaExceededCode
      else if es_RuntimeStartsPerDay s \<le> 0 \<or> es_RuntimeStartsUsedToday s \<ge> es_RuntimeStartsPerDay s
      then RuntimeStartQuotaExceededCode
      else if trialRuntimeTimeExhausted e (es_TrialRuntimeSecondsUsed s) then RuntimeTrialTimeExceededCode
      else [])"

lemma blockUsage_start:
  assumes "CanStartRuntime s" and "StartRuntimeBlockedCode s = []"
  shows "StartRuntimeBlockedCode (blockUsage e s) = start_block e s"
    and "CanStartRuntime (blockUsage e s) \<longleftrightarrow> start_block e s = []"
  using assms by (auto simp: blockUsage_def start_block_def Let_def summary_codes)

lemma blockBalance_start:
  "StartRuntimeBlockedCode (blockBalance p e a d s) =
     (if StartRuntimeBlockedCode s = [] \<and> paidBalanceCheck p a (e_source e) (MinimumStartMicro p) d \<noteq> Inr ()
      then RuntimeBalanceInsufficientCode else StartRuntimeBlockedCode s)"
  "CanStartRuntime (blockBalance p e a d s) \<longleftrightarrow>
     CanStartRuntime s \<and> paidBalanceCheck p a (e_source e) (MinimumStartMicro p) d = Inr ()"
  by (auto simp: blockBalance_def Let_def paidBalanceCheck_def)

lemma paidBalanceCheck_Inl: "paidBalanceCheck p a src mn d = Inl err \<Longrightarrow> err = ErrRuntimeBalance"
  by (auto simp: paidBalanceCheck_def Let_def split: if_splits)

lemma usageSummary_start [simp]:
  "CanStartRuntime (usageSummary c e a n d)" "StartRuntimeBlockedCode (usageSummary c e a n d) = []"
  "CanCreateRuntime (usageSummary c e a n d)" "CreateRuntimeBlockedCode (usageSummary c e a n d) = []"
  "es_RuntimeLimit (usageSummary c e a n d) = e_runtime_limit e"
  "es_RuntimeCount (usageSummary c e a n d) = int (count_where (owned_runtime a) (runtimes d))"
  "es_ActiveRuntimeLimit (usageSummary c e a n d) = e_active_runtime_limit e"
  "es_ActiveRuntimeCount (usageSummary c e a n d) = int (count_where (active_runtime a) (runtimes d))"
  "es_RuntimeStartsPerDay (usageSummary c e a n d) = e_runtime_starts_per_day e"
  "es_RuntimeStartsUsedToday (usageSummary c e a n d) = starts_today c a d"
  "es_TrialRuntimeSecondsUsed (usageSummary c e a n d) = trialRuntimeSecondsUsed a d"
  by (simp_all add: usageSummary_def new_summary_def Let_def)

text \<open>What the check and the summary have in common: whether, and with which code, a start is refused.\<close>

definition refusal_code :: "unit res \<Rightarrow> string" where
  "refusal_code r = (case r of Inr _ \<Rightarrow> [] | Inl e \<Rightarrow> snd (writeRuntimeMutationError e))"

lemma ensureRuntimeStart_code:
  assumes "accountEntitlementTX a d = Inr e" and "entitlementActive c e"
    and "\<forall>r \<in> set (runtimes d). active_runtime a r \<longrightarrow> r_id r \<noteq> rid"
  shows "refusal_code (ensureRuntimeStartEntitlementTX c p a rid d) =
    (if start_block e (usageSummary c e a n d) \<noteq> [] then start_block e (usageSummary c e a n d)
     else refusal_code (paidBalanceCheck p a (e_source e) (MinimumStartMicro p) d))"
proof -
  have "count_where (\<lambda>r. active_runtime a r \<and> r_id r \<noteq> rid) (runtimes d)
      = count_where (active_runtime a) (runtimes d)"
    using assms(3) by (intro count_where_cong) auto
  with assms(1,2) show ?thesis
    by (simp add: ensureRuntimeStartEntitlementTX_def start_block_def refusal_code_def Let_def
        writeRuntimeMutationError_def summary_codes)
qed

lemma refusal_code_paid:
  "refusal_code (paidBalanceCheck p a src mn d) =
     (if paidBalanceCheck p a src mn d = Inr () then [] else RuntimeBalanceInsufficientCode)"
  using paidBalanceCheck_Inl [of p a src mn d]
  by (cases "paidBalanceCheck p a src mn d") (auto simp: refusal_code_def writeRuntimeMutationError_def)

lemma GetAccountEntitlementSummary_found:
  assumes "GetAccountEntitlementSummary c p a d = Inr s" and "TrimSpace a = a"
    and "find (\<lambda>e. e_account_id e = a) (account_entitlements d) = Some e"
  obtains n where "s = (if \<not> entitlementActive c e
         then blockStart RuntimeEntitlementRequiredCode ''runtime entitlement is required''
                (blockCreate RuntimeEntitlementRequiredCode ''runtime entitlement is required'' (usageSummary c e a n d))
         else blockBalance p e a d (blockUsage e (usageSummary c e a n d)))"
proof (cases "a = []")
  case False
  with assms obtain n where "(if \<not> entitlementActive c e
         then Inr (blockStart RuntimeEntitlementRequiredCode ''runtime entitlement is required''
                (blockCreate RuntimeEntitlementRequiredCode ''runtime entitlement is required'' (usageSummary c e a n d)))
         else Inr (blockBalance p e a d (blockUsage e (usageSummary c e a n d)))) = (Inr s :: AccountEntitlementSummary res)"
    by (auto simp: GetAccountEntitlementSummary_def ebind_eq_Inr Let_def simp del: if_split)
  then show ?thesis by (intro that [of n]) (simp split: if_splits)
qed (use assms in \<open>simp add: GetAccountEntitlementSummary_def\<close>)

text \<open>
  C15. The summary the app shows is the check it will meet: for a runtime that is not already meant to
  run, the summary says a start is possible exactly when the start check passes, and otherwise names
  the code the API will refuse the start with.
\<close>

theorem GetAccountEntitlementSummary_start:
  assumes "GetAccountEntitlementSummary c p a d = Inr s" and "TrimSpace a = a"
    and "\<forall>r \<in> set (runtimes d). r_account_id r = a \<and> r_deleted_at r = None \<and> r_id r = rid
           \<longrightarrow> r_desired_state r \<noteq> ''running''"
  shows "(CanStartRuntime s \<longleftrightarrow> ensureRuntimeStartEntitlementTX c p a rid d = Inr ())
    \<and> StartRuntimeBlockedCode s = refusal_code (ensureRuntimeStartEntitlementTX c p a rid d)"
proof (cases "find (\<lambda>e. e_account_id e = a) (account_entitlements d)")
  case None
  with assms(1,2) show ?thesis
    by (auto simp: GetAccountEntitlementSummary_def missingEntitlementSummary_def new_summary_def
        ensureRuntimeStartEntitlementTX_def accountEntitlementTX_def refusal_code_def
        writeRuntimeMutationError_def summary_codes split: if_splits)
next
  case (Some e)
  then have e: "accountEntitlementTX a d = Inr e" by (simp add: accountEntitlementTX_def)
  from assms(1,2) Some obtain n where
    s: "s = (if \<not> entitlementActive c e
         then blockStart RuntimeEntitlementRequiredCode ''runtime entitlement is required''
                (blockCreate RuntimeEntitlementRequiredCode ''runtime entitlement is required'' (usageSummary c e a n d))
         else blockBalance p e a d (blockUsage e (usageSummary c e a n d)))"
    by (rule GetAccountEntitlementSummary_found)
  have no_active: "\<forall>r \<in> set (runtimes d). active_runtime a r \<longrightarrow> r_id r \<noteq> rid"
    using assms(3) by (auto simp: active_runtime_def)
  show ?thesis
  proof (cases "entitlementActive c e")
    case False
    with s e show ?thesis
      by (simp add: ensureRuntimeStartEntitlementTX_def refusal_code_def writeRuntimeMutationError_def summary_codes)
  next
    case True
    let ?u = "usageSummary c e a n d"
    let ?check = "ensureRuntimeStartEntitlementTX c p a rid d"
    have code: "StartRuntimeBlockedCode s = refusal_code ?check"
      using ensureRuntimeStart_code [OF e True no_active, of p n] True s
      by (simp add: blockBalance_start blockUsage_start refusal_code_paid)
    have "CanStartRuntime s \<longleftrightarrow> StartRuntimeBlockedCode s = []"
      using True s by (auto simp: blockBalance_start blockUsage_start summary_codes)
    moreover have "refusal_code ?check = [] \<longleftrightarrow> ?check = Inr ()"
      by (auto simp: refusal_code_def writeRuntimeMutationError_def summary_codes
          split: sum.splits err.splits)
    ultimately show ?thesis using code by simp
  qed
qed

theorem GetAccountEntitlementSummary_start_witness:
  "\<exists>s. GetAccountEntitlementSummary sample_ctx sample_pricing ''a1'' sample_db = Inr s
     \<and> CanStartRuntime s
     \<and> ensureRuntimeStartEntitlementTX sample_ctx sample_pricing ''a1'' ''r1'' sample_db = Inr ()"
proof -
  have "map_sum id CanStartRuntime (GetAccountEntitlementSummary sample_ctx sample_pricing ''a1'' sample_db) = Inr True"
    by code_simp
  then obtain s where s: "GetAccountEntitlementSummary sample_ctx sample_pricing ''a1'' sample_db = Inr s"
      "CanStartRuntime s" by (auto dest: sample_run)
  have t: "TrimSpace ''a1'' = ''a1''" by code_simp
  have n: "\<forall>r \<in> set (runtimes sample_db). r_account_id r = ''a1'' \<and> r_deleted_at r = None \<and> r_id r = ''r1''
           \<longrightarrow> r_desired_state r \<noteq> ''running''" by (simp add: sample_defs)
  show ?thesis using GetAccountEntitlementSummary_start [OF s(1) t n] s by blast
qed

text \<open>
  The summary is as honest about creating: it says a runtime can be created exactly when the
  create check passes.
\<close>

theorem GetAccountEntitlementSummary_create:
  assumes "GetAccountEntitlementSummary c p a d = Inr s" and "TrimSpace a = a"
  shows "(CanCreateRuntime s \<longleftrightarrow> ensureRuntimeCreateEntitlementTX c a d = Inr ())
    \<and> CreateRuntimeBlockedCode s = refusal_code (ensureRuntimeCreateEntitlementTX c a d)"
proof (cases "find (\<lambda>e. e_account_id e = a) (account_entitlements d)")
  case None
  with assms show ?thesis
    by (auto simp: GetAccountEntitlementSummary_def missingEntitlementSummary_def new_summary_def
        ensureRuntimeCreateEntitlementTX_def accountEntitlementTX_def refusal_code_def
        writeRuntimeMutationError_def summary_codes split: if_splits)
next
  case (Some e)
  then have e: "accountEntitlementTX a d = Inr e" by (simp add: accountEntitlementTX_def)
  have balance: "CanCreateRuntime (blockBalance p e a d u) = CanCreateRuntime u"
    "CreateRuntimeBlockedCode (blockBalance p e a d u) = CreateRuntimeBlockedCode u" for u
    by (simp_all add: blockBalance_def Let_def)
  from assms Some obtain n where
    s: "s = (if \<not> entitlementActive c e
         then blockStart RuntimeEntitlementRequiredCode ''runtime entitlement is required''
                (blockCreate RuntimeEntitlementRequiredCode ''runtime entitlement is required'' (usageSummary c e a n d))
         else blockBalance p e a d (blockUsage e (usageSummary c e a n d)))"
    by (rule GetAccountEntitlementSummary_found)
  then show ?thesis using e
    by (simp add: balance ensureRuntimeCreateEntitlementTX_def refusal_code_def blockUsage_def
        writeRuntimeMutationError_def summary_codes Let_def)
qed

theorem GetAccountEntitlementSummary_create_witness:
  "\<exists>s. GetAccountEntitlementSummary sample_ctx sample_pricing ''a1'' sample_db = Inr s
     \<and> CanCreateRuntime s \<and> ensureRuntimeCreateEntitlementTX sample_ctx ''a1'' sample_db = Inr ()"
proof -
  have "map_sum id CanCreateRuntime (GetAccountEntitlementSummary sample_ctx sample_pricing ''a1'' sample_db) = Inr True"
    by code_simp
  then obtain s where s: "GetAccountEntitlementSummary sample_ctx sample_pricing ''a1'' sample_db = Inr s"
      "CanCreateRuntime s" by (auto dest: sample_run)
  have t: "TrimSpace ''a1'' = ''a1''" by code_simp
  show ?thesis using GetAccountEntitlementSummary_create [OF s(1) t] s by blast
qed

end
