(* ===== verification/Profile.thy ===== *)
theory Profile
  imports Entitlement
begin

text \<open>
  The profile of a runtime: the normalisation and validation of what a client asks for when it
  creates a runtime or changes its settings (\<open>internal/store/store.go\<close>, \<open>runtime_idle.go\<close>), the
  selection of catalog apps (\<open>app_selections.go\<close>), and the two operations themselves. Every profile
  these operations leave in the database is one the nodes support.
\<close>

section \<open>Text\<close>

fun nat_digits :: "nat \<Rightarrow> string" where
  "nat_digits n = (if n < 10 then [char_of (48 + n)] else nat_digits (n div 10) @ [char_of (48 + n mod 10)])"

declare nat_digits.simps [simp del]

definition show_int :: "int \<Rightarrow> string" where
  "show_int i = (if i < 0 then ''-'' @ nat_digits (nat (- i)) else nat_digits (nat i))"

definition normalizeChoice :: "string \<Rightarrow> string \<Rightarrow> string list \<Rightarrow> string" where
  "normalizeChoice value0 fallback allowed =
     (let value = ToLower (TrimSpace value0) in if value \<in> set allowed then value else fallback)"

definition normalizeEgressMode :: "string \<Rightarrow> string res" where
  "normalizeEgressMode value =
     (let mode = ToLower (TrimSpace value) in
      if mode = [] then Inr ''direct''
      else if mode = ''direct'' \<or> mode = ''tor'' then Inr mode
      else Inl ErrRuntimeEgressMode)"

section \<open>Sealed regions\<close>

text \<open>
  \<open>base64.RawURLEncoding.DecodeString\<close>: the URL alphabet without padding, line breaks skipped, the
  unused low bits of the last group ignored.
\<close>

definition base64_value :: "char \<Rightarrow> nat option" where
  "base64_value ch =
     (let n = of_char ch in
      if 65 \<le> n \<and> n \<le> 90 then Some (n - 65)
      else if 97 \<le> n \<and> n \<le> 122 then Some (n - 97 + 26)
      else if 48 \<le> n \<and> n \<le> 57 then Some (n - 48 + 52)
      else if n = 45 then Some 62
      else if n = 95 then Some 63
      else None)"

fun base64_values :: "string \<Rightarrow> nat list option" where
  "base64_values [] = Some []"
| "base64_values (ch # s) =
     (case base64_value ch of None \<Rightarrow> None
      | Some v \<Rightarrow> (case base64_values s of None \<Rightarrow> None | Some vs \<Rightarrow> Some (v # vs)))"

fun base64_bytes :: "nat list \<Rightarrow> string option" where
  "base64_bytes (a # b # c # e # vs) =
     (case base64_bytes vs of None \<Rightarrow> None
      | Some s \<Rightarrow> Some (char_of (a * 4 + b div 16) # char_of ((b mod 16) * 16 + c div 4)
                       # char_of ((c mod 4) * 64 + e) # s))"
| "base64_bytes [a, b, c] = Some [char_of (a * 4 + b div 16), char_of ((b mod 16) * 16 + c div 4)]"
| "base64_bytes [a, b] = Some [char_of (a * 4 + b div 16)]"
| "base64_bytes [a] = None"
| "base64_bytes [] = Some []"

definition base64_decode :: "string \<Rightarrow> string option" where
  "base64_decode s =
     (case base64_values (filter (\<lambda>ch. ch \<noteq> CHR 0x0A \<and> ch \<noteq> CHR 0x0D) s) of
        None \<Rightarrow> None | Some vs \<Rightarrow> base64_bytes vs)"

definition sealedRegionMagic :: string where
  "sealedRegionMagic = ''VRTREG1'' @ [CHR 0x0A]"

definition maxSealedRegionBytes :: int where
  "maxSealedRegionBytes = 2048"

text \<open>\<open>RawURLEncoding.EncodedLen\<close>.\<close>

definition encodedLen :: "int \<Rightarrow> int" where
  "encodedLen n = n div 3 * 4 + (n mod 3 * 8 + 5) div 6"

definition validRegionSealed :: "string \<Rightarrow> bool" where
  "validRegionSealed value \<longleftrightarrow>
     \<not> int (length value) > encodedLen maxSealedRegionBytes
     \<and> (case base64_decode value of
          None \<Rightarrow> False
        | Some bytes \<Rightarrow> length bytes \<ge> length sealedRegionMagic + 12 + 16
            \<and> take (length sealedRegionMagic) bytes = sealedRegionMagic)"

section \<open>Profiles\<close>

definition defaultAndroidImage :: string where
  "defaultAndroidImage = ''redroid/redroid:14.0.0_64only-latest''"

definition runtimeAndroidImages :: "string \<Rightarrow> string option" where
  "runtimeAndroidImages version =
     (if version = ''android-14'' then Some defaultAndroidImage
      else if version = ''android-16'' then Some ''redroid/redroid:16.0.0_64only-250627''
      else None)"

definition defaultRuntimeAndroidVersion :: string where
  "defaultRuntimeAndroidVersion = ''android-14''"

definition deployedAndroidVersion :: "string \<Rightarrow> string" where
  "deployedAndroidVersion runtimeAndroidVersion =
     (if runtimeAndroidVersion = [] then defaultRuntimeAndroidVersion else runtimeAndroidVersion)"

definition RuntimeIdleTimeouts :: "int list" where
  "RuntimeIdleTimeouts = [30 * 60, 60 * 60, 3 * 60 * 60, 6 * 60 * 60, 8 * 60 * 60, 12 * 60 * 60,
     24 * 60 * 60, 3 * 24 * 60 * 60, 7 * 24 * 60 * 60]"

definition DefaultRuntimeIdleTimeout :: int where
  "DefaultRuntimeIdleTimeout = 30 * 60"

definition validRuntimeIdleTimeout :: "int \<Rightarrow> bool" where
  "validRuntimeIdleTimeout seconds \<longleftrightarrow> seconds \<in> set RuntimeIdleTimeouts"

record CreateRuntimeInput =
  cr_Name :: string
  cr_AndroidImage :: string
  cr_AndroidVersion :: string
  cr_WidthPx :: int
  cr_HeightPx :: int
  cr_DensityDpi :: int
  cr_AudioEnabled :: bool
  cr_AudioEnabledSet :: bool
  cr_CameraMode :: string
  cr_FileMode :: string
  cr_BlobAutoSnapshot :: bool
  cr_BlobRetainDays :: int
  cr_AppPackages :: "string list"
  cr_IdleTimeoutSeconds :: int
  cr_EgressMode :: string

definition validateClientAndroidImage :: "string \<Rightarrow> unit res" where
  "validateClientAndroidImage image0 =
     (let image = TrimSpace image0 in
      if image = [] then Inr ()
      else if runtimeAndroidImages ''android-14'' = Some image \<or> runtimeAndroidImages ''android-16'' = Some image
      then Inr () else Inl ErrRuntimeProfile)"

definition validateClientAndroidVersion :: "string \<Rightarrow> unit res" where
  "validateClientAndroidVersion version0 =
     (let version = TrimSpace version0 in
      if version = [] then Inr ()
      else if runtimeAndroidImages version = None then Inl ErrRuntimeProfile else Inr ())"

definition validateRuntimeProfile :: "CreateRuntimeInput \<Rightarrow> unit res" where
  "validateRuntimeProfile i =
     (if runtimeAndroidImages (cr_AndroidVersion i) = None then Inl ErrRuntimeProfile
      else if cr_WidthPx i < 480 \<or> cr_WidthPx i > 1600 then Inl ErrRuntimeProfile
      else if cr_HeightPx i < 480 \<or> cr_HeightPx i > 1600 then Inl ErrRuntimeProfile
      else if cr_WidthPx i mod 8 \<noteq> 0 \<or> cr_HeightPx i mod 8 \<noteq> 0 then Inl ErrRuntimeProfile
      else if cr_DensityDpi i < 240 \<or> cr_DensityDpi i > 640 \<or> cr_DensityDpi i mod 20 \<noteq> 0
      then Inl ErrRuntimeProfile
      else if cr_CameraMode i \<noteq> ''disabled'' \<and> cr_CameraMode i \<noteq> ''photo-import'' then Inl ErrRuntimeProfile
      else if cr_FileMode i \<noteq> ''upload-only'' then Inl ErrRuntimeProfile
      else Inr ())"

text \<open>The defaults of what the client left out, once its requests are checked.\<close>

definition fillCreateDefaults :: "string \<Rightarrow> string \<Rightarrow> CreateRuntimeInput \<Rightarrow> CreateRuntimeInput" where
  "fillCreateDefaults androidVersion egressMode i =
     i\<lparr>cr_EgressMode := egressMode, cr_AndroidVersion := androidVersion,
       cr_AndroidImage := (case runtimeAndroidImages androidVersion of None \<Rightarrow> [] | Some im \<Rightarrow> im),
       cr_WidthPx := (if cr_WidthPx i \<le> 0 then 720 else cr_WidthPx i),
       cr_HeightPx := (if cr_HeightPx i \<le> 0 then 1600 else cr_HeightPx i),
       cr_DensityDpi := (if cr_DensityDpi i \<le> 0 then 320 else cr_DensityDpi i),
       cr_AudioEnabled := (if cr_AudioEnabledSet i then cr_AudioEnabled i else True),
       cr_CameraMode := normalizeChoice (cr_CameraMode i) ''photo-import'' [''disabled'', ''photo-import''],
       cr_FileMode := normalizeChoice (cr_FileMode i) ''upload-only''
         [''upload-only'', ''download-only'', ''bidirectional''],
       cr_BlobAutoSnapshot := True,
       cr_BlobRetainDays := (if cr_BlobRetainDays i \<le> 0 then 7 else cr_BlobRetainDays i)\<rparr>"

definition normalizedCreateInput :: "CreateRuntimeInput \<Rightarrow> string \<Rightarrow> CreateRuntimeInput res" where
  "normalizedCreateInput input androidVersion =
     (let i1 = (if TrimSpace (cr_Name input) = [] then input\<lparr>cr_Name := ''My runtime''\<rparr> else input);
          i2 = (if cr_IdleTimeoutSeconds i1 = 0
                then i1\<lparr>cr_IdleTimeoutSeconds := DefaultRuntimeIdleTimeout\<rparr> else i1)
      in if \<not> validRuntimeIdleTimeout (cr_IdleTimeoutSeconds i2) then Inl ErrRuntimeIdleTimeout
         else ebind (normalizeEgressMode (cr_EgressMode i2)) (\<lambda>egressMode.
              ebind (validateClientAndroidImage (cr_AndroidImage i2)) (\<lambda>_.
              ebind (validateClientAndroidVersion (cr_AndroidVersion i2)) (\<lambda>_.
              let i3 = fillCreateDefaults androidVersion egressMode i2
              in ebind (validateRuntimeProfile i3) (\<lambda>_. Inr i3)))))"

section \<open>App selections\<close>

definition maxRuntimeAppSelections :: int where
  "maxRuntimeAppSelections = 32"

definition package_char :: "char \<Rightarrow> bool" where
  "package_char ch \<longleftrightarrow> (let n = of_char ch :: nat in
     (97 \<le> n \<and> n \<le> 122) \<or> (65 \<le> n \<and> n \<le> 90) \<or> (48 \<le> n \<and> n \<le> 57)) \<or> ch = CHR ''.'' \<or> ch = CHR ''_''"

fun normalizeAppPackages :: "string list \<Rightarrow> string list \<Rightarrow> string list res" where
  "normalizeAppPackages [] normalized = Inr normalized"
| "normalizeAppPackages (packageName # rest) normalized =
     (let value = TrimSpace packageName in
      if value = [] then normalizeAppPackages rest normalized
      else if int (length value) > 200 then Inl (ErrMsg ''app package name is too long'')
      else if \<not> list_all package_char value
      then Inl (ErrMsg (''app package name contains unsupported characters: '' @ value))
      else if value \<in> set normalized then normalizeAppPackages rest normalized
      else normalizeAppPackages rest (normalized @ [value]))"

definition normalizeAppPackageSelections :: "string list \<Rightarrow> string list res" where
  "normalizeAppPackageSelections packageNames =
     (if int (length packageNames) > 50 then Inl (ErrMsg ''too many app selections'')
      else normalizeAppPackages packageNames [])"

definition catalog_enabled :: "db \<Rightarrow> string \<Rightarrow> bool" where
  "catalog_enabled d packageName \<longleftrightarrow>
     (\<exists>a \<in> set (app_catalog d). ac_package_name a = packageName \<and> ac_enabled a)"

definition validRuntimeAppSelectionsTX :: "string list \<Rightarrow> db \<Rightarrow> string list res" where
  "validRuntimeAppSelectionsTX packageNames d =
     (case normalizeAppPackageSelections packageNames of
        Inl e \<Rightarrow> Inl (ErrAppSelection (case e of ErrMsg m \<Rightarrow> m | _ \<Rightarrow> []))
      | Inr normalized \<Rightarrow>
          if int (length normalized) > maxRuntimeAppSelections
          then Inl (ErrAppSelection ''select at most 32 apps'')
          else case find (\<lambda>packageName. \<not> catalog_enabled d packageName) normalized of
                 Some packageName \<Rightarrow> Inl (ErrAppSelection (''app package is not available: '' @ packageName))
               | None \<Rightarrow> Inr normalized)"

definition insertAppSelection :: "ctx \<Rightarrow> string \<Rightarrow> string \<Rightarrow> db \<Rightarrow> db" where
  "insertAppSelection c runtimeID packageName d =
     (if \<exists>s \<in> set (runtime_app_selections d). as_runtime_id s = runtimeID \<and> as_package_name s = packageName
      then d
      else d\<lparr>runtime_app_selections := runtime_app_selections d
             @ [\<lparr>as_runtime_id = runtimeID, as_package_name = packageName, as_selected_at = db_now c\<rparr>]\<rparr>)"

definition writeRuntimeAppSelectionsTX :: "ctx \<Rightarrow> string \<Rightarrow> string list \<Rightarrow> db \<Rightarrow> db" where
  "writeRuntimeAppSelectionsTX c runtimeID packageNames d =
     fold (insertAppSelection c runtimeID) packageNames
       (d\<lparr>runtime_app_selections := delete_where
            (\<lambda>s. as_runtime_id s = runtimeID \<and> as_package_name s \<notin> set packageNames)
            (runtime_app_selections d)\<rparr>)"

definition replaceRuntimeAppSelectionsTX :: "ctx \<Rightarrow> string \<Rightarrow> string list \<Rightarrow> unit tx" where
  "replaceRuntimeAppSelectionsTX c runtimeID packageNames d =
     ebind (validRuntimeAppSelectionsTX packageNames d) (\<lambda>normalized.
       Inr ((), writeRuntimeAppSelectionsTX c runtimeID normalized d))"

section \<open>Creating a runtime\<close>

text \<open>The row the insert makes, with the defaults of the columns it does not name.\<close>

definition new_runtime :: "ctx \<Rightarrow> string \<Rightarrow> string \<Rightarrow> CreateRuntimeInput \<Rightarrow> runtime" where
  "new_runtime c runtimeID accountID i = \<lparr>r_id = runtimeID, r_account_id = accountID,
     r_name = cr_Name i, r_status = ''stopped'', r_desired_state = ''stopped'',
     r_connection_status = ''offline'', r_host_id = None, r_persona_version = 1,
     r_active_persona_json = None, r_android_image = cr_AndroidImage i,
     r_android_version = cr_AndroidVersion i, r_width_px = cr_WidthPx i, r_height_px = cr_HeightPx i,
     r_density_dpi = cr_DensityDpi i, r_audio_enabled = cr_AudioEnabled i,
     r_camera_mode = cr_CameraMode i, r_file_mode = cr_FileMode i,
     r_blob_auto_snapshot = cr_BlobAutoSnapshot i, r_blob_retain_days = cr_BlobRetainDays i,
     r_blob_store_kind = None, r_blob_manifest_json = None, r_blob_host_id = None,
     r_blob_last_snapshot_at = None, r_started_at = None, r_billed_through = None,
     r_load_average = None, r_container_name = None, r_adb_port = None, r_viewer_port = None,
     r_wipe_requested = False, r_cleanup_pending = False, r_operation_generation = 1,
     r_last_error = None, r_deleted_at = None, r_created_at = db_now c, r_updated_at = db_now c,
     r_blob_generation_floor = 0, r_idle_timeout_seconds = cr_IdleTimeoutSeconds i,
     r_egress_mode = cr_EgressMode i, r_region_sealed = None,
     r_identity_reset_persona_version = None\<rparr>"

definition CreateRuntime :: "ctx \<Rightarrow> string \<Rightarrow> string \<Rightarrow> string \<Rightarrow> CreateRuntimeInput \<Rightarrow> runtime tx" where
  "CreateRuntime c runtimeAndroidVersion newID accountID0 input0 d =
     (let accountID = TrimSpace accountID0 in
      if accountID = [] then Inl (ErrMsg ''account id is required'')
      else ebind (normalizedCreateInput input0 (deployedAndroidVersion runtimeAndroidVersion)) (\<lambda>input.
           ebind (ensureRuntimeCreateEntitlementTX c accountID d) (\<lambda>_.
           if \<exists>r \<in> set (runtimes d). r_id r = newID then Inl (ErrConstraint ''runtimes_pkey'')
           else if \<not> (\<exists>a \<in> set (accounts d). a_id a = accountID)
           then Inl (ErrConstraint ''runtimes_account_id_fkey'')
           else let runtime = new_runtime c newID accountID input;
                    d1 = d\<lparr>runtimes := runtimes d @ [runtime]\<rparr>
                in ebind (if cr_AppPackages input \<noteq> []
                          then replaceRuntimeAppSelectionsTX c newID (cr_AppPackages input) d1
                          else Inr ((), d1)) (\<lambda>(_, d2).
                   Inr (runtime, appendRuntimeLogTX c newID ''user'' ''info''
                     ''Runtime profile created. A fresh container will be assigned when a session starts.'' d2)))))"

section \<open>Changing settings\<close>

record UpdateRuntimeInput =
  ur_Name :: "string option"
  ur_AndroidImage :: "string option"
  ur_AndroidVersion :: "string option"
  ur_WidthPx :: "int option"
  ur_HeightPx :: "int option"
  ur_DensityDpi :: "int option"
  ur_AudioEnabled :: "bool option"
  ur_CameraMode :: "string option"
  ur_FileMode :: "string option"
  ur_BlobAutoSnapshot :: "bool option"
  ur_BlobRetainDays :: "int option"
  ur_IdleTimeoutSeconds :: "int option"
  ur_EgressMode :: "string option"
  ur_RegionSealed :: "string option"

definition GetRuntime :: "string \<Rightarrow> string \<Rightarrow> db \<Rightarrow> runtime res" where
  "GetRuntime accountID runtimeID d = of_row ErrRuntimeNotFound
     (find (\<lambda>r. r_account_id r = accountID \<and> r_id r = runtimeID \<and> r_deleted_at r = None) (runtimes d))"

definition positive_or :: "int option \<Rightarrow> int \<Rightarrow> int" where
  "positive_or x old = (case x of None \<Rightarrow> old | Some n \<Rightarrow> if n > 0 then n else old)"

definition cameraChoice :: "UpdateRuntimeInput \<Rightarrow> runtime \<Rightarrow> string" where
  "cameraChoice input r = (case ur_CameraMode input of None \<Rightarrow> r_camera_mode r
     | Some v \<Rightarrow> normalizeChoice v (r_camera_mode r) [''disabled'', ''photo-import''])"

definition fileChoice :: "UpdateRuntimeInput \<Rightarrow> runtime \<Rightarrow> string" where
  "fileChoice input r = (case ur_FileMode input of None \<Rightarrow> r_file_mode r
     | Some v \<Rightarrow> normalizeChoice v (r_file_mode r) [''upload-only'', ''download-only'', ''bidirectional''])"

definition mediaSettingsChanged :: "UpdateRuntimeInput \<Rightarrow> runtime \<Rightarrow> bool" where
  "mediaSettingsChanged input r \<longleftrightarrow>
     (case ur_AudioEnabled input of None \<Rightarrow> False | Some v \<Rightarrow> v \<noteq> r_audio_enabled r)
     \<or> cameraChoice input r \<noteq> r_camera_mode r \<or> fileChoice input r \<noteq> r_file_mode r"

definition meant_stopped :: "runtime \<Rightarrow> bool" where
  "meant_stopped r \<longleftrightarrow> EqualFold (TrimSpace (r_desired_state r)) ''stopped''"

definition egressSetting :: "UpdateRuntimeInput \<Rightarrow> runtime \<Rightarrow> string res" where
  "egressSetting input r =
     (case ur_EgressMode input of None \<Rightarrow> Inr (r_egress_mode r)
      | Some v \<Rightarrow> ebind (normalizeEgressMode v) (\<lambda>egressMode.
          if egressMode \<noteq> r_egress_mode r \<and> \<not> meant_stopped r then Inl ErrRuntimeEgressActive
          else Inr egressMode))"

definition regionSetting :: "UpdateRuntimeInput \<Rightarrow> runtime \<Rightarrow> string option res" where
  "regionSetting input r =
     (case ur_RegionSealed input of None \<Rightarrow> Inr (r_region_sealed r)
      | Some v \<Rightarrow> let regionSealed = TrimSpace v in
          if regionSealed = [] then Inr None
          else if \<not> validRegionSealed regionSealed then Inl ErrRuntimeRegion
          else Inr (Some regionSealed))"

definition idleSetting :: "UpdateRuntimeInput \<Rightarrow> runtime \<Rightarrow> int res" where
  "idleSetting input r =
     (case ur_IdleTimeoutSeconds input of None \<Rightarrow> Inr (r_idle_timeout_seconds r)
      | Some v \<Rightarrow> if \<not> validRuntimeIdleTimeout v then Inl ErrRuntimeIdleTimeout else Inr v)"

definition profile_of :: "runtime \<Rightarrow> CreateRuntimeInput" where
  "profile_of r = \<lparr>cr_Name = r_name r, cr_AndroidImage = r_android_image r,
     cr_AndroidVersion = r_android_version r, cr_WidthPx = r_width_px r, cr_HeightPx = r_height_px r,
     cr_DensityDpi = r_density_dpi r, cr_AudioEnabled = r_audio_enabled r, cr_AudioEnabledSet = False,
     cr_CameraMode = r_camera_mode r, cr_FileMode = r_file_mode r,
     cr_BlobAutoSnapshot = r_blob_auto_snapshot r, cr_BlobRetainDays = r_blob_retain_days r,
     cr_AppPackages = [], cr_IdleTimeoutSeconds = 0, cr_EgressMode = []\<rparr>"

text \<open>The current row with the requested settings merged in, or why they are refused.\<close>

definition mergeSettings :: "string \<Rightarrow> UpdateRuntimeInput \<Rightarrow> runtime \<Rightarrow> runtime res" where
  "mergeSettings runtimeAndroidVersion input r =
     ebind (case ur_AndroidImage input of None \<Rightarrow> Inr () | Some v \<Rightarrow> validateClientAndroidImage v) (\<lambda>_.
     ebind (case ur_AndroidVersion input of None \<Rightarrow> Inr () | Some v \<Rightarrow> validateClientAndroidVersion v) (\<lambda>_.
     let androidVersion = deployedAndroidVersion runtimeAndroidVersion in
     if mediaSettingsChanged input r \<and> \<not> meant_stopped r then Inl ErrRuntimeMediaSettingsActive
     else ebind (egressSetting input r) (\<lambda>egressMode.
          ebind (regionSetting input r) (\<lambda>regionSealed.
          ebind (idleSetting input r) (\<lambda>idle.
          let r1 = r\<lparr>r_name := (case ur_Name input of None \<Rightarrow> r_name r | Some v \<Rightarrow> defaultString v (r_name r)),
                r_android_version := androidVersion,
                r_android_image := (case runtimeAndroidImages androidVersion of None \<Rightarrow> [] | Some im \<Rightarrow> im),
                r_width_px := positive_or (ur_WidthPx input) (r_width_px r),
                r_height_px := positive_or (ur_HeightPx input) (r_height_px r),
                r_density_dpi := positive_or (ur_DensityDpi input) (r_density_dpi r),
                r_audio_enabled := (case ur_AudioEnabled input of None \<Rightarrow> r_audio_enabled r | Some v \<Rightarrow> v),
                r_camera_mode := cameraChoice input r, r_file_mode := fileChoice input r,
                r_blob_auto_snapshot :=
                  (case ur_BlobAutoSnapshot input of None \<Rightarrow> r_blob_auto_snapshot r | Some v \<Rightarrow> v),
                r_blob_retain_days := positive_or (ur_BlobRetainDays input) (r_blob_retain_days r),
                r_idle_timeout_seconds := idle, r_egress_mode := egressMode,
                r_region_sealed := regionSealed\<rparr>
          in ebind (validateRuntimeProfile (profile_of r1)) (\<lambda>_. Inr r1))))))"

definition copySettings :: "ctx \<Rightarrow> runtime \<Rightarrow> runtime \<Rightarrow> runtime" where
  "copySettings c new r =
     r\<lparr>r_name := r_name new, r_android_image := r_android_image new,
       r_android_version := r_android_version new, r_width_px := r_width_px new,
       r_height_px := r_height_px new, r_density_dpi := r_density_dpi new,
       r_audio_enabled := r_audio_enabled new, r_camera_mode := r_camera_mode new,
       r_file_mode := r_file_mode new, r_blob_auto_snapshot := r_blob_auto_snapshot new,
       r_blob_retain_days := r_blob_retain_days new, r_idle_timeout_seconds := r_idle_timeout_seconds new,
       r_egress_mode := r_egress_mode new, r_region_sealed := r_region_sealed new,
       r_updated_at := db_now c\<rparr>"

definition settingsMessage :: "runtime \<Rightarrow> string" where
  "settingsMessage r =
     ''Settings updated. image='' @ r_android_image r @ '' version='' @ r_android_version r
     @ '' display='' @ show_int (r_width_px r) @ ''x'' @ show_int (r_height_px r)
     @ ''@'' @ show_int (r_density_dpi r) @ ''dpi camera='' @ r_camera_mode r
     @ '' files='' @ r_file_mode r
     @ '' snapshots='' @ (if r_blob_auto_snapshot r then ''true'' else ''false'')
     @ ''/'' @ show_int (r_blob_retain_days r) @ ''d egress='' @ r_egress_mode r
     @ '' region='' @ (if r_region_sealed r \<noteq> None then ''sealed'' else ''off'')"

definition UpdateRuntimeSettings :: "ctx \<Rightarrow> string \<Rightarrow> string \<Rightarrow> string \<Rightarrow> UpdateRuntimeInput \<Rightarrow> runtime tx" where
  "UpdateRuntimeSettings c runtimeAndroidVersion accountID runtimeID input d =
     ebind (GetRuntime accountID runtimeID d) (\<lambda>current.
     ebind (mergeSettings runtimeAndroidVersion input current) (\<lambda>new.
     ebind (of_row ErrRuntimeNotFound (find (runtime_row accountID runtimeID) (runtimes d))) (\<lambda>row.
       let runtime = copySettings c new row;
           d1 = d\<lparr>runtimes := update_where (runtime_row accountID runtimeID) (copySettings c new) (runtimes d)\<rparr>
       in Inr (runtime, appendRuntimeLogTX c (r_id runtime) ''user'' ''info'' (settingsMessage runtime) d1))))"

section \<open>A sealed region survives its encoding\<close>

text \<open>The encoder phones use (RFC 4648, URL alphabet, no padding), as the reference for the decoder.\<close>

definition base64_char :: "nat \<Rightarrow> char" where
  "base64_char v = char_of (if v < 26 then v + 65 else if v < 52 then v - 26 + 97
     else if v < 62 then v - 52 + 48 else if v = 62 then 45 else 95)"

fun sextets :: "nat list \<Rightarrow> nat list" where
  "sextets (a # b # c # s) =
     (a div 4) # ((a mod 4) * 16 + b div 16) # ((b mod 16) * 4 + c div 64) # (c mod 64) # sextets s"
| "sextets [a, b] = [a div 4, (a mod 4) * 16 + b div 16, (b mod 16) * 4]"
| "sextets [a] = [a div 4, (a mod 4) * 16]"
| "sextets [] = []"

definition base64_encode :: "string \<Rightarrow> string" where
  "base64_encode s = map base64_char (sextets (map of_char s))"

lemma base64_char_code:
  assumes "v < 64"
  shows "(of_char (base64_char v) :: nat) = (if v < 26 then v + 65 else if v < 52 then v - 26 + 97
     else if v < 62 then v - 52 + 48 else if v = 62 then 45 else 95)"
  using assms by (simp add: base64_char_def)

lemma base64_char_value:
  assumes "v < 64"
  shows "base64_value (base64_char v) = Some v \<and> base64_char v \<noteq> CHR 0x0A \<and> base64_char v \<noteq> CHR 0x0D"
proof -
  have "(of_char (base64_char v) :: nat) \<noteq> 10" "(of_char (base64_char v) :: nat) \<noteq> 13"
    using base64_char_code [OF assms] by auto
  then have "base64_char v \<noteq> CHR 0x0A" "base64_char v \<noteq> CHR 0x0D" by auto
  moreover have "base64_value (base64_char v) = Some v"
    using assms by (auto simp: base64_value_def base64_char_code Let_def)
  ultimately show ?thesis by blast
qed

lemma byte_parts:
  assumes "(n :: nat) < 256"
  shows "n div 4 < 64" "n div 16 < 16" "n div 64 < 4" "n mod 4 < 4" "n mod 16 < 16" "n mod 64 < 64"
  using assms by (simp_all add: less_mult_imp_div_less)

lemma split_join:
  assumes "(y :: nat) < k"
  shows "(x * k + y) div k = x" "(x * k + y) mod k = y"
  using assms by simp_all

lemma sextet_bounds:
  assumes "(a :: nat) < 256" and "b < 256" and "c < 256"
  shows "a div 4 < 64" "(a mod 4) * 16 + b div 16 < 64" "(b mod 16) * 4 + c div 64 < 64"
    "(b mod 16) * 4 < 64" "(a mod 4) * 16 < 64"
  using byte_parts [OF assms(1)] byte_parts [OF assms(2)] byte_parts [OF assms(3)] by linarith+

lemma sextets_bound: "\<forall>b \<in> set bs. b < 256 \<Longrightarrow> \<forall>v \<in> set (sextets bs). v < 64"
proof (induction bs rule: sextets.induct)
  case (1 a b c s)
  then show ?case using sextet_bounds [of a b c] by simp
next
  case (2 a b)
  then show ?case using sextet_bounds [of a b 0] by simp
next
  case (3 a)
  then show ?case using sextet_bounds [of a 0 0] by simp
qed simp

lemma sextet_join:
  assumes "(a :: nat) < 256" and "b < 256" and "c < 256"
  shows "(a div 4) * 4 + ((a mod 4) * 16 + b div 16) div 16 = a"
    "(((a mod 4) * 16 + b div 16) mod 16) * 16 + ((b mod 16) * 4 + c div 64) div 4 = b"
    "(((b mod 16) * 4 + c div 64) mod 4) * 64 + c mod 64 = c"
    "(((a mod 4) * 16 + b div 16) mod 16) * 16 + ((b mod 16) * 4) div 4 = b"
    "(a div 4) * 4 + ((a mod 4) * 16) div 16 = a"
  using byte_parts [OF assms(2)] byte_parts [OF assms(3)]
  by (simp_all only: split_join div_mult_mod_eq nonzero_mult_div_cancel_right)

lemma base64_values_map:
  "\<forall>v \<in> set vs. v < 64 \<Longrightarrow> base64_values (map base64_char vs) = Some vs"
  by (induction vs) (simp_all add: base64_char_value)

lemma base64_filter_map:
  "\<forall>v \<in> set vs. v < 64 \<Longrightarrow>
   filter (\<lambda>ch. ch \<noteq> CHR 0x0A \<and> ch \<noteq> CHR 0x0D) (map base64_char vs) = map base64_char vs"
  by (rule filter_True) (simp add: base64_char_value)

lemma base64_bytes_sextets:
  "\<forall>b \<in> set bs. b < 256 \<Longrightarrow> base64_bytes (sextets bs) = Some (map char_of bs)"
proof (induction bs rule: sextets.induct)
  case (1 a b c s)
  then show ?case using sextet_join(1,2,3) [of a b c] by (simp only: sextets.simps base64_bytes.simps) simp
next
  case (2 a b)
  then show ?case using sextet_join(1,4) [of a b 0] by (simp only: sextets.simps base64_bytes.simps) simp
next
  case (3 a)
  then show ?case using sextet_join(5) [of a 0 0] by (simp only: sextets.simps base64_bytes.simps) simp
qed simp

lemma length_sextets: "int (length (sextets bs)) = encodedLen (int (length bs))"
proof (induction bs rule: sextets.induct)
  case (1 a b c s)
  have "encodedLen (int (length s) + 3) = encodedLen (int (length s)) + 4" by (simp add: encodedLen_def div_add_self2)
  with 1 show ?case by (simp add: algebra_simps)
qed (simp_all add: encodedLen_def)

lemma encodedLen_le: "0 \<le> n \<Longrightarrow> encodedLen n \<le> encodedLen 2048 \<longleftrightarrow> n \<le> 2048"
proof -
  have parts: "n = n div 3 * 3 + n mod 3" "0 \<le> n mod 3" "n mod 3 \<le> 2" by auto
  then have tail: "0 \<le> (n mod 3 * 8 + 5) div 6" "(n mod 3 * 8 + 5) div 6 \<le> 3" by linarith+
  have "encodedLen 2048 = 2731" by (simp add: encodedLen_def)
  with parts tail show ?thesis unfolding encodedLen_def by linarith
qed

lemma of_char_bound: "\<forall>b \<in> set (map of_char s). b < (256 :: nat)"
  by simp

lemma base64_decode_encode: "base64_decode (base64_encode s) = Some s"
  using sextets_bound [OF of_char_bound, of s] base64_bytes_sextets [OF of_char_bound, of s]
  by (simp add: base64_decode_def base64_encode_def base64_filter_map base64_values_map o_def)

text \<open>
  C17. The region a phone seals arrives intact: decoding undoes the encoding of every byte string, so
  the check accepts an encoded value exactly when the bytes are at most 2048, begin with the magic
  and have room for the nonce and the tag.
\<close>

theorem validRegionSealed_roundtrip:
  "base64_decode (base64_encode s) = Some s
   \<and> (validRegionSealed (base64_encode s) \<longleftrightarrow>
        length s \<le> 2048 \<and> 36 \<le> length s \<and> take 8 s = sealedRegionMagic)"
proof -
  have "int (length (base64_encode s)) = encodedLen (int (length s))"
    by (simp add: base64_encode_def length_sextets)
  then have "\<not> encodedLen maxSealedRegionBytes < int (length (base64_encode s)) \<longleftrightarrow> length s \<le> 2048"
    using encodedLen_le [of "int (length s)"] by (simp add: maxSealedRegionBytes_def not_less)
  moreover have "length sealedRegionMagic = 8" by (simp add: sealedRegionMagic_def)
  ultimately show ?thesis by (auto simp: validRegionSealed_def base64_decode_encode)
qed

section \<open>Every profile is one the nodes support\<close>

definition profile_ok :: "runtime \<Rightarrow> bool" where
  "profile_ok r \<longleftrightarrow>
     runtimeAndroidImages (r_android_version r) = Some (r_android_image r)
     \<and> 480 \<le> r_width_px r \<and> r_width_px r \<le> 1600 \<and> r_width_px r mod 8 = 0
     \<and> 480 \<le> r_height_px r \<and> r_height_px r \<le> 1600 \<and> r_height_px r mod 8 = 0
     \<and> 240 \<le> r_density_dpi r \<and> r_density_dpi r \<le> 640 \<and> r_density_dpi r mod 20 = 0
     \<and> r_camera_mode r \<in> {''disabled'', ''photo-import''} \<and> r_file_mode r = ''upload-only''
     \<and> r_idle_timeout_seconds r \<in> set RuntimeIdleTimeouts
     \<and> r_egress_mode r \<in> {''direct'', ''tor''}
     \<and> (\<forall>v. r_region_sealed r = Some v \<longrightarrow> validRegionSealed v)"

definition profiles_ok :: "db \<Rightarrow> bool" where
  "profiles_ok d \<longleftrightarrow> (\<forall>r \<in> set (runtimes d). profile_ok r)"

lemma normalizeEgressMode_cases: "normalizeEgressMode v = Inr m \<Longrightarrow> m = ''direct'' \<or> m = ''tor''"
  by (auto simp: normalizeEgressMode_def Let_def split: if_splits)

lemma validateRuntimeProfile_ok:
  "validateRuntimeProfile i = Inr u \<longleftrightarrow>
     runtimeAndroidImages (cr_AndroidVersion i) \<noteq> None
     \<and> 480 \<le> cr_WidthPx i \<and> cr_WidthPx i \<le> 1600 \<and> cr_WidthPx i mod 8 = 0
     \<and> 480 \<le> cr_HeightPx i \<and> cr_HeightPx i \<le> 1600 \<and> cr_HeightPx i mod 8 = 0
     \<and> 240 \<le> cr_DensityDpi i \<and> cr_DensityDpi i \<le> 640 \<and> cr_DensityDpi i mod 20 = 0
     \<and> cr_CameraMode i \<in> {''disabled'', ''photo-import''} \<and> cr_FileMode i = ''upload-only''"
  by (auto simp: validateRuntimeProfile_def)

lemma fillCreateDefaults_simps [simp]:
  "cr_EgressMode (fillCreateDefaults ver m i) = m" "cr_AndroidVersion (fillCreateDefaults ver m i) = ver"
  "cr_AndroidImage (fillCreateDefaults ver m i) = (case runtimeAndroidImages ver of None \<Rightarrow> [] | Some im \<Rightarrow> im)"
  "cr_IdleTimeoutSeconds (fillCreateDefaults ver m i) = cr_IdleTimeoutSeconds i"
  by (simp_all add: fillCreateDefaults_def)

lemma normalizedCreateInput_ok:
  assumes "normalizedCreateInput input ver = Inr i"
  shows "profile_ok (new_runtime c rid a i)"
proof -
  define i2 where "i2 = (let i1 = (if TrimSpace (cr_Name input) = [] then input\<lparr>cr_Name := ''My runtime''\<rparr> else input)
    in if cr_IdleTimeoutSeconds i1 = 0 then i1\<lparr>cr_IdleTimeoutSeconds := DefaultRuntimeIdleTimeout\<rparr> else i1)"
  have "(if \<not> validRuntimeIdleTimeout (cr_IdleTimeoutSeconds i2) then Inl ErrRuntimeIdleTimeout
     else ebind (normalizeEgressMode (cr_EgressMode i2)) (\<lambda>egressMode.
          ebind (validateClientAndroidImage (cr_AndroidImage i2)) (\<lambda>_.
          ebind (validateClientAndroidVersion (cr_AndroidVersion i2)) (\<lambda>_.
          ebind (validateRuntimeProfile (fillCreateDefaults ver egressMode i2))
            (\<lambda>_. Inr (fillCreateDefaults ver egressMode i2)))))) = Inr i"
    using assms unfolding normalizedCreateInput_def Let_def i2_def .
  then obtain m where idle: "validRuntimeIdleTimeout (cr_IdleTimeoutSeconds i2)"
    and m: "normalizeEgressMode (cr_EgressMode i2) = Inr m"
    and v: "validateRuntimeProfile i = Inr ()" and i: "i = fillCreateDefaults ver m i2"
    by (auto simp: res_simps split: if_splits)
  from v [unfolded validateRuntimeProfile_ok] normalizeEgressMode_cases [OF m] idle show ?thesis
    by (auto simp: profile_ok_def new_runtime_def validRuntimeIdleTimeout_def i)
qed

lemma insertAppSelections_frame:
  "runtimes (fold (insertAppSelection c rid) ps d) = runtimes d
   \<and> account_entitlements (fold (insertAppSelection c rid) ps d) = account_entitlements d"
  by (rule fold_invariant_snd [where I = "\<lambda>x. runtimes x = runtimes d \<and> account_entitlements x = account_entitlements d"])
    (auto simp: insertAppSelection_def)

lemma CreateRuntime_cases:
  assumes "CreateRuntime c ver rid a0 input d = Inr (r, d')"
  obtains i where "normalizedCreateInput input (deployedAndroidVersion ver) = Inr i"
    and "ensureRuntimeCreateEntitlementTX c (TrimSpace a0) d = Inr ()"
    and "r = new_runtime c rid (TrimSpace a0) i" and "runtimes d' = runtimes d @ [r]"
    and "account_entitlements d' = account_entitlements d"
    and "\<forall>q \<in> set (runtimes d). r_id q \<noteq> rid"
proof -
  from assms obtain i d2 where i: "normalizedCreateInput input (deployedAndroidVersion ver) = Inr i"
      "ensureRuntimeCreateEntitlementTX c (TrimSpace a0) d = Inr ()"
      "r = new_runtime c rid (TrimSpace a0) i" "\<forall>q \<in> set (runtimes d). r_id q \<noteq> rid"
    and d2: "(if cr_AppPackages i \<noteq> []
       then replaceRuntimeAppSelectionsTX c rid (cr_AppPackages i) (d\<lparr>runtimes := runtimes d @ [r]\<rparr>)
       else Inr ((), d\<lparr>runtimes := runtimes d @ [r]\<rparr>)) = Inr ((), d2)"
      "runtimes d' = runtimes d2 \<and> account_entitlements d' = account_entitlements d2"
    by (auto simp: CreateRuntime_def Let_def res_simps split: if_splits)
  from d2(1) have "runtimes d2 = runtimes d @ [r] \<and> account_entitlements d2 = account_entitlements d"
    by (auto simp: replaceRuntimeAppSelectionsTX_def writeRuntimeAppSelectionsTX_def res_simps
        insertAppSelections_frame split: if_splits)
  with d2(2) i show ?thesis by (intro that [of i]) auto
qed

lemma mergeSettings_ok:
  assumes "mergeSettings ver input q = Inr new"
    and "profile_ok q"
  shows "profile_ok (copySettings c new r)"
proof -
  from assms(1) have v: "validateRuntimeProfile (profile_of new) = Inr ()"
    and img: "r_android_image new = (case runtimeAndroidImages (r_android_version new) of None \<Rightarrow> [] | Some im \<Rightarrow> im)"
    and e: "egressSetting input q = Inr (r_egress_mode new)"
    and g: "regionSetting input q = Inr (r_region_sealed new)"
    and t: "idleSetting input q = Inr (r_idle_timeout_seconds new)"
    by (auto simp: mergeSettings_def Let_def res_simps split: if_splits)
  have "r_egress_mode new \<in> {''direct'', ''tor''}"
    using e assms(2) by (auto simp: egressSetting_def profile_ok_def res_simps
        dest: normalizeEgressMode_cases split: option.splits if_splits)
  moreover have "\<forall>v. r_region_sealed new = Some v \<longrightarrow> validRegionSealed v"
    using g assms(2) by (auto simp: regionSetting_def profile_ok_def Let_def split: option.splits if_splits)
  moreover have "r_idle_timeout_seconds new \<in> set RuntimeIdleTimeouts"
    using t assms(2) by (auto simp: idleSetting_def profile_ok_def validRuntimeIdleTimeout_def
        split: option.splits if_splits)
  ultimately show ?thesis
    using v img by (auto simp: profile_ok_def copySettings_def validateRuntimeProfile_ok profile_of_def)
qed

lemma UpdateRuntimeSettings_cases:
  assumes "UpdateRuntimeSettings c ver a rid input d = Inr (r, d')"
  obtains q row new where "q \<in> set (runtimes d)" and "r_id q = rid" and "mergeSettings ver input q = Inr new"
    and "row \<in> set (runtimes d)" and "runtime_row a rid row" and "r = copySettings c new row"
    and "runtimes d' = update_where (runtime_row a rid) (copySettings c new) (runtimes d)"
  using assms
  by (auto simp: UpdateRuntimeSettings_def GetRuntime_def Let_def res_simps dest!: find_SomeD)

text \<open>
  C16. Every profile in the database is one the nodes support - a known Android image, a display within
  bounds, an allowed media mode, an offered inactivity period, a known way out to the internet and a
  well-formed sealed region: creating a runtime and changing its settings both keep it so.
\<close>

theorem profiles_ok_invariant:
  assumes "profiles_ok d"
  shows "(CreateRuntime c ver rid a input d = Inr (r, d') \<longrightarrow> profiles_ok d')
    \<and> (UpdateRuntimeSettings c ver a rid change d = Inr (r, d') \<longrightarrow> profiles_ok d')"
proof (intro conjI impI)
  assume "CreateRuntime c ver rid a input d = Inr (r, d')"
  from this assms show "profiles_ok d'"
    by (elim CreateRuntime_cases) (auto simp: profiles_ok_def dest: normalizedCreateInput_ok)
next
  assume "UpdateRuntimeSettings c ver a rid change d = Inr (r, d')"
  then show "profiles_ok d'"
  proof (rule UpdateRuntimeSettings_cases)
    fix q new assume "q \<in> set (runtimes d)" and new: "mergeSettings ver change q = Inr new"
      and d': "runtimes d' = update_where (runtime_row a rid) (copySettings c new) (runtimes d)"
    then have "profile_ok q" using assms by (simp add: profiles_ok_def)
    from mergeSettings_ok [OF new this] assms show ?thesis
      by (simp add: profiles_ok_def d' ball_update_where)
  qed
qed

text \<open>When the two operations succeed, and with what.\<close>

lemma CreateRuntime_succeeds:
  assumes "normalizedCreateInput input (deployedAndroidVersion ver) = Inr i" and "cr_AppPackages i = []"
    and "ensureRuntimeCreateEntitlementTX c (TrimSpace a) d = Inr ()" and "TrimSpace a \<noteq> []"
    and "\<forall>r \<in> set (runtimes d). r_id r \<noteq> rid" and "\<exists>x \<in> set (accounts d). a_id x = TrimSpace a"
  shows "\<exists>d'. CreateRuntime c ver rid a input d = Inr (new_runtime c rid (TrimSpace a) i, d')"
  using assms by (auto simp: CreateRuntime_def Let_def)

lemma UpdateRuntimeSettings_succeeds:
  assumes "GetRuntime a rid d = Inr q" and "mergeSettings ver input q = Inr new"
    and "find (runtime_row a rid) (runtimes d) = Some row"
  shows "\<exists>d'. UpdateRuntimeSettings c ver a rid input d = Inr (copySettings c new row, d')"
  using assms by (simp add: UpdateRuntimeSettings_def Let_def)

definition sample_create :: CreateRuntimeInput where
  "sample_create = \<lparr>cr_Name = '''', cr_AndroidImage = '''', cr_AndroidVersion = '''', cr_WidthPx = 0,
     cr_HeightPx = 0, cr_DensityDpi = 0, cr_AudioEnabled = False, cr_AudioEnabledSet = False,
     cr_CameraMode = '''', cr_FileMode = '''', cr_BlobAutoSnapshot = False, cr_BlobRetainDays = 0,
     cr_AppPackages = [], cr_IdleTimeoutSeconds = 0, cr_EgressMode = '' Tor ''\<rparr>"

definition sample_change :: UpdateRuntimeInput where
  "sample_change = \<lparr>ur_Name = Some ''Work'', ur_AndroidImage = None, ur_AndroidVersion = None,
     ur_WidthPx = Some 800, ur_HeightPx = None, ur_DensityDpi = None, ur_AudioEnabled = None,
     ur_CameraMode = None, ur_FileMode = None, ur_BlobAutoSnapshot = None, ur_BlobRetainDays = None,
     ur_IdleTimeoutSeconds = Some 3600, ur_EgressMode = None, ur_RegionSealed = None\<rparr>"

lemma sample_profiles_ok: "profiles_ok sample_db" "profiles_ok sample_live"
  by (simp_all add: profiles_ok_def profile_ok_def sample_defs runtimeAndroidImages_def
      defaultAndroidImage_def RuntimeIdleTimeouts_def)

lemma sample_created:
  "\<exists>r d'. CreateRuntime sample_ctx '''' ''r2'' ''a1'' sample_create sample_db = Inr (r, d') \<and> r_egress_mode r = ''tor''"
proof -
  have "map_sum id (\<lambda>i. (cr_AppPackages i, cr_EgressMode i))
      (normalizedCreateInput sample_create (deployedAndroidVersion '''')) = Inr ([], ''tor'')" by code_simp
  then obtain i where i: "normalizedCreateInput sample_create (deployedAndroidVersion '''') = Inr i"
      "cr_AppPackages i = []" "cr_EgressMode i = ''tor''" by (auto dest: sample_run)
  have t: "TrimSpace ''a1'' = ''a1''" by code_simp
  have e: "ensureRuntimeCreateEntitlementTX sample_ctx ''a1'' sample_db = Inr ()" by code_simp
  have "\<exists>d'. CreateRuntime sample_ctx '''' ''r2'' ''a1'' sample_create sample_db
      = Inr (new_runtime sample_ctx ''r2'' (TrimSpace ''a1'') i, d')"
    using i(1,2) t e by (intro CreateRuntime_succeeds) (simp_all add: sample_db_def sample_runtime_def sample_account_def)
  with i(3) show ?thesis by (auto simp: new_runtime_def)
qed

lemma sample_updated:
  assumes "d = sample_db \<and> q = sample_runtime \<or> d = sample_live \<and> q = sample_running"
  shows "\<exists>r d'. UpdateRuntimeSettings sample_ctx '''' ''a1'' ''r1'' sample_change d = Inr (r, d') \<and> r_width_px r = 800"
proof -
  have "map_sum id r_width_px (mergeSettings '''' sample_change sample_runtime) = Inr 800"
    "map_sum id r_width_px (mergeSettings '''' sample_change sample_running) = Inr 800" by code_simp+
  with assms obtain new where "mergeSettings '''' sample_change q = Inr new" "r_width_px new = 800"
    by (auto dest: sample_run)
  moreover have "GetRuntime ''a1'' ''r1'' d = Inr q" "find (runtime_row ''a1'' ''r1'') (runtimes d) = Some q"
    using assms by (auto simp: GetRuntime_def runtime_row_def sample_db_def sample_live_def sample_running_def sample_runtime_def)
  ultimately show ?thesis
    using UpdateRuntimeSettings_succeeds [of "''a1''" "''r1''" d q "''''" sample_change new q sample_ctx]
    by (force simp: copySettings_def)
qed

theorem profiles_ok_invariant_witness:
  "(\<exists>r d'. CreateRuntime sample_ctx '''' ''r2'' ''a1'' sample_create sample_db = Inr (r, d')
      \<and> r_egress_mode r = ''tor'' \<and> profiles_ok d')
   \<and> (\<exists>r d'. UpdateRuntimeSettings sample_ctx '''' ''a1'' ''r1'' sample_change sample_db = Inr (r, d')
      \<and> r_width_px r = 800 \<and> profiles_ok d')"
  using sample_created sample_updated [of sample_db sample_runtime]
    profiles_ok_invariant [OF sample_profiles_ok(1)] by blast

section \<open>What the two operations leave alone\<close>

text \<open>
  Creating a runtime keeps an account within its runtime limit: it takes an active entitlement,
  adds one stopped runtime with the new id, and leaves no more live runtimes than the limit allows.
\<close>

theorem CreateRuntime_quota:
  assumes "CreateRuntime c ver rid a input d = Inr (r, d')"
  shows "\<exists>e. accountEntitlementTX (TrimSpace a) d = Inr e \<and> entitlementActive c e
    \<and> int (count_where (owned_runtime (TrimSpace a)) (runtimes d')) \<le> e_runtime_limit e
    \<and> runtimes d' = runtimes d @ [r] \<and> r_id r = rid \<and> r_desired_state r = ''stopped'' \<and> r_viewer_port r = None
    \<and> (\<forall>q \<in> set (runtimes d). r_id q \<noteq> rid)"
  using assms
proof (rule CreateRuntime_cases)
  fix i assume ent: "ensureRuntimeCreateEntitlementTX c (TrimSpace a) d = Inr ()"
    and r: "r = new_runtime c rid (TrimSpace a) i" "runtimes d' = runtimes d @ [r]" "\<forall>q \<in> set (runtimes d). r_id q \<noteq> rid"
  from ent obtain e where e: "accountEntitlementTX (TrimSpace a) d = Inr e" "entitlementActive c e"
      "int (count_where (owned_runtime (TrimSpace a)) (runtimes d)) < e_runtime_limit e"
    by (auto simp: ensureRuntimeCreateEntitlementTX_def Let_def res_simps split: if_splits)
  with r show ?thesis by (auto simp: new_runtime_def)
qed

theorem CreateRuntime_quota_witness:
  "\<exists>r d'. CreateRuntime sample_ctx '''' ''r2'' ''a1'' sample_create sample_db = Inr (r, d')
     \<and> runtimes d' = [sample_runtime, r]"
proof -
  obtain r d' where c: "CreateRuntime sample_ctx '''' ''r2'' ''a1'' sample_create sample_db = Inr (r, d')"
    using sample_created by blast
  from CreateRuntime_quota [OF c] have "runtimes d' = [sample_runtime, r]" by (auto simp: sample_db_def)
  with c show ?thesis by blast
qed

lemma mergeSettings_fields:
  assumes "mergeSettings ver input q = Inr new"
  shows "r_audio_enabled new = (case ur_AudioEnabled input of None \<Rightarrow> r_audio_enabled q | Some v \<Rightarrow> v)"
    and "r_camera_mode new = cameraChoice input q" and "r_file_mode new = fileChoice input q"
    and "egressSetting input q = Inr (r_egress_mode new)"
    and "mediaSettingsChanged input q \<Longrightarrow> meant_stopped q"
  using assms by (auto simp: mergeSettings_def Let_def res_simps split: if_splits)

lemma mergeSettings_running:
  assumes "mergeSettings ver input q = Inr new" and "\<not> meant_stopped q"
  shows "r_audio_enabled new = r_audio_enabled q \<and> r_camera_mode new = r_camera_mode q
    \<and> r_file_mode new = r_file_mode q \<and> r_egress_mode new = r_egress_mode q"
proof -
  note f = mergeSettings_fields [OF assms(1)]
  have "\<not> mediaSettingsChanged input q" using f(5) assms(2) by blast
  moreover have "r_egress_mode new = r_egress_mode q"
    using f(4) assms(2) by (auto simp: egressSetting_def res_simps split: option.splits if_splits)
  ultimately show ?thesis using f(1-3) by (auto simp: mediaSettingsChanged_def split: option.splits)
qed

text \<open>
  Changing settings changes nothing but settings, and while a runtime is not meant to be stopped
  neither its media modes nor its way out to the internet.
\<close>

theorem UpdateRuntimeSettings_safe:
  assumes "UpdateRuntimeSettings c ver a rid input d = Inr (r, d')" and "distinct (map r_id (runtimes d))"
  shows "\<exists>q \<in> set (runtimes d). r_id q = rid \<and> copySettings c q r = copySettings c q q
    \<and> runtimes d' = update_where (\<lambda>x. r_id x = rid) (\<lambda>_. r) (runtimes d)
    \<and> (\<not> meant_stopped q \<longrightarrow> r_audio_enabled r = r_audio_enabled q \<and> r_camera_mode r = r_camera_mode q
         \<and> r_file_mode r = r_file_mode q \<and> r_egress_mode r = r_egress_mode q)"
  using assms(1)
proof (rule UpdateRuntimeSettings_cases)
  fix q row new assume q: "q \<in> set (runtimes d)" "r_id q = rid" and m: "mergeSettings ver input q = Inr new"
    and row: "row \<in> set (runtimes d)" "runtime_row a rid row" and r: "r = copySettings c new row"
    and d': "runtimes d' = update_where (runtime_row a rid) (copySettings c new) (runtimes d)"
  have qrow: "q = row" using key_eq_row [OF assms(2) q(1) row(1)] q(2) row(2) by (simp add: runtime_row_def)
  have only: "x = row" if "x \<in> set (runtimes d)" "r_id x = rid" for x
    using key_eq_row [OF assms(2) that(1) row(1)] that(2) row(2) by (simp add: runtime_row_def)
  have "update_where (runtime_row a rid) (copySettings c new) (runtimes d) = update_where (\<lambda>x. r_id x = rid) (\<lambda>_. r) (runtimes d)"
  proof (unfold update_where_def, rule map_cong [OF refl])
    fix x assume x: "x \<in> set (runtimes d)"
    show "(if runtime_row a rid x then copySettings c new x else x) = (if r_id x = rid then r else x)"
    proof (cases "r_id x = rid")
      case True
      with only [OF x] row(2) r show ?thesis by simp
    next
      case False
      then show ?thesis by (simp add: runtime_row_def)
    qed
  qed
  moreover have "r_audio_enabled r = r_audio_enabled q \<and> r_camera_mode r = r_camera_mode q
         \<and> r_file_mode r = r_file_mode q \<and> r_egress_mode r = r_egress_mode q" if "\<not> meant_stopped q"
    using mergeSettings_running [OF m that] unfolding r by (simp add: copySettings_def)
  moreover have "copySettings c q r = copySettings c q q" unfolding r qrow by (simp add: copySettings_def)
  ultimately show ?thesis using q d' by (intro bexI [of _ q]) simp_all
qed

theorem UpdateRuntimeSettings_safe_witness:
  "\<exists>r d'. UpdateRuntimeSettings sample_ctx '''' ''a1'' ''r1'' sample_change sample_live = Inr (r, d')
     \<and> r_width_px r = 800 \<and> r_camera_mode r = ''photo-import'' \<and> r_host_id r = Some ''h1''"
proof -
  obtain r d' where u: "UpdateRuntimeSettings sample_ctx '''' ''a1'' ''r1'' sample_change sample_live = Inr (r, d')"
      "r_width_px r = 800" using sample_updated [of sample_live sample_running] by blast
  have "distinct (map r_id (runtimes sample_live))" by (simp add: sample_live_def)
  from UpdateRuntimeSettings_safe [OF u(1) this] have c: "copySettings sample_ctx sample_running r = copySettings sample_ctx sample_running sample_running"
    and m: "\<not> meant_stopped sample_running \<longrightarrow> r_camera_mode r = r_camera_mode sample_running"
    by (auto simp: sample_live_def)
  have "r_host_id r = r_host_id (copySettings sample_ctx sample_running r)" by (simp add: copySettings_def)
  also have "\<dots> = Some ''h1''" unfolding c by (simp add: copySettings_def sample_running_def)
  finally have "r_host_id r = Some ''h1''" .
  moreover have "\<not> meant_stopped sample_running" by code_simp
  ultimately show ?thesis using u m by (auto simp: sample_running_def sample_runtime_def)
qed

section \<open>Selections\<close>

lemma normalizeAppPackages_distinct:
  "normalizeAppPackages names acc = Inr ps \<Longrightarrow> distinct acc \<Longrightarrow> distinct ps"
  by (induction names acc rule: normalizeAppPackages.induct) (auto simp: Let_def split: if_splits)

lemma validRuntimeAppSelectionsTX_ok:
  assumes "validRuntimeAppSelectionsTX names d = Inr ps"
  shows "length ps \<le> 32" "distinct ps" "\<forall>p \<in> set ps. catalog_enabled d p"
proof -
  from assms have n: "normalizeAppPackageSelections names = Inr ps" and l: "length ps \<le> 32"
    and f: "find (\<lambda>p. \<not> catalog_enabled d p) ps = None"
    by (auto simp: validRuntimeAppSelectionsTX_def maxRuntimeAppSelections_def split: sum.splits if_splits option.splits)
  show "length ps \<le> 32" by (rule l)
  show "distinct ps" using n normalizeAppPackages_distinct [of names "[]" ps]
    by (auto simp: normalizeAppPackageSelections_def split: if_splits)
  show "\<forall>p \<in> set ps. catalog_enabled d p" using f by (simp add: find_None_iff)
qed

lemma insertAppSelection_rows:
  "set (runtime_app_selections (insertAppSelection c rid p d)) =
     (if \<exists>s \<in> set (runtime_app_selections d). as_runtime_id s = rid \<and> as_package_name s = p
      then set (runtime_app_selections d)
      else insert \<lparr>as_runtime_id = rid, as_package_name = p, as_selected_at = db_now c\<rparr> (set (runtime_app_selections d)))"
  by (auto simp: insertAppSelection_def)

lemma insertAppSelections_rows:
  "as_package_name ` {s \<in> set (runtime_app_selections (fold (insertAppSelection c rid) ps d)). as_runtime_id s = rid}
     = as_package_name ` {s \<in> set (runtime_app_selections d). as_runtime_id s = rid} \<union> set ps
   \<and> set (runtime_app_selections d) \<subseteq> set (runtime_app_selections (fold (insertAppSelection c rid) ps d))
   \<and> (\<forall>s \<in> set (runtime_app_selections (fold (insertAppSelection c rid) ps d)).
        s \<in> set (runtime_app_selections d) \<or> (as_runtime_id s = rid \<and> as_selected_at s = db_now c))"
proof (induction ps arbitrary: d)
  case (Cons p ps)
  let ?d1 = "insertAppSelection c rid p d"
  have "as_package_name ` {s \<in> set (runtime_app_selections ?d1). as_runtime_id s = rid}
     = insert p (as_package_name ` {s \<in> set (runtime_app_selections d). as_runtime_id s = rid})"
  proof (cases "\<exists>s \<in> set (runtime_app_selections d). as_runtime_id s = rid \<and> as_package_name s = p")
    case True
    then have "p \<in> as_package_name ` {s \<in> set (runtime_app_selections d). as_runtime_id s = rid}" by auto
    with True show ?thesis by (simp add: insertAppSelection_rows insert_absorb)
  next
    case False
    have "{s \<in> insert \<lparr>as_runtime_id = rid, as_package_name = p, as_selected_at = db_now c\<rparr> A. as_runtime_id s = rid}
        = insert \<lparr>as_runtime_id = rid, as_package_name = p, as_selected_at = db_now c\<rparr> {s \<in> A. as_runtime_id s = rid}" for A
      by auto
    then show ?thesis unfolding insertAppSelection_rows if_not_P [OF False] by simp
  qed
  moreover have "set (runtime_app_selections d) \<subseteq> set (runtime_app_selections ?d1)"
    "\<forall>s \<in> set (runtime_app_selections ?d1). s \<in> set (runtime_app_selections d)
        \<or> (as_runtime_id s = rid \<and> as_selected_at s = db_now c)"
    by (auto simp: insertAppSelection_rows)
  ultimately show ?case using Cons.IH [of ?d1] by auto
qed simp

lemma writeRuntimeAppSelectionsTX_rows:
  "as_package_name ` {s \<in> set (runtime_app_selections (writeRuntimeAppSelectionsTX c rid ps d)). as_runtime_id s = rid} = set ps"
  "\<forall>s \<in> set (runtime_app_selections d). as_runtime_id s \<noteq> rid \<or> as_package_name s \<in> set ps
     \<longrightarrow> s \<in> set (runtime_app_selections (writeRuntimeAppSelectionsTX c rid ps d))"
  "\<forall>s \<in> set (runtime_app_selections (writeRuntimeAppSelectionsTX c rid ps d)). s \<in> set (runtime_app_selections d)
     \<or> (as_runtime_id s = rid \<and> as_selected_at s = db_now c)"
  unfolding writeRuntimeAppSelectionsTX_def
  using insertAppSelections_rows [of c rid ps "d\<lparr>runtime_app_selections := delete_where
      (\<lambda>s. as_runtime_id s = rid \<and> as_package_name s \<notin> set ps) (runtime_app_selections d)\<rparr>"]
  by (auto simp: subset_iff)

text \<open>
  Replacing the app selection of a runtime leaves exactly the requested apps selected on it, each
  of them enabled in the catalog and at most 32, keeps when a still-selected app was first selected,
  and touches no other runtime's selection.
\<close>

theorem replaceRuntimeAppSelectionsTX_exact:
  assumes "replaceRuntimeAppSelectionsTX c rid names d = Inr (u, d')"
  shows "\<exists>ps. validRuntimeAppSelectionsTX names d = Inr ps \<and> length ps \<le> 32 \<and> distinct ps
    \<and> (\<forall>p \<in> set ps. catalog_enabled d p)
    \<and> as_package_name ` {s \<in> set (runtime_app_selections d'). as_runtime_id s = rid} = set ps
    \<and> (\<forall>s \<in> set (runtime_app_selections d). as_runtime_id s \<noteq> rid \<or> as_package_name s \<in> set ps
          \<longrightarrow> s \<in> set (runtime_app_selections d'))
    \<and> (\<forall>s \<in> set (runtime_app_selections d'). s \<in> set (runtime_app_selections d)
          \<or> (as_runtime_id s = rid \<and> as_selected_at s = db_now c))"
proof -
  from assms obtain ps where ps: "validRuntimeAppSelectionsTX names d = Inr ps"
    and d': "d' = writeRuntimeAppSelectionsTX c rid ps d"
    by (auto simp: replaceRuntimeAppSelectionsTX_def res_simps)
  show ?thesis
    using validRuntimeAppSelectionsTX_ok [OF ps] writeRuntimeAppSelectionsTX_rows [where c = c and rid = rid and ps = ps and d = d] ps
    unfolding d' by auto
qed

theorem replaceRuntimeAppSelectionsTX_exact_witness:
  "\<exists>d'. replaceRuntimeAppSelectionsTX sample_ctx ''r1'' [''app.b'', '' app.b ''] (sample_db\<lparr>
       app_catalog := [\<lparr>ac_package_name = ''app.b'', ac_enabled = True\<rparr>],
       runtime_app_selections := [\<lparr>as_runtime_id = ''r1'', as_package_name = ''app.a'', as_selected_at = 1\<rparr>]\<rparr>) = Inr ((), d')
     \<and> as_package_name ` {s \<in> set (runtime_app_selections d'). as_runtime_id s = ''r1''} = {''app.b''}"
proof -
  let ?d = "sample_db\<lparr>app_catalog := [\<lparr>ac_package_name = ''app.b'', ac_enabled = True\<rparr>],
       runtime_app_selections := [\<lparr>as_runtime_id = ''r1'', as_package_name = ''app.a'', as_selected_at = 1\<rparr>]\<rparr>"
  have v: "validRuntimeAppSelectionsTX [''app.b'', '' app.b ''] ?d = Inr [''app.b'']" by code_simp
  then obtain d' where r: "replaceRuntimeAppSelectionsTX sample_ctx ''r1'' [''app.b'', '' app.b ''] ?d = Inr ((), d')"
    by (auto simp: replaceRuntimeAppSelectionsTX_def)
  from replaceRuntimeAppSelectionsTX_exact [OF r] v
  have "as_package_name ` {s \<in> set (runtime_app_selections d'). as_runtime_id s = ''r1''} = {''app.b''}" by auto
  with r show ?thesis by blast
qed

end
