(* ===== verification/NodeRegistry.thy ===== *)
theory NodeRegistry
  imports Statements "HOL-Library.Multiset"
begin

text \<open>
  The trust registry of nodes (\<open>internal/store/store.go\<close>): operators, approved nodes, their keys and
  the audit trail. A node may act while its operator and it are approved and it signs with its
  active key or with an overlap key that has not run out.

  The normaliser of public keys (\<open>nodeauth.NormalizePublicKey\<close>, a decoder and a SHA-256 digest) is
  the context's \<open>normalizePublicKey\<close>, from a key as given to the normal form and its fingerprint.
\<close>

section \<open>Inputs\<close>

definition MaxNodeKeyRotationOverlap :: duration where
  "MaxNodeKeyRotationOverlap = 24 * hour"

definition id_char :: "nat \<Rightarrow> char \<Rightarrow> bool" where
  "id_char index ch \<longleftrightarrow>
     (let n = (of_char ch :: nat) in
      (97 \<le> n \<and> n \<le> 122) \<or> (65 \<le> n \<and> n \<le> 90) \<or> (48 \<le> n \<and> n \<le> 57)
      \<or> (index > 0 \<and> (ch = CHR ''.'' \<or> ch = CHR ''_'' \<or> ch = CHR '':'' \<or> ch = CHR ''-'')))"

definition normalizeRegistryID :: "string \<Rightarrow> string \<Rightarrow> string res" where
  "normalizeRegistryID value0 label =
     (let value = TrimSpace value0 in
      if value = [] \<or> length value > 128 then Inl (ErrMsg (label @ '' must contain 1..128 characters''))
      else if \<not> list_all (\<lambda>(i, ch). id_char i ch) (enumerate 0 value)
      then Inl (ErrMsg (label @ '' contains an unsupported character''))
      else Inr value)"

definition boundedRegistryText :: "string \<Rightarrow> nat \<Rightarrow> string" where
  "boundedRegistryText value maxRunes = take maxRunes (TrimSpace value)"

record ApproveOperatorInput =
  ao_OperatorID :: string
  ao_Name :: string
  ao_Actor :: string
  ao_Reason :: string

record RevokeOperatorInput =
  ro_OperatorID :: string
  ro_Actor :: string
  ro_Reason :: string

record ApproveNodeInput =
  an_NodeID :: string
  an_OperatorID :: string
  an_OperatorName :: string
  an_PublicKey :: string
  an_Actor :: string
  an_Reason :: string

record RotateNodeKeyInput =
  rk_NodeID :: string
  rk_PublicKey :: string
  rk_Overlap :: duration
  rk_Actor :: string
  rk_Reason :: string

record RevokeNodeInput =
  rn_NodeID :: string
  rn_Actor :: string
  rn_Reason :: string

definition ValidateApproveOperatorInput :: "ApproveOperatorInput \<Rightarrow> unit res" where
  "ValidateApproveOperatorInput input =
     ebind (normalizeRegistryID (ao_OperatorID input) ''operator id'') (\<lambda>_.
     ebind (require (boundedRegistryText (ao_Actor input) 256 \<noteq> [])
              (ErrMsg ''operator approval actor is required'')) (\<lambda>_.
     require (boundedRegistryText (ao_Reason input) 1024 \<noteq> [])
       (ErrMsg ''operator approval reason is required'')))"

definition ValidateRevokeOperatorInput :: "RevokeOperatorInput \<Rightarrow> unit res" where
  "ValidateRevokeOperatorInput input =
     ebind (normalizeRegistryID (ro_OperatorID input) ''operator id'') (\<lambda>_.
     ebind (require (boundedRegistryText (ro_Actor input) 256 \<noteq> [])
              (ErrMsg ''operator revocation actor is required'')) (\<lambda>_.
     require (boundedRegistryText (ro_Reason input) 1024 \<noteq> [])
       (ErrMsg ''operator revocation reason is required'')))"

definition normalizeNodeKey :: "ctx \<Rightarrow> string \<Rightarrow> (string \<times> string) res" where
  "normalizeNodeKey c key = of_row (ErrMsg ''normalize node public key'') (normalizePublicKey c key)"

definition ValidateApproveNodeInput :: "ctx \<Rightarrow> ApproveNodeInput \<Rightarrow> unit res" where
  "ValidateApproveNodeInput c input =
     ebind (normalizeRegistryID (an_NodeID input) ''node id'') (\<lambda>_.
     ebind (normalizeRegistryID (an_OperatorID input) ''operator id'') (\<lambda>_.
     ebind (require (boundedRegistryText (an_Actor input) 256 \<noteq> [])
              (ErrMsg ''approval actor is required'')) (\<lambda>_.
     ebind (normalizeNodeKey c (an_PublicKey input)) (\<lambda>_. Inr ()))))"

definition ValidateRotateNodeKeyInput :: "ctx \<Rightarrow> RotateNodeKeyInput \<Rightarrow> unit res" where
  "ValidateRotateNodeKeyInput c input =
     ebind (normalizeRegistryID (rk_NodeID input) ''node id'') (\<lambda>_.
     ebind (require (0 \<le> rk_Overlap input \<and> rk_Overlap input \<le> MaxNodeKeyRotationOverlap)
              ErrNodeKeyRotationOverlap) (\<lambda>_.
     ebind (require (boundedRegistryText (rk_Actor input) 256 \<noteq> [])
              (ErrMsg ''rotation actor is required'')) (\<lambda>_.
     ebind (normalizeNodeKey c (rk_PublicKey input)) (\<lambda>_. Inr ()))))"

definition ValidateRevokeNodeInput :: "RevokeNodeInput \<Rightarrow> unit res" where
  "ValidateRevokeNodeInput input =
     ebind (normalizeRegistryID (rn_NodeID input) ''node id'') (\<lambda>_.
     ebind (require (boundedRegistryText (rn_Actor input) 256 \<noteq> [])
              (ErrMsg ''revocation actor is required'')) (\<lambda>_.
     require (boundedRegistryText (rn_Reason input) 1024 \<noteq> [])
       (ErrMsg ''revocation reason is required'')))"

section \<open>Audit trail\<close>

definition appendNodeRegistryAuditTX ::
  "string \<Rightarrow> string \<Rightarrow> string \<Rightarrow> string \<Rightarrow> string \<Rightarrow> int \<Rightarrow> string \<Rightarrow> db \<Rightarrow> db" where
  "appendNodeRegistryAuditTX nodeID operatorID action actor reason keyVersion fingerprint d =
     d\<lparr>node_registry_audit := node_registry_audit d
        @ [\<lparr>na_node_id = nodeID, na_operator_id = operatorID, na_action = action, na_actor = actor,
            na_reason = reason, na_key_version = keyVersion,
            na_fingerprint = (if fingerprint = [] then None else Some fingerprint)\<rparr>]\<rparr>"

text \<open>The table checks \<open>BTRIM(actor) <> ''\<close> and \<open>BTRIM(reason) <> ''\<close>.\<close>

definition appendOperatorRegistryAuditTX ::
  "string \<Rightarrow> string \<Rightarrow> string \<Rightarrow> string \<Rightarrow> db \<Rightarrow> db res" where
  "appendOperatorRegistryAuditTX operatorID action actor reason d =
     (if sql_trim actor = [] then Inl (ErrConstraint ''operator_registry_audit_actor_check'')
      else if sql_trim reason = [] then Inl (ErrConstraint ''operator_registry_audit_reason_check'')
      else Inr (d\<lparr>operator_registry_audit := operator_registry_audit d
        @ [\<lparr>oa_operator_id = operatorID, oa_action = action, oa_actor = actor, oa_reason = reason\<rparr>]\<rparr>))"

section \<open>Operators\<close>

definition find_operator :: "string \<Rightarrow> db \<Rightarrow> node_operator option" where
  "find_operator operatorID d = find (\<lambda>op. o_id op = operatorID) (node_operators d)"

definition find_node :: "string \<Rightarrow> db \<Rightarrow> approved_node option" where
  "find_node nodeID d = find (\<lambda>n. n_node_id n = nodeID) (approved_nodes d)"

definition NodeOperator :: "string \<Rightarrow> db \<Rightarrow> node_operator res" where
  "NodeOperator operatorID0 d =
     (case normalizeRegistryID operatorID0 ''operator id'' of
        Inl _ \<Rightarrow> Inl ErrNodeOperatorNotFound
      | Inr operatorID \<Rightarrow> of_row ErrNodeOperatorNotFound (find_operator operatorID d))"

text \<open>\<open>INSERT INTO node_operators ... ON CONFLICT DO NOTHING\<close>, with whether a row was inserted.\<close>

definition insertOperator :: "ctx \<Rightarrow> string \<Rightarrow> string \<Rightarrow> db \<Rightarrow> bool \<times> db" where
  "insertOperator c operatorID name d =
     (if find_operator operatorID d \<noteq> None then (False, d)
      else (True, d\<lparr>node_operators := node_operators d
             @ [\<lparr>o_id = operatorID, o_name = name, o_status = ''approved'', o_approved_at = db_now c,
                 o_revoked_at = None, o_updated_at = db_now c\<rparr>]\<rparr>))"

definition ApproveOperator :: "ctx \<Rightarrow> ApproveOperatorInput \<Rightarrow> node_operator res tx" where
  "ApproveOperator c input d =
     ebind (normalizeRegistryID (ao_OperatorID input) ''operator id'') (\<lambda>operatorID.
     let name0 = boundedRegistryText (ao_Name input) 256;
         name = (if name0 = [] then operatorID else name0);
         actor = boundedRegistryText (ao_Actor input) 256;
         reason = boundedRegistryText (ao_Reason input) 1024;
         now = go_now c
     in if actor = [] then Inl (ErrMsg ''operator approval actor is required'')
        else if reason = [] then Inl (ErrMsg ''operator approval reason is required'')
        else let (inserted, d1) = insertOperator c operatorID name d in
          ebind (of_row ErrNoRows (find_operator operatorID d1)) (\<lambda>row.
          ebind (if \<not> inserted \<and> o_status row = ''revoked''
                 then Inr (''reactivate'', d1\<lparr>node_operators := update_where (\<lambda>op. o_id op = operatorID)
                        (\<lambda>op. op\<lparr>o_name := name, o_status := ''approved'', o_approved_at := now,
                                 o_revoked_at := None, o_updated_at := now\<rparr>) (node_operators d1)\<rparr>)
                 else if o_status row \<noteq> ''approved'' then Inl (ErrMsg ''unsupported node operator status'')
                 else Inr (''approve'', d1\<lparr>node_operators := update_where (\<lambda>op. o_id op = operatorID)
                        (\<lambda>op. op\<lparr>o_name := name, o_updated_at := now\<rparr>) (node_operators d1)\<rparr>))
            (\<lambda>(action, d2).
               ebind (appendOperatorRegistryAuditTX operatorID action actor reason d2) (\<lambda>d3.
                 Inr (NodeOperator operatorID d3, d3)))))"

definition RevokeOperator :: "ctx \<Rightarrow> RevokeOperatorInput \<Rightarrow> node_operator res tx" where
  "RevokeOperator c input d =
     ebind (normalizeRegistryID (ro_OperatorID input) ''operator id'') (\<lambda>operatorID.
     let actor = boundedRegistryText (ro_Actor input) 256;
         reason = boundedRegistryText (ro_Reason input) 1024;
         now = go_now c
     in if actor = [] then Inl (ErrMsg ''operator revocation actor is required'')
        else if reason = [] then Inl (ErrMsg ''operator revocation reason is required'')
        else ebind (of_row ErrNodeOperatorNotFound (find_operator operatorID d)) (\<lambda>row.
          if o_status row = ''revoked'' then Inr (NodeOperator operatorID d, d)
          else if o_status row \<noteq> ''approved'' then Inl (ErrMsg ''unsupported node operator status'')
          else ebind (appendOperatorRegistryAuditTX operatorID ''revoke'' actor reason
                  (d\<lparr>node_operators := update_where (\<lambda>op. o_id op = operatorID)
                      (\<lambda>op. op\<lparr>o_status := ''revoked'', o_revoked_at := Some now, o_updated_at := now\<rparr>)
                      (node_operators d)\<rparr>))
            (\<lambda>d1. Inr (NodeOperator operatorID d1, d1))))"

section \<open>Nodes and keys\<close>

record ApprovedNodeView =
  av_node :: approved_node
  av_operator_name :: string
  av_operator_status :: string
  av_keys :: "approved_node_key list"

definition listNodeKeys :: "string \<Rightarrow> db \<Rightarrow> approved_node_key list" where
  "listNodeKeys nodeID d =
     rev (sort_key k_key_version (filter (\<lambda>k. k_node_id k = nodeID) (approved_node_keys d)))"

definition ApprovedNode :: "string \<Rightarrow> db \<Rightarrow> ApprovedNodeView res" where
  "ApprovedNode nodeID0 d =
     (case normalizeRegistryID nodeID0 ''node id'' of
        Inl _ \<Rightarrow> Inl ErrApprovedNodeNotFound
      | Inr nodeID \<Rightarrow>
          ebind (of_row ErrApprovedNodeNotFound (find_node nodeID d)) (\<lambda>n.
          ebind (of_row ErrApprovedNodeNotFound (find_operator (n_operator_id n) d)) (\<lambda>op.
            Inr \<lparr>av_node = n, av_operator_name = o_name op, av_operator_status = o_status op,
                 av_keys = listNodeKeys nodeID d\<rparr>)))"

definition active_key :: "string \<Rightarrow> int \<Rightarrow> db \<Rightarrow> approved_node_key option" where
  "active_key nodeID keyVersion d =
     find (\<lambda>k. k_node_id k = nodeID \<and> k_key_version k = keyVersion \<and> k_state k = ''active'')
       (approved_node_keys d)"

text \<open>\<open>INSERT INTO approved_node_keys\<close>, with the table's primary key and unique indexes.\<close>

definition insertNodeKey :: "approved_node_key \<Rightarrow> db \<Rightarrow> db res" where
  "insertNodeKey key d =
     (if \<exists>k \<in> set (approved_node_keys d). k_node_id k = k_node_id key \<and> k_key_version k = k_key_version key
      then Inl (ErrConstraint ''approved_node_keys_pkey'')
      else if \<exists>k \<in> set (approved_node_keys d). k_fingerprint k = k_fingerprint key
      then Inl (ErrConstraint ''approved_node_keys_fingerprint_sha256_key'')
      else if \<exists>k \<in> set (approved_node_keys d).
                k_node_id k = k_node_id key \<and> k_state k = ''active'' \<and> k_state key = ''active''
      then Inl (ErrConstraint ''idx_approved_node_keys_one_active'')
      else Inr (d\<lparr>approved_node_keys := approved_node_keys d @ [key]\<rparr>))"

definition ApproveNode :: "ctx \<Rightarrow> ApproveNodeInput \<Rightarrow> ApprovedNodeView res tx" where
  "ApproveNode c input d =
     ebind (normalizeRegistryID (an_NodeID input) ''node id'') (\<lambda>nodeID.
     ebind (normalizeRegistryID (an_OperatorID input) ''operator id'') (\<lambda>operatorID.
     let name0 = boundedRegistryText (an_OperatorName input) 256;
         operatorName = (if name0 = [] then operatorID else name0);
         actor = boundedRegistryText (an_Actor input) 256;
         reason = boundedRegistryText (an_Reason input) 1024
     in if actor = [] then Inl (ErrMsg ''approval actor is required'')
        else ebind (normalizeNodeKey c (an_PublicKey input)) (\<lambda>(publicKey, fingerprint).
          let (operatorInserted, d1) = insertOperator c operatorID operatorName d in
          ebind (of_row ErrNoRows (find_operator operatorID d1)) (\<lambda>op.
          if o_status op \<noteq> ''approved'' then Inl ErrNodeOperatorRevoked
          else ebind (if operatorInserted
                      then appendOperatorRegistryAuditTX operatorID ''approve'' actor reason d1
                      else Inr d1) (\<lambda>d2.
          case find_node nodeID d2 of
            Some n \<Rightarrow>
              if n_status n \<noteq> ''approved'' then Inl ErrApprovedNodeRevoked
              else ebind (of_row ErrNoRows (active_key nodeID (n_active_key_version n) d2)) (\<lambda>k.
                if n_operator_id n \<noteq> operatorID \<or> k_fingerprint k \<noteq> fingerprint then Inl ErrApprovedNodeExists
                else Inr (ApprovedNode nodeID d2, d2))
          | None \<Rightarrow>
              ebind (insertNodeKey \<lparr>k_node_id = nodeID, k_key_version = 1, k_public_key = publicKey,
                        k_fingerprint = fingerprint, k_state = ''active'', k_valid_from = db_now c,
                        k_valid_until = None, k_retired_at = None\<rparr>
                      (d2\<lparr>approved_nodes := approved_nodes d2
                         @ [\<lparr>n_node_id = nodeID, n_operator_id = operatorID, n_status = ''approved'',
                             n_active_key_version = 1, n_revoked_at = None, n_updated_at = db_now c\<rparr>]\<rparr>))
                (\<lambda>d3. let d4 = appendNodeRegistryAuditTX nodeID operatorID ''approve'' actor reason 1 fingerprint d3
                      in Inr (ApprovedNode nodeID d4, d4)))))))"

definition EnrollDevelopmentNode :: "ctx \<Rightarrow> string \<Rightarrow> string \<Rightarrow> ApprovedNodeView res tx" where
  "EnrollDevelopmentNode c nodeID publicKey d =
     ApproveNode c \<lparr>an_NodeID = nodeID, an_OperatorID = ''development'',
       an_OperatorName = ''Development auto-enrollment'', an_PublicKey = publicKey,
       an_Actor = ''development-auto-enrollment'',
       an_Reason = ''development-only heartbeat enrollment''\<rparr> d"

text \<open>The three updates of a rotation: overlap keys retire, the active key overlaps or retires.\<close>

definition retire_overlap_keys :: "string \<Rightarrow> time \<Rightarrow> approved_node_key list \<Rightarrow> approved_node_key list" where
  "retire_overlap_keys nodeID now =
     update_where (\<lambda>k. k_node_id k = nodeID \<and> k_state k = ''overlap'')
       (\<lambda>k. k\<lparr>k_state := ''retired'', k_valid_until := Some (coalesce (k_valid_until k) now),
              k_retired_at := Some (coalesce (k_retired_at k) now)\<rparr>)"

definition demote_active_key :: "string \<Rightarrow> int \<Rightarrow> duration \<Rightarrow> time \<Rightarrow> approved_node_key list \<Rightarrow> approved_node_key list" where
  "demote_active_key nodeID keyVersion overlap now =
     update_where (\<lambda>k. k_node_id k = nodeID \<and> k_key_version k = keyVersion \<and> k_state k = ''active'')
       (\<lambda>k. if overlap > 0 then k\<lparr>k_state := ''overlap'', k_valid_until := Some (now + overlap)\<rparr>
            else k\<lparr>k_state := ''retired'', k_valid_until := Some now, k_retired_at := Some now\<rparr>)"

definition RotateNodeKey :: "ctx \<Rightarrow> RotateNodeKeyInput \<Rightarrow> ApprovedNodeView res tx" where
  "RotateNodeKey c input d =
     ebind (normalizeRegistryID (rk_NodeID input) ''node id'') (\<lambda>nodeID.
     if rk_Overlap input < 0 \<or> rk_Overlap input > MaxNodeKeyRotationOverlap then Inl ErrNodeKeyRotationOverlap
     else let actor = boundedRegistryText (rk_Actor input) 256;
              reason = boundedRegistryText (rk_Reason input) 1024;
              now = go_now c
     in if actor = [] then Inl (ErrMsg ''rotation actor is required'')
        else ebind (normalizeNodeKey c (rk_PublicKey input)) (\<lambda>(publicKey, fingerprint).
        ebind (of_row ErrApprovedNodeNotFound (find_node nodeID d)) (\<lambda>n.
        ebind (of_row ErrApprovedNodeNotFound (find_operator (n_operator_id n) d)) (\<lambda>op.
        if n_status n \<noteq> ''approved'' then Inl ErrApprovedNodeRevoked
        else if o_status op \<noteq> ''approved'' then Inl ErrNodeOperatorRevoked
        else ebind (of_row ErrNoRows (active_key nodeID (n_active_key_version n) d)) (\<lambda>k.
        if k_fingerprint k = fingerprint then Inl ErrNodeKeyAlreadyActive
        else let newKeyVersion = n_active_key_version n + 1;
                 d1 = d\<lparr>approved_node_keys :=
                        demote_active_key nodeID (n_active_key_version n) (rk_Overlap input) now
                          (retire_overlap_keys nodeID now (approved_node_keys d))\<rparr>
             in ebind (insertNodeKey \<lparr>k_node_id = nodeID, k_key_version = newKeyVersion,
                         k_public_key = publicKey, k_fingerprint = fingerprint, k_state = ''active'',
                         k_valid_from = now, k_valid_until = None, k_retired_at = None\<rparr> d1)
               (\<lambda>d2. let d3 = d2\<lparr>approved_nodes := update_where (\<lambda>n. n_node_id n = nodeID)
                             (\<lambda>n. n\<lparr>n_active_key_version := newKeyVersion, n_updated_at := now\<rparr>)
                             (approved_nodes d2)\<rparr>;
                          d4 = appendNodeRegistryAuditTX nodeID (n_operator_id n) ''rotate'' actor reason
                                 newKeyVersion fingerprint d3
                      in Inr (ApprovedNode nodeID d4, d4)))))))"

definition RevokeNode :: "ctx \<Rightarrow> RevokeNodeInput \<Rightarrow> ApprovedNodeView res tx" where
  "RevokeNode c input d =
     ebind (normalizeRegistryID (rn_NodeID input) ''node id'') (\<lambda>nodeID.
     let actor = boundedRegistryText (rn_Actor input) 256;
         reason = boundedRegistryText (rn_Reason input) 1024;
         now = go_now c
     in if actor = [] then Inl (ErrMsg ''revocation actor is required'')
        else if reason = [] then Inl (ErrMsg ''revocation reason is required'')
        else ebind (of_row ErrApprovedNodeNotFound (find_node nodeID d)) (\<lambda>n.
          if n_status n = ''revoked'' then Inr (ApprovedNode nodeID d, d)
          else let d1 = d\<lparr>approved_nodes := update_where (\<lambda>n. n_node_id n = nodeID)
                       (\<lambda>n. n\<lparr>n_status := ''revoked'', n_revoked_at := Some now, n_updated_at := now\<rparr>)
                       (approved_nodes d),
                     approved_node_keys := update_where
                       (\<lambda>k. k_node_id k = nodeID \<and> (k_state k = ''active'' \<or> k_state k = ''overlap''))
                       (\<lambda>k. k\<lparr>k_state := ''revoked'', k_valid_until := Some (coalesce (k_valid_until k) now),
                              k_retired_at := Some (coalesce (k_retired_at k) now)\<rparr>)
                       (approved_node_keys d)\<rparr>;
                   d2 = appendNodeRegistryAuditTX nodeID (n_operator_id n) ''revoke'' actor reason
                          (n_active_key_version n) [] d1
               in Inr (ApprovedNode nodeID d2, d2)))"

text \<open>The key condition the authorization and readiness queries share.\<close>

definition key_usable :: "time \<Rightarrow> approved_node \<Rightarrow> approved_node_key \<Rightarrow> bool" where
  "key_usable now n k \<longleftrightarrow> (k_state k = ''active'' \<and> k_key_version k = n_active_key_version n)
     \<or> (k_state k = ''overlap'' \<and> (case k_valid_until k of None \<Rightarrow> False | Some t \<Rightarrow> t > now))"

definition AuthorizedNodeKeys :: "ctx \<Rightarrow> string \<Rightarrow> db \<Rightarrow> approved_node_key list res" where
  "AuthorizedNodeKeys c nodeID0 d =
     (case normalizeRegistryID nodeID0 ''node id'' of
        Inl _ \<Rightarrow> Inl ErrApprovedNodeNotFound
      | Inr nodeID \<Rightarrow>
          (case find_node nodeID d of None \<Rightarrow> Inl ErrApprovedNodeNotFound
           | Some n \<Rightarrow>
              (case find_operator (n_operator_id n) d of None \<Rightarrow> Inl ErrApprovedNodeNotFound
               | Some op \<Rightarrow>
                  let keys = filter (\<lambda>k. n_status n = ''approved'' \<and> o_status op = ''approved''
                               \<and> key_usable (db_now c) n k) (listNodeKeys nodeID d)
                  in if keys = [] then Inl ErrApprovedNodeNotFound else Inr keys)))"

section \<open>The registry's invariant\<close>

text \<open>
  Ids are unique, fingerprints are never reused, a node has at most one active and one overlap key
  (\<open>idx_approved_node_keys_one_active\<close> and \<open>_one_overlap\<close>), an approved node's active key has its
  active version, no key of a node has a higher version, overlap keys have an end, a revoked node
  has neither active nor overlap keys, nodes and keys refer to operators and nodes there are, and
  node ids are in the form requests are normalised to.
\<close>

definition node_keys_ok :: "approved_node_key list \<Rightarrow> approved_node \<Rightarrow> bool" where
  "node_keys_ok ks n \<longleftrightarrow>
     (\<forall>k \<in> set ks. k_node_id k = n_node_id n \<longrightarrow>
        k_key_version k \<le> n_active_key_version n
        \<and> (k_state k = ''active'' \<longrightarrow> k_key_version k = n_active_key_version n)
        \<and> (n_status n \<noteq> ''approved'' \<longrightarrow> k_state k \<noteq> ''active'' \<and> k_state k \<noteq> ''overlap''))"

definition registry_wf :: "db \<Rightarrow> bool" where
  "registry_wf d \<longleftrightarrow>
     distinct (map o_id (node_operators d)) \<and> distinct (map n_node_id (approved_nodes d))
     \<and> distinct (map k_fingerprint (approved_node_keys d))
     \<and> unique_where (\<lambda>k. k_state k = ''active'') k_node_id (approved_node_keys d)
     \<and> unique_where (\<lambda>k. k_state k = ''overlap'') k_node_id (approved_node_keys d)
     \<and> (\<forall>n \<in> set (approved_nodes d). node_keys_ok (approved_node_keys d) n)
     \<and> (\<forall>k \<in> set (approved_node_keys d). k_node_id k \<in> n_node_id ` set (approved_nodes d))
     \<and> (\<forall>n \<in> set (approved_nodes d). n_operator_id n \<in> o_id ` set (node_operators d))
     \<and> (\<forall>n \<in> set (approved_nodes d). normalizeRegistryID (n_node_id n) ''node id'' = Inr (n_node_id n))"

lemma normalizeRegistryID_idem:
  "normalizeRegistryID x l = Inr y \<Longrightarrow> normalizeRegistryID y l' = Inr y"
  by (auto simp: normalizeRegistryID_def Let_def split: if_splits)

lemma registry_wf_empty: "registry_wf empty_db"
  by (simp add: registry_wf_def empty_db_def unique_where_def)

text \<open>The tables of the registry; the other tables do not matter to it.\<close>

lemma registry_wf_cong:
  "node_operators d' = node_operators d \<Longrightarrow> approved_nodes d' = approved_nodes d \<Longrightarrow>
   approved_node_keys d' = approved_node_keys d \<Longrightarrow> registry_wf d' = registry_wf d"
  by (simp add: registry_wf_def)

lemma audit_frame [simp]:
  "node_operators (appendNodeRegistryAuditTX a b e f g h i d) = node_operators d"
  "approved_nodes (appendNodeRegistryAuditTX a b e f g h i d) = approved_nodes d"
  "approved_node_keys (appendNodeRegistryAuditTX a b e f g h i d) = approved_node_keys d"
  by (simp_all add: appendNodeRegistryAuditTX_def)

lemma operator_audit_frame:
  assumes "appendOperatorRegistryAuditTX a b e f d = Inr d'"
  shows "node_operators d' = node_operators d" "approved_nodes d' = approved_nodes d"
    "approved_node_keys d' = approved_node_keys d"
  using assms by (auto simp: appendOperatorRegistryAuditTX_def split: if_splits)

text \<open>
  A step on operators keeps the ids there are, keeps ids distinct, and leaves the other tables
  alone.
\<close>

definition operators_only :: "db \<Rightarrow> db \<Rightarrow> bool" where
  "operators_only d d' \<longleftrightarrow> approved_nodes d' = approved_nodes d \<and> approved_node_keys d' = approved_node_keys d
     \<and> o_id ` set (node_operators d) \<subseteq> o_id ` set (node_operators d')
     \<and> (distinct (map o_id (node_operators d)) \<longrightarrow> distinct (map o_id (node_operators d')))"

lemma operators_only_wf: "operators_only d d' \<Longrightarrow> registry_wf d \<Longrightarrow> registry_wf d'"
  unfolding operators_only_def registry_wf_def by (simp add: subset_iff)

lemma operators_only_refl [simp]: "operators_only d d"
  by (simp add: operators_only_def)

lemma operators_only_trans: "operators_only d d1 \<Longrightarrow> operators_only d1 d2 \<Longrightarrow> operators_only d d2"
  unfolding operators_only_def by auto

lemma operators_only_update:
  assumes "\<And>op. o_id (f op) = o_id op"
  shows "operators_only d (d\<lparr>node_operators := update_where P f (node_operators d)\<rparr>)"
proof -
  have ids: "map o_id (update_where P f (node_operators d)) = map o_id (node_operators d)"
    by (rule map_update_where) (rule assms)
  then have "o_id ` set (update_where P f (node_operators d)) = o_id ` set (node_operators d)"
    by (metis set_map)
  with ids show ?thesis unfolding operators_only_def by simp
qed

lemma operators_only_audit:
  "appendOperatorRegistryAuditTX a b e f d = Inr d' \<Longrightarrow> operators_only d d'"
  unfolding operators_only_def by (simp add: operator_audit_frame)

lemma operators_only_insert: "operators_only d (snd (insertOperator c i n d))"
  unfolding operators_only_def insertOperator_def find_operator_def
  by (auto simp: find_None_iff)

lemma insertOperator_snd: "insertOperator c i n d = (b, d1) \<Longrightarrow> operators_only d d1"
  using operators_only_insert [of d c i n] by simp

lemma ApproveOperator_only:
  assumes "ApproveOperator c input d = Inr (x, d')"
  shows "operators_only d d'"
proof -
  obtain i where i: "normalizeRegistryID (ao_OperatorID input) ''operator id'' = Inr i"
    using assms by (auto simp: ApproveOperator_def res_simps)
  define nm where "nm = (if boundedRegistryText (ao_Name input) 256 = [] then i else boundedRegistryText (ao_Name input) 256)"
  obtain b d1 where ins: "insertOperator c i nm d = (b, d1)" by (metis prod.exhaust)
  note only1 = insertOperator_snd [OF ins]
  obtain action d2 d3 where d2: "d2 = d1\<lparr>node_operators := update_where (\<lambda>op. o_id op = i)
            (\<lambda>op. op\<lparr>o_name := nm, o_status := ''approved'', o_approved_at := go_now c,
                                 o_revoked_at := None, o_updated_at := go_now c\<rparr>) (node_operators d1)\<rparr>
        \<or> d2 = d1\<lparr>node_operators := update_where (\<lambda>op. o_id op = i)
                        (\<lambda>op. op\<lparr>o_name := nm, o_updated_at := go_now c\<rparr>) (node_operators d1)\<rparr>"
      and d3: "appendOperatorRegistryAuditTX i action (boundedRegistryText (ao_Actor input) 256)
            (boundedRegistryText (ao_Reason input) 1024) d2 = Inr d3" "d' = d3"
    using assms unfolding ApproveOperator_def i ebind_simps Let_def nm_def [symmetric] ins prod.case
    by (auto simp: res_simps split: if_splits)
  from d2 have "operators_only d1 d2" by (auto intro: operators_only_update)
  with only1 operators_only_audit [OF d3(1)] d3(2) show ?thesis by (blast intro: operators_only_trans)
qed

lemma RevokeOperator_only:
  assumes "RevokeOperator c input d = Inr (x, d')"
  shows "operators_only d d'"
proof -
  obtain i where i: "normalizeRegistryID (ro_OperatorID input) ''operator id'' = Inr i"
    using assms by (auto simp: RevokeOperator_def res_simps)
  have "d' = d \<or> appendOperatorRegistryAuditTX i ''revoke'' (boundedRegistryText (ro_Actor input) 256)
      (boundedRegistryText (ro_Reason input) 1024)
      (d\<lparr>node_operators := update_where (\<lambda>op. o_id op = i)
          (\<lambda>op. op\<lparr>o_status := ''revoked'', o_revoked_at := Some (go_now c), o_updated_at := go_now c\<rparr>)
          (node_operators d)\<rparr>) = Inr d'"
    using assms unfolding RevokeOperator_def i ebind_simps Let_def
    by (auto simp: res_simps split: if_splits)
  then show ?thesis
  proof
    assume "appendOperatorRegistryAuditTX i ''revoke'' (boundedRegistryText (ro_Actor input) 256)
      (boundedRegistryText (ro_Reason input) 1024)
      (d\<lparr>node_operators := update_where (\<lambda>op. o_id op = i)
          (\<lambda>op. op\<lparr>o_status := ''revoked'', o_revoked_at := Some (go_now c), o_updated_at := go_now c\<rparr>)
          (node_operators d)\<rparr>) = Inr d'"
    from operators_only_audit [OF this] show ?thesis
      by (rule operators_only_trans [OF operators_only_update, rotated]) simp
  qed simp
qed

lemma insertNodeKey_cases:
  assumes "insertNodeKey key d = Inr d'"
  shows "d' = d\<lparr>approved_node_keys := approved_node_keys d @ [key]\<rparr>"
    and "\<forall>k \<in> set (approved_node_keys d). k_fingerprint k \<noteq> k_fingerprint key"
    and "k_state key = ''active'' \<Longrightarrow> \<forall>k \<in> set (approved_node_keys d). k_state k = ''active'' \<longrightarrow> k_node_id k \<noteq> k_node_id key"
  using assms by (auto simp: insertNodeKey_def split: if_splits)

text \<open>A new node: it and its first key are added, everything else in the registry is kept.\<close>

lemma ApproveNode_cases:
  assumes "ApproveNode c input d = Inr (x, d')"
  obtains (known) "operators_only d d'"
  | (new) d2 i op k n where "operators_only d d2" "op \<in> set (node_operators d2)"
      "node_operators d' = node_operators d2"
      "approved_nodes d' = approved_nodes d @ [n]" "approved_node_keys d' = approved_node_keys d @ [k]"
      "n_node_id n = i" "n_operator_id n = o_id op" "n_status n = ''approved''" "n_active_key_version n = 1"
      "k_node_id k = i" "k_key_version k = 1" "k_state k = ''active''"
      "\<forall>m \<in> set (approved_nodes d). n_node_id m \<noteq> i"
      "\<forall>q \<in> set (approved_node_keys d). k_fingerprint q \<noteq> k_fingerprint k"
      "normalizeRegistryID i ''node id'' = Inr i"
proof -
  obtain i j where ij: "normalizeRegistryID (an_NodeID input) ''node id'' = Inr i"
      "normalizeRegistryID (an_OperatorID input) ''operator id'' = Inr j"
    using assms unfolding ApproveNode_def by (auto simp: res_simps)
  obtain pk fp where key: "normalizeNodeKey c (an_PublicKey input) = Inr (pk, fp)"
    using assms unfolding ApproveNode_def ij by (auto simp: res_simps Let_def split: if_splits)
  define nm where "nm = (if boundedRegistryText (an_OperatorName input) 256 = [] then j else boundedRegistryText (an_OperatorName input) 256)"
  obtain b d1 where ins: "insertOperator c j nm d = (b, d1)" by (metis prod.exhaust)
  note only1 = insertOperator_snd [OF ins]
  define actor reason where "actor = boundedRegistryText (an_Actor input) 256"
    and "reason = boundedRegistryText (an_Reason input) 1024"
  note ap = assms [unfolded ApproveNode_def ij ebind_simps key prod.case Let_def nm_def [symmetric] ins
      actor_def [symmetric] reason_def [symmetric]]
  obtain op where op: "find_operator j d1 = Some op"
    using ap by (auto simp: res_simps split: if_splits)
  obtain d2 where d2: "(if b then appendOperatorRegistryAuditTX j ''approve'' actor reason d1 else Inr d1) = Inr d2"
    using ap unfolding op by (auto simp: res_simps split: if_splits)
  have only12: "operators_only d1 d2" "node_operators d2 = node_operators d1"
    using d2 by (auto split: if_splits dest: operators_only_audit operator_audit_frame)
  have only2: "operators_only d d2" using only1 only12(1) by (rule operators_only_trans)
  have nodes2: "approved_nodes d2 = approved_nodes d" "approved_node_keys d2 = approved_node_keys d"
    using only2 by (simp_all add: operators_only_def)
  note ap2 = ap [unfolded op d2 of_row_simps ebind_simps]
  show thesis
  proof (cases "find_node i d2")
    case (Some n)
    with ap2 have "d' = d2" by (auto simp: res_simps split: if_splits)
    with only2 show thesis using known by simp
  next
    case None
    let ?n = "\<lparr>n_node_id = i, n_operator_id = j, n_status = ''approved'',
                             n_active_key_version = 1, n_revoked_at = None, n_updated_at = db_now c\<rparr>"
    let ?k = "\<lparr>k_node_id = i, k_key_version = 1, k_public_key = pk,
                        k_fingerprint = fp, k_state = ''active'', k_valid_from = db_now c,
                        k_valid_until = None, k_retired_at = None\<rparr>"
    from ap2 None obtain d3 where d3: "insertNodeKey ?k (d2\<lparr>approved_nodes := approved_nodes d2 @ [?n]\<rparr>) = Inr d3"
        "d' = appendNodeRegistryAuditTX i j ''approve'' actor reason 1 fp d3"
      by (auto simp: res_simps split: if_splits)
    note ik = insertNodeKey_cases [OF d3(1)]
    have "op \<in> set (node_operators d2)" "o_id op = j"
      using op only12(2) by (auto simp: find_operator_def dest!: find_SomeD)
    moreover have "\<forall>m \<in> set (approved_nodes d). n_node_id m \<noteq> i"
      using None nodes2 by (auto simp: find_node_def find_None_iff)
    ultimately show thesis
      using only2 d3(2) ik(1,2) nodes2 normalizeRegistryID_idem [OF ij(1)]
      by (intro new [of d2 op ?n ?k i]) simp_all
  qed
qed

lemma registry_wfD:
  assumes "registry_wf d"
  shows "distinct (map o_id (node_operators d))" "distinct (map n_node_id (approved_nodes d))"
    "distinct (map k_fingerprint (approved_node_keys d))"
    "unique_where (\<lambda>k. k_state k = ''active'') k_node_id (approved_node_keys d)"
    "unique_where (\<lambda>k. k_state k = ''overlap'') k_node_id (approved_node_keys d)"
    "\<And>n. n \<in> set (approved_nodes d) \<Longrightarrow> node_keys_ok (approved_node_keys d) n"
    "\<And>k. k \<in> set (approved_node_keys d) \<Longrightarrow> k_node_id k \<in> n_node_id ` set (approved_nodes d)"
    "\<And>n. n \<in> set (approved_nodes d) \<Longrightarrow> n_operator_id n \<in> o_id ` set (node_operators d)"
    "\<And>n. n \<in> set (approved_nodes d) \<Longrightarrow> normalizeRegistryID (n_node_id n) ''node id'' = Inr (n_node_id n)"
  using assms by (simp_all add: registry_wf_def)

lemma registry_wfI:
  assumes "distinct (map o_id (node_operators d))" "distinct (map n_node_id (approved_nodes d))"
    "distinct (map k_fingerprint (approved_node_keys d))"
    "unique_where (\<lambda>k. k_state k = ''active'') k_node_id (approved_node_keys d)"
    "unique_where (\<lambda>k. k_state k = ''overlap'') k_node_id (approved_node_keys d)"
    "\<And>n. n \<in> set (approved_nodes d) \<Longrightarrow> node_keys_ok (approved_node_keys d) n"
    "\<And>k. k \<in> set (approved_node_keys d) \<Longrightarrow> k_node_id k \<in> n_node_id ` set (approved_nodes d)"
    "\<And>n. n \<in> set (approved_nodes d) \<Longrightarrow> n_operator_id n \<in> o_id ` set (node_operators d)"
    "\<And>i. i \<in> n_node_id ` set (approved_nodes d) \<Longrightarrow> normalizeRegistryID i ''node id'' = Inr i"
  shows "registry_wf d"
  using assms by (simp add: registry_wf_def)

lemma ApproveNode_wf:
  assumes "registry_wf d" "ApproveNode c input d = Inr (x, d')"
  shows "registry_wf d'"
  using assms(2)
proof (cases rule: ApproveNode_cases)
  case known
  then show ?thesis using assms(1) by (rule operators_only_wf)
next
  case (new d2 i op k n)
  have nodes2: "approved_nodes d2 = approved_nodes d" "approved_node_keys d2 = approved_node_keys d"
    using new(1) by (simp_all add: operators_only_def)
  note wf2 = registry_wfD [OF operators_only_wf [OF new(1) assms(1)], unfolded nodes2]
  have keys_of: "k_node_id q \<noteq> i" if "q \<in> set (approved_node_keys d)" for q
    using wf2(7) [OF that] new(13) by auto
  show ?thesis
  proof (rule registry_wfI)
    show "distinct (map o_id (node_operators d'))" using wf2(1) new(3) by simp
    show "distinct (map n_node_id (approved_nodes d'))" using wf2(2) new(4,6,13) by (simp add: image_iff) blast
    show "distinct (map k_fingerprint (approved_node_keys d'))" using wf2(3) new(5,14) by (simp add: image_iff) metis
    show "unique_where (\<lambda>k. k_state k = ''active'') k_node_id (approved_node_keys d')"
      "unique_where (\<lambda>k. k_state k = ''overlap'') k_node_id (approved_node_keys d')"
      using wf2(4,5) new(5,10,12) keys_of by (simp_all add: unique_where_append1)
    show "node_keys_ok (approved_node_keys d') m" if "m \<in> set (approved_nodes d')" for m
    proof (cases "m = n")
      case True
      then show ?thesis using new keys_of by (simp add: node_keys_ok_def)
    next
      case False
      then have "m \<in> set (approved_nodes d)" using that new(4) by simp
      with wf2(6) [OF this] new(5,10,13) show ?thesis by (auto simp: node_keys_ok_def)
    qed
    show "k_node_id q \<in> n_node_id ` set (approved_nodes d')" if "q \<in> set (approved_node_keys d')" for q
      using that wf2(7) [of q] new(4,5,6,10) by auto
    show "n_operator_id m \<in> o_id ` set (node_operators d')" if "m \<in> set (approved_nodes d')" for m
      using that wf2(8) [of m] new(2,3,4,7) by auto
    show "normalizeRegistryID j ''node id'' = Inr j" if "j \<in> n_node_id ` set (approved_nodes d')" for j
      using that wf2(9) new(4,6,15) by auto
  qed
qed

lemma RevokeNode_cases:
  assumes "RevokeNode c input d = Inr (x, d')"
  obtains i n where "normalizeRegistryID (rn_NodeID input) ''node id'' = Inr i" "find_node i d = Some n"
    "(n_status n = ''revoked'' \<and> d' = d) \<or>
     (node_operators d' = node_operators d
      \<and> approved_nodes d' = update_where (\<lambda>n. n_node_id n = i)
           (\<lambda>n. n\<lparr>n_status := ''revoked'', n_revoked_at := Some (go_now c), n_updated_at := go_now c\<rparr>) (approved_nodes d)
      \<and> approved_node_keys d' = update_where
           (\<lambda>k. k_node_id k = i \<and> (k_state k = ''active'' \<or> k_state k = ''overlap''))
           (\<lambda>k. k\<lparr>k_state := ''revoked'', k_valid_until := Some (coalesce (k_valid_until k) (go_now c)),
                  k_retired_at := Some (coalesce (k_retired_at k) (go_now c))\<rparr>) (approved_node_keys d))"
proof -
  obtain i where i: "normalizeRegistryID (rn_NodeID input) ''node id'' = Inr i"
    using assms unfolding RevokeNode_def by (auto simp: res_simps)
  obtain n where n: "find_node i d = Some n"
    using assms unfolding RevokeNode_def i by (auto simp: res_simps Let_def split: if_splits)
  show thesis
    using assms n unfolding RevokeNode_def i ebind_simps n Let_def of_row_simps
    by (intro that [OF i n]) (simp split: if_splits, auto)
qed

lemma RevokeNode_wf:
  assumes "registry_wf d" "RevokeNode c input d = Inr (x, d')"
  shows "registry_wf d'"
  using assms(2)
proof (rule RevokeNode_cases)
  fix i n
  assume "find_node i d = Some n"
    and sh: "(n_status n = ''revoked'' \<and> d' = d) \<or>
     (node_operators d' = node_operators d
      \<and> approved_nodes d' = update_where (\<lambda>n. n_node_id n = i)
           (\<lambda>n. n\<lparr>n_status := ''revoked'', n_revoked_at := Some (go_now c), n_updated_at := go_now c\<rparr>) (approved_nodes d)
      \<and> approved_node_keys d' = update_where
           (\<lambda>k. k_node_id k = i \<and> (k_state k = ''active'' \<or> k_state k = ''overlap''))
           (\<lambda>k. k\<lparr>k_state := ''revoked'', k_valid_until := Some (coalesce (k_valid_until k) (go_now c)),
                  k_retired_at := Some (coalesce (k_retired_at k) (go_now c))\<rparr>) (approved_node_keys d))"
    (is "_ \<or> ?ops \<and> ?nodes \<and> ?keys")
  note wf = registry_wfD [OF assms(1)]
  show ?thesis
  proof (cases "d' = d")
    case True
    then show ?thesis using assms(1) by simp
  next
    case False
    with sh have ops: ?ops and nodes: ?nodes and keys: ?keys by auto
    have ids: "map n_node_id (approved_nodes d') = map n_node_id (approved_nodes d)"
      unfolding nodes by (simp add: map_update_where)
    then have idset: "n_node_id ` set (approved_nodes d') = n_node_id ` set (approved_nodes d)"
      by (metis set_map)
    show ?thesis
    proof (rule registry_wfI)
      show "distinct (map o_id (node_operators d'))" using wf(1) ops by simp
      show "distinct (map n_node_id (approved_nodes d'))" using wf(2) ids by simp
      show "distinct (map k_fingerprint (approved_node_keys d'))"
        unfolding keys using wf(3) by (simp add: distinct_map_update_where)
      show "unique_where (\<lambda>k. k_state k = ''active'') k_node_id (approved_node_keys d')"
        "unique_where (\<lambda>k. k_state k = ''overlap'') k_node_id (approved_node_keys d')"
        unfolding keys using wf(4,5) by (auto intro!: unique_where_update)
      show "k_node_id q \<in> n_node_id ` set (approved_nodes d')" if "q \<in> set (approved_node_keys d')" for q
        using that wf(7) unfolding idset keys in_update_where by fastforce
      show "n_operator_id m \<in> o_id ` set (node_operators d')" if "m \<in> set (approved_nodes d')" for m
        using that wf(8) unfolding nodes ops in_update_where by fastforce
      show "normalizeRegistryID j ''node id'' = Inr j" if "j \<in> n_node_id ` set (approved_nodes d')" for j
        using that wf(9) unfolding idset by auto
      show "node_keys_ok (approved_node_keys d') m" if m: "m \<in> set (approved_nodes d')" for m
      proof -
        from m obtain m0 where m0: "m0 \<in> set (approved_nodes d)" "n_node_id m = n_node_id m0"
            "n_active_key_version m = n_active_key_version m0" "n_node_id m0 \<noteq> i \<longrightarrow> n_status m = n_status m0"
          unfolding nodes in_update_where by fastforce
        from wf(6) [OF m0(1)] m0 show ?thesis
          unfolding node_keys_ok_def keys ball_update_where by (auto split: if_splits)
      qed
    qed
  qed
qed

subsection \<open>Rotation\<close>

definition rotated_keys :: "string \<Rightarrow> int \<Rightarrow> duration \<Rightarrow> time \<Rightarrow> approved_node_key list \<Rightarrow> approved_node_key list" where
  "rotated_keys i v overlap now ks = demote_active_key i v overlap now (retire_overlap_keys i now ks)"

definition new_key :: "string \<Rightarrow> int \<Rightarrow> string \<Rightarrow> string \<Rightarrow> time \<Rightarrow> approved_node_key" where
  "new_key i v pk fp now = \<lparr>k_node_id = i, k_key_version = v, k_public_key = pk, k_fingerprint = fp,
     k_state = ''active'', k_valid_from = now, k_valid_until = None, k_retired_at = None\<rparr>"

lemma RotateNodeKey_cases:
  assumes "RotateNodeKey c input d = Inr (x, d')"
  obtains i n op k0 pk fp where "normalizeRegistryID (rk_NodeID input) ''node id'' = Inr i"
    "find_node i d = Some n" "n_status n = ''approved''"
    "find_operator (n_operator_id n) d = Some op" "o_status op = ''approved''"
    "active_key i (n_active_key_version n) d = Some k0"
    "normalizeNodeKey c (rk_PublicKey input) = Inr (pk, fp)" "k_fingerprint k0 \<noteq> fp"
    "0 \<le> rk_Overlap input" "rk_Overlap input \<le> MaxNodeKeyRotationOverlap"
    "node_operators d' = node_operators d"
    "approved_nodes d' = update_where (\<lambda>m. n_node_id m = i)
       (\<lambda>m. m\<lparr>n_active_key_version := n_active_key_version n + 1, n_updated_at := go_now c\<rparr>) (approved_nodes d)"
    "approved_node_keys d' =
       rotated_keys i (n_active_key_version n) (rk_Overlap input) (go_now c) (approved_node_keys d)
       @ [new_key i (n_active_key_version n + 1) pk fp (go_now c)]"
    "\<forall>k \<in> set (rotated_keys i (n_active_key_version n) (rk_Overlap input) (go_now c) (approved_node_keys d)).
       k_fingerprint k \<noteq> fp \<and> (k_state k = ''active'' \<longrightarrow> k_node_id k \<noteq> i)"
proof -
  obtain i where i: "normalizeRegistryID (rk_NodeID input) ''node id'' = Inr i"
    using assms unfolding RotateNodeKey_def by (auto simp: res_simps)
  have ov: "0 \<le> rk_Overlap input" "rk_Overlap input \<le> MaxNodeKeyRotationOverlap"
    using assms unfolding RotateNodeKey_def i by (auto split: if_splits)
  define actor reason where "actor = boundedRegistryText (rk_Actor input) 256"
    and "reason = boundedRegistryText (rk_Reason input) 1024"
  note rk = assms [unfolded RotateNodeKey_def i ebind_simps Let_def actor_def [symmetric] reason_def [symmetric]]
  obtain pk fp where key: "normalizeNodeKey c (rk_PublicKey input) = Inr (pk, fp)"
    using rk by (auto simp: res_simps split: if_splits)
  obtain n where n: "find_node i d = Some n"
    using rk unfolding key by (auto simp: res_simps split: if_splits)
  obtain op where op: "find_operator (n_operator_id n) d = Some op"
    using rk unfolding key n by (auto simp: res_simps split: if_splits)
  obtain k0 where k0: "active_key i (n_active_key_version n) d = Some k0"
    using rk unfolding key n op by (auto simp: res_simps split: if_splits)
  let ?ks = "rotated_keys i (n_active_key_version n) (rk_Overlap input) (go_now c) (approved_node_keys d)"
  let ?k = "new_key i (n_active_key_version n + 1) pk fp (go_now c)"
  have st: "n_status n = ''approved''" "o_status op = ''approved''" "k_fingerprint k0 \<noteq> fp"
    using rk by (auto simp: key n op k0 split: if_splits)
  obtain d2 where d2: "insertNodeKey ?k (d\<lparr>approved_node_keys := ?ks\<rparr>) = Inr d2"
      "d' = appendNodeRegistryAuditTX i (n_operator_id n) ''rotate'' actor reason (n_active_key_version n + 1) fp
         (d2\<lparr>approved_nodes := update_where (\<lambda>m. n_node_id m = i)
           (\<lambda>m. m\<lparr>n_active_key_version := n_active_key_version n + 1, n_updated_at := go_now c\<rparr>) (approved_nodes d2)\<rparr>)"
    using rk unfolding rotated_keys_def new_key_def by (auto simp: res_simps key n op k0 st split: if_splits)
  note ik = insertNodeKey_cases [OF d2(1)]
  have fresh: "\<forall>k \<in> set ?ks. k_fingerprint k \<noteq> fp \<and> (k_state k = ''active'' \<longrightarrow> k_node_id k \<noteq> i)"
    using ik(2,3) by (simp add: new_key_def)
  show thesis
    by (rule that [OF i n st(1) op st(2) k0 key st(3) ov _ _ _ fresh]) (simp_all add: d2(2) ik(1))
qed

text \<open>What rotation makes of a key there was: overlap keys retire, the active one is demoted.\<close>

lemma rotated_keys_map:
  "rotated_keys i v ov now ks = map (\<lambda>k.
     if k_node_id k = i \<and> k_state k = ''overlap''
     then k\<lparr>k_state := ''retired'', k_valid_until := Some (coalesce (k_valid_until k) now),
            k_retired_at := Some (coalesce (k_retired_at k) now)\<rparr>
     else if k_node_id k = i \<and> k_key_version k = v \<and> k_state k = ''active''
     then (if ov > 0 then k\<lparr>k_state := ''overlap'', k_valid_until := Some (now + ov)\<rparr>
           else k\<lparr>k_state := ''retired'', k_valid_until := Some now, k_retired_at := Some now\<rparr>)
     else k) ks"
  by (simp add: rotated_keys_def demote_active_key_def retire_overlap_keys_def update_where_def)

lemma rotated_keys_ids:
  "map k_fingerprint (rotated_keys i v ov now ks) = map k_fingerprint ks"
  "map k_node_id (rotated_keys i v ov now ks) = map k_node_id ks"
  by (simp_all add: rotated_keys_map)

lemma in_rotated_keys:
  assumes "q \<in> set (rotated_keys i v ov now ks)"
  obtains k where "k \<in> set ks" "k_node_id q = k_node_id k" "k_key_version q = k_key_version k"
    "k_fingerprint q = k_fingerprint k" "k_state q = ''active'' \<Longrightarrow> q = k"
    "k_node_id k \<noteq> i \<Longrightarrow> q = k"
    "k_state q = ''overlap'' \<Longrightarrow> k_node_id k = i \<Longrightarrow>
       k_state k = ''active'' \<and> k_key_version k = v \<and> 0 < ov \<and> k_valid_until q = Some (now + ov)"
proof -
  from assms obtain k where k: "k \<in> set ks" and q: "q = (if k_node_id k = i \<and> k_state k = ''overlap''
     then k\<lparr>k_state := ''retired'', k_valid_until := Some (coalesce (k_valid_until k) now),
            k_retired_at := Some (coalesce (k_retired_at k) now)\<rparr>
     else if k_node_id k = i \<and> k_key_version k = v \<and> k_state k = ''active''
     then (if ov > 0 then k\<lparr>k_state := ''overlap'', k_valid_until := Some (now + ov)\<rparr>
           else k\<lparr>k_state := ''retired'', k_valid_until := Some now, k_retired_at := Some now\<rparr>)
     else k)"
    unfolding rotated_keys_map set_map by (rule imageE)
  show thesis
    by (rule that [OF k]; unfold q; cases "k_node_id k = i \<and> k_state k = ''overlap''";
        cases "k_node_id k = i \<and> k_key_version k = v \<and> k_state k = ''active''"; cases "0 < ov"; auto)
qed

lemma rotated_unique:
  assumes "distinct (map k_fingerprint ks)"
    and "unique_where (\<lambda>k. k_state k = ''active'') k_node_id ks"
    and "unique_where (\<lambda>k. k_state k = ''overlap'') k_node_id ks"
  shows "unique_where (\<lambda>k. k_state k = ''active'') k_node_id (rotated_keys i v ov now ks)"
    and "unique_where (\<lambda>k. k_state k = ''overlap'') k_node_id (rotated_keys i v ov now ks)"
proof -
  let ?ks1 = "retire_overlap_keys i now ks"
  have u1: "unique_where (\<lambda>k. k_state k = ''active'') k_node_id ?ks1"
    "unique_where (\<lambda>k. k_state k = ''overlap'') k_node_id ?ks1"
    unfolding retire_overlap_keys_def using assms(2,3) by (auto intro!: unique_where_update)
  have d1: "distinct (map k_fingerprint ?ks1)"
    unfolding retire_overlap_keys_def using assms(1) by (simp add: distinct_map_update_where)
  have none: "\<forall>k \<in> set ?ks1. k_state k = ''overlap'' \<longrightarrow> k_node_id k \<noteq> i"
    unfolding retire_overlap_keys_def ball_update_where by auto
  show "unique_where (\<lambda>k. k_state k = ''active'') k_node_id (rotated_keys i v ov now ks)"
    unfolding rotated_keys_def demote_active_key_def using u1(1)
    by (rule unique_where_update) (auto split: if_splits)
  show "unique_where (\<lambda>k. k_state k = ''overlap'') k_node_id (rotated_keys i v ov now ks)"
  proof (cases "\<exists>k \<in> set ?ks1. k_node_id k = i \<and> k_key_version k = v \<and> k_state k = ''active''")
    case True
    then obtain k where k: "k \<in> set ?ks1" "k_node_id k = i" "k_state k = ''active''" by blast
    have same: "k_fingerprint q = k_fingerprint k"
      if "q \<in> set ?ks1" "k_node_id q = i \<and> k_key_version q = v \<and> k_state q = ''active''" for q
    proof -
      have "q = k" by (rule unique_whereD [OF u1(1) that(1) k(1)]) (use that(2) k(2,3) in simp_all)
      then show ?thesis by (rule arg_cong)
    qed
    show ?thesis
      unfolding rotated_keys_def demote_active_key_def
      using none by (intro unique_where_set_key [OF d1 u1(2) same]) (simp_all split: if_splits)
  next
    case False
    then have "demote_active_key i v ov now ?ks1 = ?ks1"
      unfolding demote_active_key_def by (intro update_where_id) blast
    then show ?thesis unfolding rotated_keys_def using u1(2) by simp
  qed
qed

lemma RotateNodeKey_wf:
  assumes "registry_wf d" "RotateNodeKey c input d = Inr (x, d')"
  shows "registry_wf d'"
  using assms(2)
proof (rule RotateNodeKey_cases)
  fix i pk fp and n :: approved_node and op :: node_operator and k0 :: approved_node_key
  let ?v = "n_active_key_version n"
  let ?ks = "rotated_keys i ?v (rk_Overlap input) (go_now c) (approved_node_keys d)"
  let ?k = "new_key i (?v + 1) pk fp (go_now c)"
  assume n: "find_node i d = Some n" and ops: "node_operators d' = node_operators d"
    and nodes: "approved_nodes d' = update_where (\<lambda>m. n_node_id m = i)
       (\<lambda>m. m\<lparr>n_active_key_version := ?v + 1, n_updated_at := go_now c\<rparr>) (approved_nodes d)"
    and keys: "approved_node_keys d' = ?ks @ [?k]"
    and fresh: "\<forall>k \<in> set ?ks. k_fingerprint k \<noteq> fp \<and> (k_state k = ''active'' \<longrightarrow> k_node_id k \<noteq> i)"
    and st: "n_status n = ''approved''"
  note wf = registry_wfD [OF assms(1)]
  have nin: "n \<in> set (approved_nodes d)" "n_node_id n = i" using n by (auto simp: find_node_def dest!: find_SomeD)
  have idl: "map n_node_id (approved_nodes d') = map n_node_id (approved_nodes d)"
    unfolding nodes by (simp add: map_update_where)
  have ids: "n_node_id ` set (approved_nodes d') = n_node_id ` set (approved_nodes d)"
    using arg_cong [OF idl, of set] by simp
  have kids: "k_node_id ` set ?ks = k_node_id ` set (approved_node_keys d)"
    using rotated_keys_ids(2) [of i ?v "rk_Overlap input" "go_now c" "approved_node_keys d"] by (metis set_map)
  note ru = rotated_unique [OF wf(3,4,5), of i ?v "rk_Overlap input" "go_now c"]
  show ?thesis
  proof (rule registry_wfI)
    show "distinct (map o_id (node_operators d'))" using wf(1) ops by simp
    show "distinct (map n_node_id (approved_nodes d'))" using wf(2) idl by simp
    have "distinct (map k_fingerprint ?ks)" using wf(3) by (simp add: rotated_keys_ids)
    then show "distinct (map k_fingerprint (approved_node_keys d'))"
      unfolding keys using fresh by (simp add: new_key_def image_iff) metis
    show "unique_where (\<lambda>k. k_state k = ''active'') k_node_id (approved_node_keys d')"
      "unique_where (\<lambda>k. k_state k = ''overlap'') k_node_id (approved_node_keys d')"
      unfolding keys using ru fresh by (simp_all add: unique_where_append1 new_key_def)
    show "k_node_id q \<in> n_node_id ` set (approved_nodes d')" if "q \<in> set (approved_node_keys d')" for q
    proof (cases "q = ?k")
      case True
      then show ?thesis unfolding ids using nin by (auto simp: new_key_def)
    next
      case False
      then have "k_node_id q \<in> k_node_id ` set ?ks" using that keys by simp
      then show ?thesis unfolding ids kids using wf(7) by auto
    qed
    show "n_operator_id m \<in> o_id ` set (node_operators d')" if "m \<in> set (approved_nodes d')" for m
    proof -
      have "\<forall>m \<in> set (approved_nodes d'). n_operator_id m \<in> o_id ` set (node_operators d)"
        unfolding nodes ball_update_where using wf(8) by simp
      then show ?thesis using that ops by simp
    qed
    show "normalizeRegistryID j ''node id'' = Inr j" if "j \<in> n_node_id ` set (approved_nodes d')" for j
      using that wf(9) unfolding ids by auto
    have "\<forall>m \<in> set (approved_nodes d'). node_keys_ok (approved_node_keys d') m"
      unfolding nodes ball_update_where
    proof
      fix m assume m: "m \<in> set (approved_nodes d)"
      note okm = wf(6) [OF m]
      have ks: "k_key_version q \<le> n_active_key_version m
          \<and> (k_state q = ''active'' \<longrightarrow> k_key_version q = n_active_key_version m)
          \<and> (n_node_id m \<noteq> i \<longrightarrow> n_status m \<noteq> ''approved'' \<longrightarrow> k_state q \<noteq> ''active'' \<and> k_state q \<noteq> ''overlap'')"
        if "q \<in> set ?ks" "k_node_id q = n_node_id m" for q
        using that(1)
      proof (rule in_rotated_keys)
        fix k assume k: "k \<in> set (approved_node_keys d)" "k_node_id q = k_node_id k"
          "k_key_version q = k_key_version k" "k_state q = ''active'' \<Longrightarrow> q = k" "k_node_id k \<noteq> i \<Longrightarrow> q = k"
        have "k_node_id k = n_node_id m" using k(2) that(2) by simp
        with okm k show ?thesis unfolding node_keys_ok_def by metis
      qed
      show "if n_node_id m = i
         then node_keys_ok (approved_node_keys d') (m\<lparr>n_active_key_version := ?v + 1, n_updated_at := go_now c\<rparr>)
         else node_keys_ok (approved_node_keys d') m"
      proof (cases "n_node_id m = i")
        case True
        then have "m = n" using key_eq_row [OF wf(2) m nin(1)] nin(2) by simp
        then show ?thesis
          using True ks fresh st unfolding keys node_keys_ok_def by (fastforce simp: new_key_def)
      next
        case False
        then show ?thesis using ks unfolding keys node_keys_ok_def by (simp add: new_key_def)
      qed
    qed
    then show "node_keys_ok (approved_node_keys d') m" if "m \<in> set (approved_nodes d')" for m
      using that by blast
  qed
qed

section \<open>Reachable registries\<close>

text \<open>The registry as a transition system: one step is one successful operation.\<close>

inductive registry_step :: "db \<Rightarrow> db \<Rightarrow> bool" where
  approve_operator: "ApproveOperator c oi d = Inr (x, d') \<Longrightarrow> registry_step d d'"
| revoke_operator: "RevokeOperator c ri d = Inr (x, d') \<Longrightarrow> registry_step d d'"
| approve_node: "ApproveNode c ni d = Inr (y, d') \<Longrightarrow> registry_step d d'"
| enroll_node: "EnrollDevelopmentNode c i k d = Inr (y, d') \<Longrightarrow> registry_step d d'"
| rotate_key: "RotateNodeKey c ki d = Inr (y, d') \<Longrightarrow> registry_step d d'"
| revoke_node: "RevokeNode c vi d = Inr (y, d') \<Longrightarrow> registry_step d d'"

lemma registry_step_wf: "registry_step d d' \<Longrightarrow> registry_wf d \<Longrightarrow> registry_wf d'"
  by (induction rule: registry_step.induct)
     (auto simp: EnrollDevelopmentNode_def intro: operators_only_wf ApproveOperator_only RevokeOperator_only
        ApproveNode_wf RotateNodeKey_wf RevokeNode_wf)

lemma registry_steps_wf: "registry_step\<^sup>*\<^sup>* d d' \<Longrightarrow> registry_wf d \<Longrightarrow> registry_wf d'"
  by (induction rule: rtranclp_induct) (auto intro: registry_step_wf)

lemma AuthorizedNodeKeys_cases:
  assumes "AuthorizedNodeKeys c i0 d = Inr ks"
  obtains i n op where "normalizeRegistryID i0 ''node id'' = Inr i" "find_node i d = Some n"
    "find_operator (n_operator_id n) d = Some op" "n_status n = ''approved''" "o_status op = ''approved''"
    "ks \<noteq> []" "ks = filter (key_usable (db_now c) n) (listNodeKeys i d)"
proof -
  obtain i where i: "normalizeRegistryID i0 ''node id'' = Inr i"
    using assms by (auto simp: AuthorizedNodeKeys_def split: sum.splits)
  obtain n where n: "find_node i d = Some n"
    using assms by (auto simp: AuthorizedNodeKeys_def i split: option.splits)
  obtain op where op: "find_operator (n_operator_id n) d = Some op"
    using assms by (auto simp: AuthorizedNodeKeys_def i n split: option.splits)
  have "n_status n = ''approved'' \<and> o_status op = ''approved''"
  proof (rule ccontr)
    assume "\<not> (n_status n = ''approved'' \<and> o_status op = ''approved'')"
    then have "filter (\<lambda>k. n_status n = ''approved'' \<and> o_status op = ''approved'' \<and> key_usable (db_now c) n k)
        (listNodeKeys i d) = []" by (auto simp: filter_empty_conv)
    with assms show False by (simp add: AuthorizedNodeKeys_def i n op Let_def)
  qed
  moreover from this assms have "ks \<noteq> [] \<and> ks = filter (key_usable (db_now c) n) (listNodeKeys i d)"
    by (auto simp: AuthorizedNodeKeys_def i n op Let_def split: if_splits)
  ultimately show thesis using that [OF i n op] by blast
qed

lemma set_listNodeKeys: "set (listNodeKeys i d) = {k \<in> set (approved_node_keys d). k_node_id k = i}"
  by (auto simp: listNodeKeys_def)

lemma count_listNodeKeys:
  "count_where P (listNodeKeys i d) = count_where P (filter (\<lambda>k. k_node_id k = i) (approved_node_keys d))"
proof -
  have "mset (listNodeKeys i d) = mset (filter (\<lambda>k. k_node_id k = i) (approved_node_keys d))"
    by (simp add: listNodeKeys_def)
  then have "mset (filter P (listNodeKeys i d)) = mset (filter P (filter (\<lambda>k. k_node_id k = i) (approved_node_keys d)))"
    by (metis mset_filter)
  then show ?thesis unfolding count_where_def by (metis size_mset)
qed

text \<open>At most one row of a partial unique index has a given key.\<close>

lemma unique_where_count: "unique_where Q key rs \<Longrightarrow> count_where Q (filter (\<lambda>r. key r = x) rs) \<le> 1"
proof (induction rs)
  case (Cons r rs)
  have u: "unique_where Q key rs" using Cons.prems by (cases "Q r") (simp_all add: unique_where_def)
  show ?case
  proof (cases "Q r \<and> key r = x")
    case True
    have "count_where Q (filter (\<lambda>r. key r = x) rs) = 0"
      unfolding count_where_0 using Cons.prems True by (auto simp: unique_where_def image_iff)
    with True show ?thesis by simp
  next
    case False
    with Cons.IH [OF u] show ?thesis by auto
  qed
qed simp

lemma count_where_filter_le: "count_where Q (filter P xs) \<le> count_where Q xs"
  by (induction xs) auto

lemma length_le_counts: "\<forall>x \<in> set xs. P x \<or> Q x \<Longrightarrow> length xs \<le> count_where P xs + count_where Q xs"
  by (induction xs) auto

text \<open>
  C6. In every registry the operations can reach, what a node may sign with is bounded: at most one
  active and one overlap key, so at most two, all keys of that node, and only while the node and
  its operator are approved.
\<close>

theorem AuthorizedNodeKeys_bounded:
  assumes "registry_step\<^sup>*\<^sup>* empty_db d" and "AuthorizedNodeKeys c i d = Inr ks"
  shows "length ks \<le> 2 \<and> count_where (\<lambda>k. k_state k = ''active'') ks \<le> 1
    \<and> count_where (\<lambda>k. k_state k = ''overlap'') ks \<le> 1
    \<and> (\<exists>n \<in> set (approved_nodes d). \<exists>op \<in> set (node_operators d).
         n_status n = ''approved'' \<and> o_id op = n_operator_id n \<and> o_status op = ''approved''
         \<and> (\<forall>k \<in> set ks. k_node_id k = n_node_id n))"
  using assms(2)
proof (rule AuthorizedNodeKeys_cases)
  fix j and n :: approved_node and op :: node_operator
  assume n: "find_node j d = Some n" and op: "find_operator (n_operator_id n) d = Some op"
    and st: "n_status n = ''approved''" "o_status op = ''approved''"
    and ks: "ks = filter (key_usable (db_now c) n) (listNodeKeys j d)"
  have wf: "registry_wf d" using assms(1) registry_wf_empty by (rule registry_steps_wf)
  note wfd = registry_wfD [OF wf]
  have nin: "n \<in> set (approved_nodes d)" "n_node_id n = j" "op \<in> set (node_operators d)" "o_id op = n_operator_id n"
    using n op by (auto simp: find_node_def find_operator_def dest!: find_SomeD)
  have le: "count_where (\<lambda>k. k_state k = s) ks \<le> count_where (\<lambda>k. k_state k = s) (filter (\<lambda>k. k_node_id k = j) (approved_node_keys d))" for s
    unfolding count_listNodeKeys [symmetric] ks by (rule count_where_filter_le)
  have act: "count_where (\<lambda>k. k_state k = ''active'') ks \<le> 1" and ovl: "count_where (\<lambda>k. k_state k = ''overlap'') ks \<le> 1"
    using le [of "''active''"] le [of "''overlap''"] unique_where_count [OF wfd(4), of j] unique_where_count [OF wfd(5), of j]
    by linarith+
  have "length ks \<le> count_where (\<lambda>k. k_state k = ''active'') ks + count_where (\<lambda>k. k_state k = ''overlap'') ks"
    by (rule length_le_counts) (auto simp: ks key_usable_def)
  moreover have "\<forall>k \<in> set ks. k_node_id k = n_node_id n"
    unfolding ks by (auto simp: set_listNodeKeys nin)
  ultimately show ?thesis using act ovl nin st by (auto intro!: bexI [of _ n] bexI [of _ op])
qed

section \<open>Revocation\<close>

definition node_revoked :: "string \<Rightarrow> db \<Rightarrow> bool" where
  "node_revoked i d \<longleftrightarrow> (\<exists>n \<in> set (approved_nodes d). n_node_id n = i \<and> n_status n = ''revoked'')"

lemma find_node_unique:
  assumes "registry_wf d" "n \<in> set (approved_nodes d)"
  shows "find_node (n_node_id n) d = Some n"
proof -
  have "find (\<lambda>m. n_node_id m = n_node_id n) (approved_nodes d) \<noteq> None"
    using assms(2) by (auto simp: find_None_iff)
  then obtain m where m: "find_node (n_node_id n) d = Some m" by (auto simp: find_node_def)
  then have "m \<in> set (approved_nodes d)" "n_node_id m = n_node_id n"
    by (auto simp: find_node_def dest!: find_SomeD)
  then have "m = n" by (intro key_eq_row [OF registry_wfD(2) [OF assms(1)] _ assms(2)])
  with m show ?thesis by simp
qed

lemma find_operator_unique:
  assumes "registry_wf d" "op \<in> set (node_operators d)"
  shows "find_operator (o_id op) d = Some op"
proof -
  have "find (\<lambda>m. o_id m = o_id op) (node_operators d) \<noteq> None"
    using assms(2) by (auto simp: find_None_iff)
  then obtain m where m: "find_operator (o_id op) d = Some m" by (auto simp: find_operator_def)
  then have "m \<in> set (node_operators d)" "o_id m = o_id op"
    by (auto simp: find_operator_def dest!: find_SomeD)
  then have "m = op" by (intro key_eq_row [OF registry_wfD(1) [OF assms(1)] _ assms(2)])
  with m show ?thesis by simp
qed

lemma node_revoked_unauthorized:
  assumes "registry_wf d" "node_revoked i d" "normalizeRegistryID i0 ''node id'' = Inr i"
  shows "AuthorizedNodeKeys c i0 d = Inl ErrApprovedNodeNotFound"
proof -
  obtain n where n: "n \<in> set (approved_nodes d)" "n_node_id n = i" "n_status n = ''revoked''"
    using assms(2) by (auto simp: node_revoked_def)
  have "find_node i d = Some n" using find_node_unique [OF assms(1) n(1)] n(2) by simp
  then show ?thesis
    using n(3) by (simp add: AuthorizedNodeKeys_def assms(3) Let_def split: option.split)
qed

lemma node_revoked_step:
  assumes "registry_step d d'" "node_revoked i d"
  shows "node_revoked i d'"
  using assms
proof (induction rule: registry_step.induct)
  case (approve_operator c oi d x d')
  then show ?case using ApproveOperator_only unfolding operators_only_def node_revoked_def by metis
next
  case (revoke_operator c ri d x d')
  then show ?case using RevokeOperator_only unfolding operators_only_def node_revoked_def by metis
next
  case (approve_node c ni d y d')
  from approve_node(1) show ?case
    by (cases rule: ApproveNode_cases) (use approve_node(2) in \<open>auto simp: node_revoked_def operators_only_def\<close>)
next
  case (enroll_node c j k d y d')
  from enroll_node(1) show ?case unfolding EnrollDevelopmentNode_def
    by (cases rule: ApproveNode_cases) (use enroll_node(2) in \<open>auto simp: node_revoked_def operators_only_def\<close>)
next
  case (rotate_key c ki d y d')
  from rotate_key(1) show ?case
  proof (rule RotateNodeKey_cases)
    fix j and n :: approved_node
    assume "approved_nodes d' = update_where (\<lambda>m. n_node_id m = j)
       (\<lambda>m. m\<lparr>n_active_key_version := n_active_key_version n + 1, n_updated_at := go_now c\<rparr>) (approved_nodes d)"
    with rotate_key(2) show ?thesis unfolding node_revoked_def by (auto simp: bex_update_where)
  qed
next
  case (revoke_node c vi d y d')
  from revoke_node(1) show ?case
  proof (rule RevokeNode_cases)
    fix j and n :: approved_node
    assume "(n_status n = ''revoked'' \<and> d' = d) \<or>
     (node_operators d' = node_operators d
      \<and> approved_nodes d' = update_where (\<lambda>n. n_node_id n = j)
           (\<lambda>n. n\<lparr>n_status := ''revoked'', n_revoked_at := Some (go_now c), n_updated_at := go_now c\<rparr>) (approved_nodes d)
      \<and> approved_node_keys d' = update_where
           (\<lambda>k. k_node_id k = j \<and> (k_state k = ''active'' \<or> k_state k = ''overlap''))
           (\<lambda>k. k\<lparr>k_state := ''revoked'', k_valid_until := Some (coalesce (k_valid_until k) (go_now c)),
                  k_retired_at := Some (coalesce (k_retired_at k) (go_now c))\<rparr>) (approved_node_keys d))"
    then have "d' = d \<or> approved_nodes d' = update_where (\<lambda>n. n_node_id n = j)
           (\<lambda>n. n\<lparr>n_status := ''revoked'', n_revoked_at := Some (go_now c), n_updated_at := go_now c\<rparr>) (approved_nodes d)"
      by blast
    with revoke_node(2) show ?thesis unfolding node_revoked_def by (auto simp: bex_update_where)
  qed
qed

lemma RevokeNode_revokes:
  assumes "RevokeNode c input d = Inr (x, d')" "normalizeRegistryID (rn_NodeID input) ''node id'' = Inr i"
  shows "node_revoked i d'"
  using assms(1)
proof (rule RevokeNode_cases)
  fix j and n :: approved_node
  assume j: "normalizeRegistryID (rn_NodeID input) ''node id'' = Inr j" and n: "find_node j d = Some n"
    and sh: "(n_status n = ''revoked'' \<and> d' = d) \<or>
     (node_operators d' = node_operators d
      \<and> approved_nodes d' = update_where (\<lambda>n. n_node_id n = j)
           (\<lambda>n. n\<lparr>n_status := ''revoked'', n_revoked_at := Some (go_now c), n_updated_at := go_now c\<rparr>) (approved_nodes d)
      \<and> approved_node_keys d' = update_where
           (\<lambda>k. k_node_id k = j \<and> (k_state k = ''active'' \<or> k_state k = ''overlap''))
           (\<lambda>k. k\<lparr>k_state := ''revoked'', k_valid_until := Some (coalesce (k_valid_until k) (go_now c)),
                  k_retired_at := Some (coalesce (k_retired_at k) (go_now c))\<rparr>) (approved_node_keys d))"
  have ij: "i = j" using j assms(2) by simp
  have nin: "n \<in> set (approved_nodes d)" "n_node_id n = j" using n by (auto simp: find_node_def dest!: find_SomeD)
  from sh show ?thesis
  proof
    assume "n_status n = ''revoked'' \<and> d' = d"
    with nin ij show ?thesis by (auto simp: node_revoked_def)
  next
    assume "node_operators d' = node_operators d
      \<and> approved_nodes d' = update_where (\<lambda>n. n_node_id n = j)
           (\<lambda>n. n\<lparr>n_status := ''revoked'', n_revoked_at := Some (go_now c), n_updated_at := go_now c\<rparr>) (approved_nodes d)
      \<and> approved_node_keys d' = update_where
           (\<lambda>k. k_node_id k = j \<and> (k_state k = ''active'' \<or> k_state k = ''overlap''))
           (\<lambda>k. k\<lparr>k_state := ''revoked'', k_valid_until := Some (coalesce (k_valid_until k) (go_now c)),
                  k_retired_at := Some (coalesce (k_retired_at k) (go_now c))\<rparr>) (approved_node_keys d)"
    then show ?thesis unfolding node_revoked_def ij using nin by (auto simp: bex_update_where)
  qed
qed

text \<open>
  C7. Revoking a node is permanent: once \<open>RevokeNode\<close> has succeeded, no sequence of registry
  operations, approving it again included, lets it authenticate with any key.
\<close>

theorem RevokeNode_permanent:
  assumes "registry_wf d" and "RevokeNode c input d = Inr (x, d1)" and "registry_step\<^sup>*\<^sup>* d1 d2"
  shows "AuthorizedNodeKeys c' (rn_NodeID input) d2 = Inl ErrApprovedNodeNotFound"
proof -
  obtain i where i: "normalizeRegistryID (rn_NodeID input) ''node id'' = Inr i"
    using assms(2) by (rule RevokeNode_cases)
  have "node_revoked i d2"
    using assms(3) RevokeNode_revokes [OF assms(2) i]
    by (induction rule: rtranclp_induct) (auto intro: node_revoked_step)
  moreover have "registry_wf d2"
    using assms(3) RevokeNode_wf [OF assms(1,2)] by (rule registry_steps_wf)
  ultimately show ?thesis using node_revoked_unauthorized i by blast
qed

text \<open>
  Revoking an operator takes every node it owns out of service at once: none of them can
  authenticate, whatever keys it has.
\<close>

theorem RevokeOperator_disables_nodes:
  assumes "registry_wf d" and "RevokeOperator c input d = Inr (x, d')"
    and "n \<in> set (approved_nodes d')" and "normalizeRegistryID i ''node id'' = Inr (n_node_id n)"
    and "normalizeRegistryID (ro_OperatorID input) ''operator id'' = Inr (n_operator_id n)"
  shows "AuthorizedNodeKeys c' i d' = Inl ErrApprovedNodeNotFound"
proof -
  let ?j = "n_operator_id n"
  have wf': "registry_wf d'" using RevokeOperator_only [OF assms(2)] assms(1) by (rule operators_only_wf)
  have sh: "(\<exists>row. find_operator ?j d = Some row \<and> o_status row = ''revoked'' \<and> d' = d)
      \<or> node_operators d' = update_where (\<lambda>op. o_id op = ?j)
          (\<lambda>op. op\<lparr>o_status := ''revoked'', o_revoked_at := Some (go_now c), o_updated_at := go_now c\<rparr>)
          (node_operators d)"
    using assms(2) unfolding RevokeOperator_def assms(5) ebind_simps Let_def
    by (auto simp: res_simps split: if_splits dest!: operator_audit_frame(1))
  have revoked: "o_status op = ''revoked''" if "find_operator ?j d' = Some op" for op
    using sh
  proof
    assume "\<exists>row. find_operator ?j d = Some row \<and> o_status row = ''revoked'' \<and> d' = d"
    with that show ?thesis by auto
  next
    assume upd: "node_operators d' = update_where (\<lambda>op. o_id op = ?j)
          (\<lambda>op. op\<lparr>o_status := ''revoked'', o_revoked_at := Some (go_now c), o_updated_at := go_now c\<rparr>)
          (node_operators d)"
    have "\<forall>op \<in> set (node_operators d'). o_id op = ?j \<longrightarrow> o_status op = ''revoked''"
      unfolding upd ball_update_where by simp
    with that show ?thesis by (auto simp: find_operator_def dest!: find_SomeD)
  qed
  show ?thesis
    using find_node_unique [OF wf' assms(3)] revoked
    by (auto simp: AuthorizedNodeKeys_def assms(4) Let_def filter_empty_conv split: option.splits)
qed

section \<open>What a rotation leaves usable\<close>

text \<open>
  After a rotation the node authenticates with the new key, with the key it replaces until the
  overlap has passed (never, for an overlap of zero), and with no other key.
\<close>

theorem RotateNodeKey_usable:
  assumes "registry_wf d" and "RotateNodeKey c input d = Inr (x, d')"
  shows "\<exists>i n k0 pk fp. normalizeNodeKey c (rk_PublicKey input) = Inr (pk, fp)
    \<and> find_node i d = Some n \<and> active_key i (n_active_key_version n) d = Some k0
    \<and> (\<forall>c'. \<exists>ks. AuthorizedNodeKeys c' (rk_NodeID input) d' = Inr ks
         \<and> k_fingerprint ` set ks
             = insert fp (if 0 < rk_Overlap input \<and> db_now c' < go_now c + rk_Overlap input
                          then {k_fingerprint k0} else {}))"
  using assms(2)
proof (rule RotateNodeKey_cases)
  fix i pk fp and n :: approved_node and op :: node_operator and k0 :: approved_node_key
  let ?v = "n_active_key_version n" and ?ov = "rk_Overlap input"
  let ?ks = "rotated_keys i ?v ?ov (go_now c) (approved_node_keys d)"
  let ?k = "new_key i (?v + 1) pk fp (go_now c)"
  assume i: "normalizeRegistryID (rk_NodeID input) ''node id'' = Inr i"
    and n: "find_node i d = Some n" and st: "n_status n = ''approved''"
    and op: "find_operator (n_operator_id n) d = Some op" and ost: "o_status op = ''approved''"
    and k0: "active_key i ?v d = Some k0" and key: "normalizeNodeKey c (rk_PublicKey input) = Inr (pk, fp)"
    and ops: "node_operators d' = node_operators d"
    and nodes: "approved_nodes d' = update_where (\<lambda>m. n_node_id m = i)
       (\<lambda>m. m\<lparr>n_active_key_version := ?v + 1, n_updated_at := go_now c\<rparr>) (approved_nodes d)"
    and keys: "approved_node_keys d' = ?ks @ [?k]"
    and fresh: "\<forall>k \<in> set ?ks. k_fingerprint k \<noteq> fp \<and> (k_state k = ''active'' \<longrightarrow> k_node_id k \<noteq> i)"
  note wf = registry_wfD [OF assms(1)]
  let ?n = "n\<lparr>n_active_key_version := ?v + 1, n_updated_at := go_now c\<rparr>"
  have nin: "n \<in> set (approved_nodes d)" "n_node_id n = i" using n by (auto simp: find_node_def dest!: find_SomeD)
  have k0in: "k0 \<in> set (approved_node_keys d)" "k_node_id k0 = i" "k_key_version k0 = ?v" "k_state k0 = ''active''"
    using k0 by (auto simp: active_key_def dest!: find_SomeD)
  have "?n \<in> set (approved_nodes d')" unfolding nodes using nin by (auto simp: in_update_where)
  then have n': "find_node i d' = Some ?n"
    using find_node_unique [OF RotateNodeKey_wf [OF assms]] nin(2) by force
  have op': "find_operator (n_operator_id ?n) d' = Some op" using op ops by (simp add: find_operator_def)
  have usable: "k_fingerprint ` {q \<in> set (listNodeKeys i d'). key_usable t ?n q}
      = insert fp (if 0 < ?ov \<and> t < go_now c + ?ov then {k_fingerprint k0} else {})" (is "?L = ?R") for t
  proof
    show "?L \<subseteq> ?R"
    proof (rule image_subsetI)
      fix q assume "q \<in> {q \<in> set (listNodeKeys i d'). key_usable t ?n q}"
      then have q: "q = ?k \<or> q \<in> set ?ks" "k_node_id q = i" "key_usable t ?n q"
        by (auto simp: set_listNodeKeys keys)
      show "k_fingerprint q \<in> ?R"
      proof (cases "q = ?k")
        case True
        then show ?thesis by (simp add: new_key_def)
      next
        case False
        with q have qin: "q \<in> set ?ks" by simp
        with fresh q have ovl: "k_state q = ''overlap''" "\<exists>u. k_valid_until q = Some u \<and> t < u"
          by (auto simp: key_usable_def split: option.splits)
        from qin show ?thesis
        proof (rule in_rotated_keys)
          fix k assume k: "k \<in> set (approved_node_keys d)" "k_node_id q = k_node_id k" "k_fingerprint q = k_fingerprint k"
            "k_state q = ''overlap'' \<Longrightarrow> k_node_id k = i \<Longrightarrow>
               k_state k = ''active'' \<and> k_key_version k = ?v \<and> 0 < ?ov \<and> k_valid_until q = Some (go_now c + ?ov)"
          then have kk: "k_state k = ''active'' \<and> 0 < ?ov \<and> k_valid_until q = Some (go_now c + ?ov)"
            using ovl(1) q(2) by simp
          have "k = k0" by (rule unique_whereD [OF wf(4) k(1) k0in(1)]) (use kk k0in k(2) q(2) in simp_all)
          then show ?thesis using kk ovl(2) k(3) by auto
        qed
      qed
    qed
    show "?R \<subseteq> ?L"
    proof -
      have "?k \<in> {q \<in> set (listNodeKeys i d'). key_usable t ?n q}"
        by (simp add: set_listNodeKeys keys new_key_def key_usable_def)
      then have fp: "fp \<in> ?L" by (force simp: new_key_def)
      have "k_fingerprint k0 \<in> ?L" if "0 < ?ov" "t < go_now c + ?ov"
      proof -
        let ?q = "k0\<lparr>k_state := ''overlap'', k_valid_until := Some (go_now c + ?ov)\<rparr>"
        have "?q \<in> set ?ks" unfolding rotated_keys_map set_map
          by (rule image_eqI [OF _ k0in(1)]) (simp add: k0in that)
        then have "?q \<in> {q \<in> set (listNodeKeys i d'). key_usable t ?n q}"
          using that by (simp add: set_listNodeKeys keys k0in key_usable_def)
        then show ?thesis by (rule rev_image_eqI) simp
      qed
      with fp show ?thesis by auto
    qed
  qed
  have auth: "\<exists>ks. AuthorizedNodeKeys c' (rk_NodeID input) d' = Inr ks
         \<and> k_fingerprint ` set ks = insert fp (if 0 < ?ov \<and> db_now c' < go_now c + ?ov then {k_fingerprint k0} else {})" for c'
  proof -
    let ?us = "filter (key_usable (db_now c') ?n) (listNodeKeys i d')"
    have us: "k_fingerprint ` set ?us = insert fp (if 0 < ?ov \<and> db_now c' < go_now c + ?ov then {k_fingerprint k0} else {})"
      using usable [of "db_now c'"] by simp
    then have "?us \<noteq> []" by (metis empty_set image_empty insert_not_empty)
    with us show ?thesis
      by (simp add: AuthorizedNodeKeys_def i n' op' [simplified] st ost)
  qed
  show ?thesis using key n k0 auth by blast
qed

section \<open>Witnesses\<close>

definition sample_approval :: ApproveNodeInput where
  "sample_approval = \<lparr>an_NodeID = '' h1'', an_OperatorID = ''op1'', an_OperatorName = '''',
     an_PublicKey = ''pk1'', an_Actor = ''ops'', an_Reason = ''new''\<rparr>"

definition sample_rotation :: RotateNodeKeyInput where
  "sample_rotation = \<lparr>rk_NodeID = ''h1'', rk_PublicKey = ''pk2'', rk_Overlap = hour,
     rk_Actor = ''ops'', rk_Reason = ''''\<rparr>"

lemma sample_registry_wf: "registry_wf sample_db"
  by code_simp

theorem AuthorizedNodeKeys_bounded_witness:
  "\<exists>d ks. registry_step\<^sup>*\<^sup>* empty_db d \<and> AuthorizedNodeKeys sample_ctx ''h1'' d = Inr ks \<and> length ks \<le> 2"
proof -
  have "map_sum id (\<lambda>(_, d). map_sum id length (AuthorizedNodeKeys sample_ctx ''h1'' d))
      (ApproveNode sample_ctx sample_approval empty_db) = Inr (Inr 1)" by code_simp
  then obtain y d ks where d: "ApproveNode sample_ctx sample_approval empty_db = Inr (y, d)"
      and ks: "AuthorizedNodeKeys sample_ctx ''h1'' d = Inr ks"
    by (auto dest!: sample_run)
  have "registry_step\<^sup>*\<^sup>* empty_db d" using registry_step.approve_node [OF d] by (rule r_into_rtranclp)
  from AuthorizedNodeKeys_bounded [OF this ks] this ks show ?thesis by blast
qed

theorem RevokeNode_permanent_witness:
  "\<exists>x d1 d2. RevokeNode sample_ctx \<lparr>rn_NodeID = ''h1'', rn_Actor = ''ops'', rn_Reason = ''lost''\<rparr> sample_db = Inr (x, d1)
     \<and> registry_step d1 d2 \<and> registry_step\<^sup>*\<^sup>* d1 d2
     \<and> AuthorizedNodeKeys sample_ctx ''h1'' sample_db \<noteq> Inl ErrApprovedNodeNotFound
     \<and> AuthorizedNodeKeys sample_ctx ''h1'' d2 = Inl ErrApprovedNodeNotFound"
proof -
  let ?r = "\<lparr>rn_NodeID = ''h1'', rn_Actor = ''ops'', rn_Reason = ''lost''\<rparr>"
  let ?o = "\<lparr>ao_OperatorID = ''op1'', ao_Name = '''', ao_Actor = ''ops'', ao_Reason = ''again''\<rparr>"
  have "map_sum id (\<lambda>(_, d1). isl (ApproveOperator sample_ctx ?o d1)) (RevokeNode sample_ctx ?r sample_db) = Inr False"
    by code_simp
  then obtain x d1 where d1: "RevokeNode sample_ctx ?r sample_db = Inr (x, d1)"
      and ok: "\<not> isl (ApproveOperator sample_ctx ?o d1)"
    by (auto dest!: sample_run)
  from ok obtain y d2 where "ApproveOperator sample_ctx ?o d1 = Inr (y, d2)"
    by (cases "ApproveOperator sample_ctx ?o d1") auto
  then have step: "registry_step d1 d2" by (rule registry_step.approve_operator)
  then have steps: "registry_step\<^sup>*\<^sup>* d1 d2" by (rule r_into_rtranclp)
  have "\<not> isl (AuthorizedNodeKeys sample_ctx ''h1'' sample_db)" by code_simp
  then have "AuthorizedNodeKeys sample_ctx ''h1'' sample_db \<noteq> Inl ErrApprovedNodeNotFound" by auto
  with RevokeNode_permanent [OF sample_registry_wf d1 steps, of sample_ctx] d1 step steps show ?thesis by auto
qed

theorem RevokeOperator_disables_nodes_witness:
  "\<exists>x d'. RevokeOperator sample_ctx \<lparr>ro_OperatorID = ''op1'', ro_Actor = ''ops'', ro_Reason = ''left''\<rparr> sample_db = Inr (x, d')
     \<and> AuthorizedNodeKeys sample_ctx ''h1'' d' = Inl ErrApprovedNodeNotFound"
proof -
  let ?r = "\<lparr>ro_OperatorID = ''op1'', ro_Actor = ''ops'', ro_Reason = ''left''\<rparr>"
  have "map_sum id (\<lambda>(_, d). map (\<lambda>n. (n_node_id n, n_operator_id n)) (approved_nodes d))
      (RevokeOperator sample_ctx ?r sample_db) = Inr [(''h1'', ''op1'')]" by code_simp
  then obtain x d' n where d: "RevokeOperator sample_ctx ?r sample_db = Inr (x, d')"
      and n: "n \<in> set (approved_nodes d')" "n_node_id n = ''h1''" "n_operator_id n = ''op1''"
    by (auto dest!: sample_run)
  have i: "normalizeRegistryID ''h1'' ''node id'' = Inr ''h1''" "normalizeRegistryID ''op1'' ''operator id'' = Inr ''op1''"
    by code_simp+
  from RevokeOperator_disables_nodes [OF sample_registry_wf d n(1), of "''h1''" sample_ctx] d i n show ?thesis by auto
qed

theorem RotateNodeKey_usable_witness:
  "\<exists>x d' ks. RotateNodeKey sample_ctx sample_rotation sample_db = Inr (x, d')
     \<and> AuthorizedNodeKeys sample_ctx ''h1'' d' = Inr ks \<and> ''pk2'' \<in> k_fingerprint ` set ks"
proof -
  have "\<not> isl (RotateNodeKey sample_ctx sample_rotation sample_db)" by code_simp
  then obtain x d' where d: "RotateNodeKey sample_ctx sample_rotation sample_db = Inr (x, d')"
    by (cases "RotateNodeKey sample_ctx sample_rotation sample_db") auto
  have k: "normalizeNodeKey sample_ctx (rk_PublicKey sample_rotation) = Inr (''pk2'', ''pk2'')"
    and i: "rk_NodeID sample_rotation = ''h1''" by code_simp+
  obtain ks where "AuthorizedNodeKeys sample_ctx ''h1'' d' = Inr ks" "''pk2'' \<in> k_fingerprint ` set ks"
    using RotateNodeKey_usable [OF sample_registry_wf d] k i by (metis Inr_inject Pair_inject insertI1)
  with d show ?thesis by blast
qed

section \<open>Approval without a reason\<close>

lemma find_append_None: "find P xs = None \<Longrightarrow> find P (xs @ ys) = find P ys"
  by (induction xs) (auto split: if_splits)

lemma sql_trim_nonempty: "x \<noteq> [] \<Longrightarrow> hd x \<noteq> CHR '' '' \<Longrightarrow> sql_trim x \<noteq> []"
  by (cases x) (simp_all add: sql_trim_def trim_by_def dropWhile_eq_Nil_conv)

lemma TrimSpace_hd: "TrimSpace s \<noteq> [] \<Longrightarrow> hd (TrimSpace s) \<noteq> CHR '' ''"
proof -
  assume ne: "TrimSpace s \<noteq> []"
  have "dropWhile is_space (TrimSpace s) = TrimSpace s"
    unfolding TrimSpace_def trim_by_def by (rule dropWhile_rev_dropWhile)
  then have "\<not> is_space (hd (TrimSpace s))" using ne by (metis hd_dropWhile)
  then show ?thesis by (auto simp: is_space_def)
qed

text \<open>
  C9. Approving a node under an operator that does not exist yet, with a blank reason, passes
  \<open>ValidateApproveNodeInput\<close> and still fails: the audit table refuses the operator's approval
  without a reason.
\<close>

theorem ApproveNode_blank_reason:
  assumes "ValidateApproveNodeInput c input = Inr ()" and "TrimSpace (an_Reason input) = []"
    and "normalizeRegistryID (an_OperatorID input) ''operator id'' = Inr j" and "find_operator j d = None"
  shows "ApproveNode c input d = Inl (ErrConstraint ''operator_registry_audit_reason_check'')"
proof -
  let ?actor = "boundedRegistryText (an_Actor input) 256"
  obtain i pk fp where i: "normalizeRegistryID (an_NodeID input) ''node id'' = Inr i"
      and key: "normalizeNodeKey c (an_PublicKey input) = Inr (pk, fp)" and actor: "?actor \<noteq> []"
    using assms(1) unfolding ValidateApproveNodeInput_def by (auto simp: res_simps)
  have "hd ?actor = hd (TrimSpace (an_Actor input))" using actor by (simp add: boundedRegistryText_def hd_take)
  then have a: "sql_trim ?actor \<noteq> []"
    using actor TrimSpace_hd [of "an_Actor input"] by (intro sql_trim_nonempty) (auto simp: boundedRegistryText_def)
  have r: "boundedRegistryText (an_Reason input) 1024 = []" by (simp add: boundedRegistryText_def assms(2))
  have f: "find_operator j (d\<lparr>node_operators := node_operators d @ [op]\<rparr>) = Some op" if "o_id op = j" for op
    using assms(4) that by (simp add: find_operator_def find_append_None)
  show ?thesis
    unfolding ApproveNode_def i assms(3) ebind_simps Let_def key prod.case r
    using actor a assms(4) by (simp add: insertOperator_def f appendOperatorRegistryAuditTX_def sql_trim_def)
qed

theorem ApproveNode_blank_reason_witness:
  "ValidateApproveNodeInput sample_ctx (sample_approval\<lparr>an_Reason := '' ''\<rparr>) = Inr ()
   \<and> ApproveNode sample_ctx (sample_approval\<lparr>an_Reason := '' ''\<rparr>) empty_db
       = Inl (ErrConstraint ''operator_registry_audit_reason_check'')"
proof -
  have h: "ValidateApproveNodeInput sample_ctx (sample_approval\<lparr>an_Reason := '' ''\<rparr>) = Inr ()"
    "TrimSpace (an_Reason (sample_approval\<lparr>an_Reason := '' ''\<rparr>)) = []"
    "normalizeRegistryID (an_OperatorID (sample_approval\<lparr>an_Reason := '' ''\<rparr>)) ''operator id'' = Inr ''op1''"
    "find_operator ''op1'' empty_db = None"
    by code_simp+
  from ApproveNode_blank_reason [OF h] h(1) show ?thesis by blast
qed

end
