(* ===== verification/Placement.thy ===== *)
theory Placement
  imports NodeRegistry
begin

text \<open>
  Which host a runtime may be placed on (\<open>pickCleanupHostTX\<close> to \<open>getBlobKeyHostTX\<close> in
  \<open>internal/store/store.go\<close>, \<open>provisionedHostServesAccount\<close> in \<open>provisioning.go\<close>), and the
  heartbeats that make hosts known. Every query joins the host with its approved node, that node's
  approved operator and a usable key equal to the host's key.
\<close>

section \<open>Conditions the queries share\<close>

definition registered :: "ctx \<Rightarrow> db \<Rightarrow> host \<Rightarrow> bool" where
  "registered c d h \<longleftrightarrow>
     (\<exists>n \<in> set (approved_nodes d). n_node_id n = h_id h \<and> n_status n = ''approved''
        \<and> (\<exists>op \<in> set (node_operators d). o_id op = n_operator_id n \<and> o_status op = ''approved'')
        \<and> (\<exists>k \<in> set (approved_node_keys d). k_node_id k = n_node_id n \<and> k_public_key k = h_public_key h
             \<and> key_usable (db_now c) n k))"

definition ready_host :: "ctx \<Rightarrow> db \<Rightarrow> host \<Rightarrow> bool" where
  "ready_host c d h \<longleftrightarrow> registered c d h \<and> h_docker_socket h \<and> h_binder h
     \<and> h_last_heartbeat_at h \<ge> db_now c - 2 * minute"

definition provisionedHostServesAccount :: "string \<Rightarrow> string \<Rightarrow> db \<Rightarrow> bool" where
  "provisionedHostServesAccount hostID accountID d \<longleftrightarrow>
     \<not> (\<exists>v \<in> set (provisioned_vms d). p_id v = hostID
          \<and> (p_account_id v = None \<or> p_account_id v \<noteq> Some accountID \<or> p_desired v \<noteq> ''present''))"

definition requireFiles :: "runtime \<Rightarrow> bool" where
  "requireFiles r \<longleftrightarrow> EqualFold (r_file_mode r) ''upload-only'' \<or> EqualFold (r_file_mode r) ''bidirectional''"

definition host_capable :: "runtime \<Rightarrow> host \<Rightarrow> bool" where
  "host_capable r h \<longleftrightarrow> (r_audio_enabled r \<longrightarrow> h_audio_streaming h) \<and> (requireFiles r \<longrightarrow> h_file_import h)"

definition account_region :: "string \<Rightarrow> db \<Rightarrow> string" where
  "account_region accountID d =
     (case find (\<lambda>a. a_id a = accountID) (accounts d) of None \<Rightarrow> [] | Some a \<Rightarrow> a_runtime_region a)"

definition later_heartbeat :: "host \<Rightarrow> host \<Rightarrow> bool" where
  "later_heartbeat h h' \<longleftrightarrow> h_last_heartbeat_at h > h_last_heartbeat_at h'"

section \<open>Choosing a host\<close>

text \<open>The camera condition of the queries is off: the code passes \<open>requireCamera = false\<close>.\<close>

definition requireReadyRuntimeHostTX :: "ctx \<Rightarrow> string \<Rightarrow> runtime \<Rightarrow> db \<Rightarrow> string res" where
  "requireReadyRuntimeHostTX c hostID0 r d =
     (let hostID = TrimSpace hostID0 in
      if hostID = [] then Inl ErrNoReadyHost
      else ebind (of_row ErrNoReadyHost (find (\<lambda>h. h_id h = hostID \<and> ready_host c d h \<and> host_capable r h
             \<and> provisionedHostServesAccount (h_id h) (r_account_id r) d) (hosts d))) (\<lambda>h. Inr (h_id h)))"

definition pickReadyRuntimeHostTX :: "ctx \<Rightarrow> string \<Rightarrow> runtime \<Rightarrow> db \<Rightarrow> string res" where
  "pickReadyRuntimeHostTX c preferredHostID r d =
     (let pick = ebind (of_row ErrNoReadyHost (best_by later_heartbeat
            (filter (\<lambda>h. ready_host c d h \<and> host_capable r h \<and> h_region h = account_region (r_account_id r) d
               \<and> provisionedHostServesAccount (h_id h) (r_account_id r) d \<and> \<not> row_locked c (h_id h)) (hosts d))))
            (\<lambda>h. Inr (h_id h))
      in if TrimSpace preferredHostID \<noteq> []
         then case requireReadyRuntimeHostTX c preferredHostID r d of
                Inr hostID \<Rightarrow> Inr hostID
              | Inl e \<Rightarrow> if e \<noteq> ErrNoReadyHost then Inl e else pick
         else pick)"

definition pickCleanupHostTX :: "ctx \<Rightarrow> runtime \<Rightarrow> db \<Rightarrow> string res" where
  "pickCleanupHostTX c r d =
     ebind (of_row ErrNoReadyHost (best_by later_heartbeat
        (filter (\<lambda>h. ready_host c d h \<and> h_region h = account_region (r_account_id r) d
           \<and> provisionedHostServesAccount (h_id h) (r_account_id r) d) (hosts d))))
       (\<lambda>h. Inr (h_id h))"

definition runtimeUsesNodeLocalBlob :: "runtime \<Rightarrow> bool" where
  "runtimeUsesNodeLocalBlob r \<longleftrightarrow> valueOrEmpty (r_blob_manifest_json r) \<noteq> []
     \<and> (let kind = ToLower (valueOrEmpty (r_blob_store_kind r)) in kind = [] \<or> kind = ''local-disk'')"

definition runtimeStartHostTX :: "ctx \<Rightarrow> runtime \<Rightarrow> db \<Rightarrow> string res" where
  "runtimeStartHostTX c r d =
     (let currentHostID = valueOrEmpty (r_host_id r) in
      if currentHostID \<noteq> [] then pickReadyRuntimeHostTX c currentHostID r d
      else if runtimeUsesNodeLocalBlob r
      then let blobHostID = valueOrEmpty (r_blob_host_id r)
           in if blobHostID = [] then Inl ErrRuntimeBlobOwner else requireReadyRuntimeHostTX c blobHostID r d
      else pickReadyRuntimeHostTX c [] r d)"

definition runtimeCleanupHostTX :: "ctx \<Rightarrow> runtime \<Rightarrow> db \<Rightarrow> string res" where
  "runtimeCleanupHostTX c r d =
     (let currentHostID = valueOrEmpty (r_host_id r); blobHostID = valueOrEmpty (r_blob_host_id r) in
      if currentHostID \<noteq> [] then Inr currentHostID
      else if blobHostID \<noteq> [] then Inr blobHostID
      else if runtimeUsesNodeLocalBlob r then Inl ErrRuntimeBlobOwner
      else pickCleanupHostTX c r d)"

definition requireReadyHostTX :: "ctx \<Rightarrow> string \<Rightarrow> db \<Rightarrow> string res" where
  "requireReadyHostTX c hostID0 d =
     (let hostID = TrimSpace hostID0 in
      if hostID = [] then Inl ErrNoReadyHost
      else ebind (of_row ErrNoReadyHost (find (\<lambda>h. h_id h = hostID \<and> ready_host c d h) (hosts d)))
             (\<lambda>h. Inr (h_id h)))"

definition getBlobKeyHostTX :: "ctx \<Rightarrow> string \<Rightarrow> db \<Rightarrow> host res" where
  "getBlobKeyHostTX c hostID d =
     of_row ErrHostNotFound (find (\<lambda>h. h_id h = TrimSpace hostID \<and> registered c d h) (hosts d))"

section \<open>Heartbeats\<close>

text \<open>
  The columns of a heartbeat that placement reads; its name, addresses and storage preflight are
  stored and returned unchanged. A heartbeat without a key keeps the key the host has.
\<close>

definition UpsertHostHeartbeat :: "ctx \<Rightarrow> host \<Rightarrow> db \<Rightarrow> host \<times> db" where
  "UpsertHostHeartbeat c hb d =
     (let fresh = hb\<lparr>h_public_key := TrimSpace (h_public_key hb), h_region := TrimSpace (h_region hb),
                     h_last_heartbeat_at := db_now c, h_snp_attestation := []\<rparr>
      in case find (\<lambda>h. h_id h = h_id hb) (hosts d) of
           None \<Rightarrow> (fresh, d\<lparr>hosts := hosts d @ [fresh]\<rparr>)
         | Some old \<Rightarrow>
             let new = fresh\<lparr>h_public_key := (if h_public_key fresh \<noteq> [] then h_public_key fresh
                                             else h_public_key old),
                             h_snp_attestation := h_snp_attestation old\<rparr>
             in (new, d\<lparr>hosts := update_where (\<lambda>h. h_id h = h_id hb) (\<lambda>_. new) (hosts d)\<rparr>))"

definition AssignPendingRemoteRuntimeCleanup :: "ctx \<Rightarrow> string \<Rightarrow> string \<Rightarrow> nat tx" where
  "AssignPendingRemoteRuntimeCleanup c hostID0 blobStoreKind0 d =
     (let hostID = TrimSpace hostID0; blobStoreKind = ToLower (TrimSpace blobStoreKind0);
          pending = (\<lambda>r. r_host_id r = None \<and> r_blob_host_id r = None \<and> r_deleted_at r = None
             \<and> r_desired_state r = ''deleted'' \<and> sql_filled (r_blob_manifest_json r)
             \<and> ToLower (sql_store_kind (r_blob_store_kind r)) = blobStoreKind
             \<and> \<not> (\<exists>v \<in> set (provisioned_vms d). p_id v = hostID \<and> p_account_id v \<noteq> Some (r_account_id r)))
      in if hostID = [] \<or> blobStoreKind = [] \<or> blobStoreKind = ''local-disk'' then Inr (0, d)
         else Inr (count_where pending (runtimes d),
           d\<lparr>runtimes := update_where pending
               (\<lambda>r. r\<lparr>r_host_id := Some hostID, r_status := ''deleting'', r_connection_status := ''offline'',
                      r_updated_at := db_now c\<rparr>) (runtimes d)\<rparr>))"

section \<open>The contract of a placement\<close>

text \<open>
  A placement takes a runtime and a database to the id of a host that is ready, has what the
  runtime needs and serves its account. What follows from that contract is proved once; each way
  the code has of choosing a host satisfies it.
\<close>

definition placeable :: "ctx \<Rightarrow> db \<Rightarrow> runtime \<Rightarrow> host \<Rightarrow> bool" where
  "placeable c d r h \<longleftrightarrow> h \<in> set (hosts d) \<and> ready_host c d h \<and> host_capable r h
     \<and> provisionedHostServesAccount (h_id h) (r_account_id r) d"

lemma registered_authorized:
  assumes "registry_wf d" "registered c d h"
  obtains ks k where "AuthorizedNodeKeys c (h_id h) d = Inr ks" "k \<in> set ks" "k_public_key k = h_public_key h"
proof -
  obtain n op k where n: "n \<in> set (approved_nodes d)" "n_node_id n = h_id h" "n_status n = ''approved''"
      and op: "op \<in> set (node_operators d)" "o_id op = n_operator_id n" "o_status op = ''approved''"
      and k: "k \<in> set (approved_node_keys d)" "k_node_id k = n_node_id n" "k_public_key k = h_public_key h"
        "key_usable (db_now c) n k"
    using assms(2) unfolding registered_def by blast
  have i: "normalizeRegistryID (h_id h) ''node id'' = Inr (h_id h)"
    using registry_wfD(9) [OF assms(1) n(1)] n(2) by simp
  have f: "find_node (h_id h) d = Some n" "find_operator (n_operator_id n) d = Some op"
    using find_node_unique [OF assms(1) n(1)] find_operator_unique [OF assms(1) op(1)] n(2) op(2) by simp_all
  let ?us = "filter (key_usable (db_now c) n) (listNodeKeys (h_id h) d)"
  have "k \<in> set ?us" using k n(2) by (simp add: set_listNodeKeys)
  moreover from this have "?us \<noteq> []" by (metis empty_iff empty_set)
  ultimately show thesis
    using that [of ?us k] k(3) by (simp add: AuthorizedNodeKeys_def i f n(3) op(3))
qed

locale host_choice =
  fixes place :: "ctx \<Rightarrow> runtime \<Rightarrow> db \<Rightarrow> string res"
  assumes choice_placeable: "place c r d = Inr i \<Longrightarrow> \<exists>h. h_id h = i \<and> placeable c d r h"
begin

text \<open>The chosen host can authenticate: its key is one the registry authorizes now.\<close>

lemma choice_authorized:
  assumes "registry_wf d" "place c r d = Inr i"
  shows "\<exists>h ks k. placeable c d r h \<and> h_id h = i \<and> AuthorizedNodeKeys c i d = Inr ks \<and> k \<in> set ks
     \<and> k_public_key k = h_public_key h"
proof -
  obtain h where h: "h_id h = i" "placeable c d r h" using choice_placeable [OF assms(2)] by blast
  then have "registered c d h" by (simp add: placeable_def ready_host_def)
  then show ?thesis using registered_authorized [OF assms(1)] h by metis
qed

text \<open>A dedicated VM is chosen for the account it belongs to only, while it is to exist.\<close>

lemma choice_dedicated:
  assumes "place c r d = Inr i" "v \<in> set (provisioned_vms d)" "p_id v = i"
  shows "p_account_id v = Some (r_account_id r) \<and> p_desired v = ''present''"
  using choice_placeable [OF assms(1)] assms(2,3)
  by (auto simp: placeable_def provisionedHostServesAccount_def)

end

lemma require_placeable:
  "requireReadyRuntimeHostTX c i r d = Inr j \<Longrightarrow> \<exists>h. h_id h = j \<and> placeable c d r h"
  by (auto simp: requireReadyRuntimeHostTX_def Let_def res_simps placeable_def split: if_splits dest!: find_SomeD)

lemma pick_placeable:
  "pickReadyRuntimeHostTX c i r d = Inr j \<Longrightarrow> \<exists>h. h_id h = j \<and> placeable c d r h"
  by (auto simp: pickReadyRuntimeHostTX_def Let_def res_simps placeable_def
      split: if_splits sum.splits dest!: best_by_in require_placeable [unfolded placeable_def])

lemma start_placeable:
  "runtimeStartHostTX c r d = Inr j \<Longrightarrow> \<exists>h. h_id h = j \<and> placeable c d r h"
  by (auto simp: runtimeStartHostTX_def Let_def split: if_splits dest!: pick_placeable require_placeable)

interpretation required: host_choice "\<lambda>c r d. requireReadyRuntimeHostTX c i r d" for i
  by unfold_locales (rule require_placeable)

interpretation picked: host_choice "\<lambda>c r d. pickReadyRuntimeHostTX c i r d" for i
  by unfold_locales (rule pick_placeable)

interpretation started: host_choice runtimeStartHostTX
  by unfold_locales (rule start_placeable)

text \<open>
  C8. Whatever host a start is given, preferred, newly picked or holding the runtime's snapshot,
  it is one that can authenticate at that moment with the key it reported, reported within two
  minutes, has the features the runtime needs, and is not another account's VM.
\<close>

theorem runtimeStartHostTX_safe:
  assumes "registry_wf d" and "runtimeStartHostTX c r d = Inr i"
  shows "(\<exists>h ks k. h \<in> set (hosts d) \<and> h_id h = i \<and> h_last_heartbeat_at h \<ge> db_now c - 2 * minute
       \<and> host_capable r h \<and> AuthorizedNodeKeys c i d = Inr ks \<and> k \<in> set ks \<and> k_public_key k = h_public_key h)
    \<and> (\<forall>v \<in> set (provisioned_vms d). p_id v = i \<longrightarrow>
         p_account_id v = Some (r_account_id r) \<and> p_desired v = ''present'')"
  using started.choice_authorized [OF assms] started.choice_dedicated [OF assms(2)]
  unfolding placeable_def ready_host_def by blast

text \<open>
  A snapshot kept on one node's disk binds the start to that node: with no current host, the
  start goes to the node that holds the snapshot or fails, it is never started elsewhere without
  its data.
\<close>

theorem runtimeStartHostTX_keeps_local_data:
  assumes "runtimeUsesNodeLocalBlob r" and "valueOrEmpty (r_host_id r) = []"
    and "runtimeStartHostTX c r d = Inr i"
  shows "i = valueOrEmpty (r_blob_host_id r) \<and> i \<noteq> []"
proof -
  have "TrimSpace (valueOrEmpty (r_blob_host_id r)) = valueOrEmpty (r_blob_host_id r)"
    by (simp add: valueOrEmpty_def split: option.splits)
  with assms show ?thesis
    by (auto simp: runtimeStartHostTX_def requireReadyRuntimeHostTX_def Let_def res_simps
        split: if_splits dest!: find_SomeD)
qed

theorem runtimeStartHostTX_safe_witness:
  "\<exists>h. registry_wf sample_db \<and> runtimeStartHostTX sample_ctx sample_runtime sample_db = Inr ''h1''
     \<and> h \<in> set (hosts sample_db) \<and> h_id h = ''h1''"
proof -
  have r: "runtimeStartHostTX sample_ctx sample_runtime sample_db = Inr ''h1''" by code_simp
  from runtimeStartHostTX_safe [OF sample_registry_wf r] r sample_registry_wf show ?thesis by blast
qed

theorem runtimeStartHostTX_keeps_local_data_witness:
  "runtimeStartHostTX sample_ctx (sample_runtime\<lparr>r_blob_manifest_json := Some ''m1'', r_blob_host_id := Some ''h1''\<rparr>)
     sample_db = Inr ''h1''
   \<and> valueOrEmpty (r_blob_host_id (sample_runtime\<lparr>r_blob_manifest_json := Some ''m1'', r_blob_host_id := Some ''h1''\<rparr>)) = ''h1''"
proof -
  let ?r = "sample_runtime\<lparr>r_blob_manifest_json := Some ''m1'', r_blob_host_id := Some ''h1''\<rparr>"
  have h: "runtimeUsesNodeLocalBlob ?r" "valueOrEmpty (r_host_id ?r) = []"
    "runtimeStartHostTX sample_ctx ?r sample_db = Inr ''h1''" by code_simp+
  from runtimeStartHostTX_keeps_local_data [OF h] h(3) show ?thesis by simp
qed

end
