(* ===== verification/Lifecycle.thy ===== *)
theory Lifecycle
  imports Profile Placement
begin

text \<open>
  The life of a runtime as its owner drives it: start, stop, wipe and delete a runtime, delete an
  account with everything it owns, revoke a device (\<open>internal/store/store.go\<close>), and the assignment
  feed a node polls. Each operation is a transaction on the database; a request that finds the
  runtime already where it should be changes nothing.
\<close>

section \<open>Viewer ports\<close>

definition viewerPortStart :: int where
  "viewerPortStart = 46000"

definition viewerPortEnd :: int where
  "viewerPortEnd = 46099"

definition allocateViewerPortTX :: "db \<Rightarrow> int res" where
  "allocateViewerPortTX d =
     (let used = [the (r_viewer_port r). r \<leftarrow> runtimes d, r_viewer_port r \<noteq> None \<and> r_deleted_at r = None]
      in of_row (ErrMsg ''no viewer ports available'')
           (find (\<lambda>port. port \<notin> set used) [viewerPortStart..viewerPortEnd]))"

text \<open>The unique index on \<open>viewer_port\<close> spans every row, deleted ones included.\<close>

definition viewer_port_taken :: "string \<Rightarrow> int \<Rightarrow> db \<Rightarrow> bool" where
  "viewer_port_taken runtimeID port d \<longleftrightarrow>
     (\<exists>r \<in> set (runtimes d). r_id r \<noteq> runtimeID \<and> r_viewer_port r = Some port)"

section \<open>Start and stop\<close>

definition start_row :: "ctx \<Rightarrow> string \<Rightarrow> int \<Rightarrow> bool \<Rightarrow> runtime \<Rightarrow> runtime" where
  "start_row c hostID viewerPort freshIdentity r =
     r\<lparr>r_host_id := Some hostID, r_status := ''starting'', r_desired_state := ''running'',
       r_operation_generation := r_operation_generation r + 1, r_connection_status := ''connecting'',
       r_viewer_port := Some viewerPort, r_wipe_requested := False, r_last_error := None,
       r_persona_version := r_persona_version r + 1,
       r_identity_reset_persona_version :=
         (if freshIdentity then Some (r_persona_version r + 1) else r_identity_reset_persona_version r),
       r_active_persona_json := None, r_container_name := None, r_adb_port := None,
       r_started_at := Some (db_now c), r_deleted_at := None, r_updated_at := db_now c\<rparr>"

definition start_message :: "bool \<Rightarrow> runtime \<Rightarrow> string" where
  "start_message freshIdentity r =
     ''Runtime start requested. persona_version='' @ show_int (r_persona_version r) @ ''.''
     @ (if freshIdentity then '' Apps get new device IDs.'' else [])"

definition startRuntime :: "ctx \<Rightarrow> pricing \<Rightarrow> string \<Rightarrow> string \<Rightarrow> string \<Rightarrow> bool \<Rightarrow> runtime tx" where
  "startRuntime c p accountID runtimeID requiredHostID freshIdentity d =
     ebind (of_row ErrRuntimeNotFound (find (runtime_row accountID runtimeID) (runtimes d))) (\<lambda>current.
     if EqualFold (TrimSpace (r_desired_state current)) ''running'' then Inr (current, d)
     else if r_cleanup_pending current then Inl ErrRuntimeCleanupPending
     else ebind (ensureRuntimeStartEntitlementTX c p accountID runtimeID d) (\<lambda>_.
          ebind (if requiredHostID \<noteq> [] then requireReadyRuntimeHostTX c requiredHostID current d
                 else pickReadyRuntimeHostTX c (valueOrEmpty (r_host_id current)) current d) (\<lambda>hostID.
          ebind (case r_viewer_port current of Some port \<Rightarrow> Inr port | None \<Rightarrow> allocateViewerPortTX d) (\<lambda>viewerPort.
          if viewer_port_taken runtimeID viewerPort d
          then Inl (ErrConstraint ''idx_runtimes_viewer_port_unique'')
          else let runtime = start_row c hostID viewerPort freshIdentity current;
                   d1 = d\<lparr>runtimes := update_where (runtime_row accountID runtimeID)
                           (start_row c hostID viewerPort freshIdentity) (runtimes d)\<rparr>
               in Inr (runtime, appendRuntimeStartEventTX c accountID (r_id runtime)
                    (appendRuntimeLogTX c (r_id runtime) ''user'' ''info'' (start_message freshIdentity runtime) d1))))))"

definition StartRuntime :: "ctx \<Rightarrow> pricing \<Rightarrow> string \<Rightarrow> string \<Rightarrow> runtime tx" where
  "StartRuntime c p accountID runtimeID = startRuntime c p accountID runtimeID [] False"

definition StartRuntimeOnHost :: "ctx \<Rightarrow> pricing \<Rightarrow> string \<Rightarrow> string \<Rightarrow> string \<Rightarrow> bool \<Rightarrow> runtime tx" where
  "StartRuntimeOnHost c p accountID runtimeID hostID freshIdentity =
     startRuntime c p accountID runtimeID (TrimSpace hostID) freshIdentity"

definition CheckRuntimeStartEntitlement :: "ctx \<Rightarrow> pricing \<Rightarrow> string \<Rightarrow> string \<Rightarrow> db \<Rightarrow> unit res" where
  "CheckRuntimeStartEntitlement c p accountID runtimeID d =
     ebind (of_row ErrRuntimeNotFound (find (runtime_row accountID runtimeID) (runtimes d))) (\<lambda>r.
       if EqualFold (TrimSpace (r_desired_state r)) ''running'' \<or> r_cleanup_pending r then Inr ()
       else ensureRuntimeStartEntitlementTX c p accountID runtimeID d)"

definition stop_request_row :: "ctx \<Rightarrow> runtime \<Rightarrow> runtime" where
  "stop_request_row c r =
     r\<lparr>r_status := ''stopping'', r_desired_state := ''stopped'',
       r_operation_generation := r_operation_generation r + 1, r_connection_status := ''disconnecting'',
       r_started_at := None, r_updated_at := db_now c\<rparr>"

definition StopRuntime :: "ctx \<Rightarrow> string \<Rightarrow> string \<Rightarrow> runtime tx" where
  "StopRuntime c accountID runtimeID d =
     ebind (of_row ErrRuntimeNotFound (find (runtime_row accountID runtimeID) (runtimes d))) (\<lambda>current.
     if EqualFold (TrimSpace (r_desired_state current)) ''stopped'' then Inr (current, d)
     else let runtime = stop_request_row c current;
              d1 = d\<lparr>runtimes := update_where (runtime_row accountID runtimeID) (stop_request_row c) (runtimes d)\<rparr>
          in Inr (runtime, appendRuntimeLogTX c (r_id runtime) ''user'' ''info'' ''Runtime stop requested.''
               (revokeRuntimeCapabilitiesForRuntimeTX c (r_id runtime)
                 (closeRuntimeSessionsTX c (r_id runtime) ''runtime stopped'' d1))))"

section \<open>Wipe and delete\<close>

text \<open>
  A wipe or delete names the node that is to do it, or none. It must be the node that holds the
  runtime, else the one that holds its snapshot, else any node when there is no node-local snapshot.
\<close>

definition cleanup_target :: "string \<Rightarrow> runtime \<Rightarrow> bool" where
  "cleanup_target hostID r \<longleftrightarrow>
     hostID = [] \<or> r_host_id r = Some hostID
     \<or> (r_host_id r = None
        \<and> (r_blob_host_id r = Some hostID
           \<or> (r_blob_host_id r = None
              \<and> (\<not> sql_filled (r_blob_manifest_json r) \<or> sql_store_kind (r_blob_store_kind r) \<noteq> ''local-disk''))))"

definition nullif_empty :: "string \<Rightarrow> string option" where
  "nullif_empty s = (if s = [] then None else Some s)"

definition wipe_row :: "ctx \<Rightarrow> string \<Rightarrow> runtime \<Rightarrow> runtime" where
  "wipe_row c hostID r =
     r\<lparr>r_host_id := coalesce2 (r_host_id r) (nullif_empty hostID), r_status := ''wiping'',
       r_desired_state := ''stopped'',
       r_operation_generation := (if r_wipe_requested r \<or> r_status r = ''wiping'' then r_operation_generation r
                                  else r_operation_generation r + 1),
       r_connection_status := ''offline'', r_started_at := None, r_wipe_requested := True,
       r_last_error := None, r_updated_at := db_now c\<rparr>"

definition wipeRuntime :: "ctx \<Rightarrow> string \<Rightarrow> string \<Rightarrow> string \<Rightarrow> runtime tx" where
  "wipeRuntime c accountID runtimeID hostID d =
     (let target = (\<lambda>r. runtime_row accountID runtimeID r \<and> cleanup_target hostID r)
      in ebind (of_row ErrRuntimeNotFound (find target (runtimes d))) (\<lambda>current.
           let runtime = wipe_row c hostID current;
               d1 = d\<lparr>runtimes := update_where target (wipe_row c hostID) (runtimes d)\<rparr>
           in Inr (runtime, appendRuntimeLogTX c (r_id runtime) ''user'' ''warn''
                ''Runtime wipe requested. User data will be removed.''
                (revokeRuntimeCapabilitiesForRuntimeTX c (r_id runtime)
                  (closeRuntimeSessionsTX c (r_id runtime) ''runtime wiped'' d1)))))"

definition WipeRuntime :: "ctx \<Rightarrow> string \<Rightarrow> string \<Rightarrow> runtime tx" where
  "WipeRuntime c accountID runtimeID = wipeRuntime c accountID runtimeID []"

definition WipeRuntimeOnHost :: "ctx \<Rightarrow> string \<Rightarrow> string \<Rightarrow> string \<Rightarrow> runtime tx" where
  "WipeRuntimeOnHost c accountID runtimeID hostID = wipeRuntime c accountID runtimeID (TrimSpace hostID)"

definition delete_row :: "ctx \<Rightarrow> string \<Rightarrow> runtime \<Rightarrow> runtime" where
  "delete_row c hostID r =
     (let host = coalesce2 (r_host_id r) (nullif_empty hostID); gone = (host = None) in
      r\<lparr>r_host_id := host,
        r_operation_generation := (if r_desired_state r = ''deleted'' then r_operation_generation r
                                   else r_operation_generation r + 1),
        r_status := (if gone then ''deleted'' else ''deleting''), r_desired_state := ''deleted'',
        r_connection_status := ''offline'', r_started_at := None,
        r_active_persona_json := (if gone then None else r_active_persona_json r),
        r_blob_store_kind := (if gone then None else r_blob_store_kind r),
        r_blob_manifest_json := (if gone then None else r_blob_manifest_json r),
        r_blob_host_id := (if gone then None else r_blob_host_id r),
        r_wipe_requested := False,
        r_container_name := (if gone then None else r_container_name r),
        r_adb_port := (if gone then None else r_adb_port r),
        r_viewer_port := (if gone then None else r_viewer_port r),
        r_deleted_at := (if gone then Some (db_now c) else r_deleted_at r),
        r_updated_at := db_now c\<rparr>)"

definition deleted_row :: "ctx \<Rightarrow> runtime \<Rightarrow> runtime" where
  "deleted_row c r =
     r\<lparr>r_status := ''deleted'', r_deleted_at := Some (db_now c), r_container_name := None,
       r_adb_port := None, r_viewer_port := None, r_started_at := None, r_updated_at := db_now c\<rparr>"

definition deleteRuntime :: "ctx \<Rightarrow> string \<Rightarrow> string \<Rightarrow> string \<Rightarrow> runtime tx" where
  "deleteRuntime c accountID runtimeID hostID d =
     (let target = (\<lambda>r. r_account_id r = accountID \<and> r_id r = runtimeID \<and> r_deleted_at r = None
            \<and> cleanup_target hostID r)
      in ebind (of_row ErrRuntimeNotFound (find target (runtimes d))) (\<lambda>current.
           let runtime1 = delete_row c hostID current;
               d1 = d\<lparr>runtimes := update_where target (delete_row c hostID) (runtimes d)\<rparr>;
               (runtime, d2) =
                 (if r_host_id runtime1 = None
                  then (deleted_row c runtime1,
                        d1\<lparr>runtimes := update_where (\<lambda>r. r_id r = r_id runtime1) (deleted_row c) (runtimes d1)\<rparr>)
                  else (runtime1, d1))
           in Inr (runtime, appendRuntimeLogTX c (r_id runtime) ''user'' ''warn'' ''Runtime scheduled for deletion.''
                (revokeRuntimeCapabilitiesForRuntimeTX c (r_id runtime)
                  (closeRuntimeSessionsTX c (r_id runtime) ''runtime deleted'' d2)))))"

definition DeleteRuntime :: "ctx \<Rightarrow> string \<Rightarrow> string \<Rightarrow> runtime tx" where
  "DeleteRuntime c accountID runtimeID = deleteRuntime c accountID runtimeID []"

definition DeleteRuntimeOnHost :: "ctx \<Rightarrow> string \<Rightarrow> string \<Rightarrow> string \<Rightarrow> runtime tx" where
  "DeleteRuntimeOnHost c accountID runtimeID hostID = deleteRuntime c accountID runtimeID (TrimSpace hostID)"

section \<open>Deleting an account\<close>

text \<open>
  What \<open>ON DELETE CASCADE\<close> removes with an account row: everything that refers to the account, to one
  of its runtimes or devices, or to one of its capabilities.
\<close>

definition subscribed_devices :: "(notification_subscription \<Rightarrow> bool) \<Rightarrow> db \<Rightarrow> string set" where
  "subscribed_devices P d = ns_device_id ` set (filter P (device_notification_subscriptions d))"

definition delete_account_rows :: "string \<Rightarrow> db \<Rightarrow> db" where
  "delete_account_rows a d =
     (let rids = r_id ` set (filter (\<lambda>r. r_account_id r = a) (runtimes d));
          dids = dv_id ` set (filter (\<lambda>v. dv_account_id v = a) (devices d));
          cids = c_id ` set (filter (\<lambda>k. c_account_id k = a \<or> c_runtime_id k \<in> rids) (runtime_capabilities d));
          subs = subscribed_devices (\<lambda>n. ns_account_id n = a \<or> ns_device_id n \<in> dids) d
      in d\<lparr>accounts := delete_where (\<lambda>x. a_id x = a) (accounts d),
           account_entitlements := delete_where (\<lambda>e. e_account_id e = a) (account_entitlements d),
           account_ledger := delete_where (\<lambda>l. l_account_id l = a) (account_ledger d),
           usdt_deposits := delete_where (\<lambda>x. d_account_id x = a) (usdt_deposits d),
           devices := delete_where (\<lambda>v. dv_account_id v = a) (devices d),
           device_request_nonces := delete_where (\<lambda>n. case x_key n of (acc, dev, _) \<Rightarrow> acc = a \<or> dev \<in> dids)
             (device_request_nonces d),
           runtimes := delete_where (\<lambda>r. r_account_id r = a) (runtimes d),
           runtime_logs := delete_where (\<lambda>g. g_runtime_id g \<in> rids) (runtime_logs d),
           runtime_app_selections := delete_where (\<lambda>s. as_runtime_id s \<in> rids) (runtime_app_selections d),
           runtime_capabilities := delete_where (\<lambda>k. c_account_id k = a \<or> c_runtime_id k \<in> rids)
             (runtime_capabilities d),
           runtime_capability_nonces := delete_where (\<lambda>n. fst (x_key n) \<in> cids) (runtime_capability_nonces d),
           sessions := map (\<lambda>s. if s_capability_id s \<in> Some ` cids then s\<lparr>s_capability_id := None\<rparr> else s)
             (delete_where (\<lambda>s. s_runtime_id s \<in> rids \<or> s_device_id s \<in> Some ` dids) (sessions d)),
           runtime_blob_key_handoffs := delete_where (\<lambda>b. b_account_id b = a \<or> b_runtime_id b \<in> rids)
             (runtime_blob_key_handoffs d),
           runtime_start_events := delete_where (\<lambda>v. v_account_id v = a) (runtime_start_events d),
           account_recovery_credentials := delete_where (\<lambda>x. rc_account_id x = a) (account_recovery_credentials d),
           account_recovery_challenges := delete_where (\<lambda>x. ch_account_id x = a) (account_recovery_challenges d),
           account_storage := delete_where (\<lambda>x. st_account_id x = a) (account_storage d),
           device_notification_subscriptions := delete_where (\<lambda>n. ns_device_id n \<in> subs) (device_notification_subscriptions d),
           runtime_notification_agents := delete_where (\<lambda>x. ag_account_id x = a \<or> ag_runtime_id x \<in> rids)
             (runtime_notification_agents d),
           runtime_notification_deliveries := delete_where (\<lambda>n. nd_origin n \<in> rids \<or> nd_device_id n \<in> subs)
             (runtime_notification_deliveries d),
           security_notice_deliveries := delete_where (\<lambda>n. nd_device_id n \<in> subs) (security_notice_deliveries d),
           operator_notice_deliveries := delete_where (\<lambda>n. nd_device_id n \<in> subs) (operator_notice_deliveries d)\<rparr>)"

definition deleteAccountIfRuntimeCleanupDoneTX :: "string \<Rightarrow> db \<Rightarrow> db" where
  "deleteAccountIfRuntimeCleanupDoneTX accountID0 d =
     (let accountID = TrimSpace accountID0 in
      if accountID = [] then d
      else case find (\<lambda>a. a_id a = accountID) (accounts d) of
        None \<Rightarrow> d
      | Some a \<Rightarrow>
          if a_deleted_at a = None then d
          else if count_where (\<lambda>r. r_account_id r = accountID \<and> r_deleted_at r = None) (runtimes d) > 0 then d
          else delete_account_rows accountID d)"

definition account_delete_row :: "ctx \<Rightarrow> runtime \<Rightarrow> runtime" where
  "account_delete_row c r =
     (let host = coalesce2 (r_host_id r) (r_blob_host_id r);
          gone = (host = None \<and> \<not> sql_filled (r_blob_manifest_json r))
      in r\<lparr>r_host_id := host,
           r_operation_generation := (if r_desired_state r = ''deleted'' then r_operation_generation r
                                      else r_operation_generation r + 1),
           r_status := (if gone then ''deleted'' else ''deleting''), r_desired_state := ''deleted'',
           r_connection_status := ''offline'', r_started_at := None,
           r_container_name := (if host = None then None else r_container_name r),
           r_adb_port := (if host = None then None else r_adb_port r),
           r_viewer_port := (if host = None then None else r_viewer_port r),
           r_deleted_at := (if gone then Some (db_now c) else r_deleted_at r),
           r_updated_at := db_now c\<rparr>)"

definition queueAccountRemoval :: "ctx \<Rightarrow> string \<Rightarrow> db \<Rightarrow> db" where
  "queueAccountRemoval c accountID d =
     (let owned = (\<lambda>r. r_account_id r = accountID \<and> r_deleted_at r = None);
          d1 = d\<lparr>runtimes := update_where owned (account_delete_row c) (runtimes d)\<rparr>;
          queuedRuntimeIDs = map r_id (filter (\<lambda>r. valueOrEmpty (r_host_id (account_delete_row c r)) \<noteq> [])
            (filter owned (runtimes d)));
          d2 = fold (\<lambda>runtimeID. appendRuntimeLogTX c runtimeID ''system'' ''warn''
                 ''Account deletion requested; runtime cleanup queued.'') queuedRuntimeIDs d1;
          dids = dv_id ` set (filter (\<lambda>v. dv_account_id v = accountID) (devices d2));
          subs = subscribed_devices (\<lambda>n. ns_device_id n \<in> dids) d2
      in d2\<lparr>device_request_nonces := delete_where
              (\<lambda>n. case x_key n of (acc, dev, _) \<Rightarrow> acc = accountID \<or> dev \<in> dids) (device_request_nonces d2),
            devices := delete_where (\<lambda>v. dv_account_id v = accountID) (devices d2),
            sessions := delete_where (\<lambda>s. s_device_id s \<in> Some ` dids) (sessions d2),
            device_notification_subscriptions := delete_where (\<lambda>n. ns_device_id n \<in> subs)
              (device_notification_subscriptions d2),
            runtime_notification_deliveries := delete_where (\<lambda>n. nd_device_id n \<in> subs) (runtime_notification_deliveries d2),
            security_notice_deliveries := delete_where (\<lambda>n. nd_device_id n \<in> subs) (security_notice_deliveries d2),
            operator_notice_deliveries := delete_where (\<lambda>n. nd_device_id n \<in> subs) (operator_notice_deliveries d2),
            account_storage := delete_where (\<lambda>x. st_account_id x = accountID) (account_storage d2),
            account_entitlements := delete_where (\<lambda>e. e_account_id e = accountID) (account_entitlements d2),
            accounts := update_where (\<lambda>a. a_id a = accountID \<and> a_deleted_at a = None)
              (\<lambda>a. a\<lparr>a_deleted_at := Some (db_now c)\<rparr>) (accounts d2)\<rparr>)"

definition DeleteAccount :: "ctx \<Rightarrow> string \<Rightarrow> unit tx" where
  "DeleteAccount c accountID0 d =
     (let accountID = TrimSpace accountID0 in
      if accountID = [] then Inl ErrAccountNotFound
      else if find (\<lambda>a. a_id a = accountID \<and> a_deleted_at a = None) (accounts d) = None then Inl ErrAccountNotFound
      else Inr ((), deleteAccountIfRuntimeCleanupDoneTX accountID (queueAccountRemoval c accountID d)))"

section \<open>Revoking a device\<close>

text \<open>
  The last statement of \<open>RevokeDevice\<close> is one query: all its parts read the sessions as they are when
  it starts, and it closes the sessions and stops the runtimes at once.
\<close>

definition revoked_session :: "string \<Rightarrow> string \<Rightarrow> db \<Rightarrow> session \<Rightarrow> bool" where
  "revoked_session accountID deviceID d s \<longleftrightarrow>
     (s_device_id s = Some deviceID
      \<or> (\<exists>k \<in> set (runtime_capabilities d). c_account_id k = accountID \<and> s_capability_id s = Some (c_id k)))
     \<and> (\<exists>r \<in> set (runtimes d). r_id r = s_runtime_id s \<and> r_account_id r = accountID)
     \<and> live_session s"

definition revoke_candidate :: "ctx \<Rightarrow> string \<Rightarrow> string \<Rightarrow> db \<Rightarrow> runtime \<Rightarrow> bool" where
  "revoke_candidate c accountID deviceID d r \<longleftrightarrow>
     r_account_id r = accountID \<and> r_deleted_at r = None \<and> r_desired_state r = ''running''
     \<and> (\<exists>s \<in> set (sessions d). s_runtime_id s = r_id r \<and> revoked_session accountID deviceID d s)
     \<and> \<not> (\<exists>s \<in> set (sessions d). s_runtime_id s = r_id r \<and> s_device_id s \<noteq> None
            \<and> s_device_id s \<noteq> Some deviceID \<and> live_session s \<and> s_expires_at s > db_now c)"

definition RevokeDevice :: "ctx \<Rightarrow> string \<Rightarrow> string \<Rightarrow> (device \<times> string list) tx" where
  "RevokeDevice c accountID0 targetDeviceID0 d =
     (let accountID = TrimSpace accountID0; targetDeviceID = TrimSpace targetDeviceID0;
          mine = (\<lambda>v. dv_account_id v = accountID \<and> dv_revoked_at v = None)
      in if accountID = [] \<or> targetDeviceID = [] then Inl ErrDeviceNotFound
         else if find (\<lambda>a. a_id a = accountID \<and> a_deleted_at a = None) (accounts d) = None then Inl ErrDeviceNotFound
         else ebind (of_row ErrDeviceNotFound (find (\<lambda>v. mine v \<and> dv_id v = targetDeviceID) (devices d))) (\<lambda>v0.
           if count_where mine (devices d) \<le> 1 then Inl ErrLastActiveDevice
           else let revoke = (\<lambda>v. v\<lparr>dv_revoked_at := Some (db_now c), dv_last_seen_at := Some (db_now c)\<rparr>);
                    d1 = d\<lparr>devices := update_where (\<lambda>v. mine v \<and> dv_id v = targetDeviceID) revoke (devices d),
                           device_request_nonces := delete_where
                             (\<lambda>n. case x_key n of (acc, dev, _) \<Rightarrow> acc = accountID \<and> dev = targetDeviceID)
                             (device_request_nonces d)\<rparr>;
                    d2 = revoke_capabilities_where c (\<lambda>k. c_account_id k = accountID) d1;
                    stopped = map r_id (filter (revoke_candidate c accountID targetDeviceID d2) (runtimes d2));
                    d3 = d2\<lparr>sessions := update_where (revoked_session accountID targetDeviceID d2)
                             (\<lambda>s. s\<lparr>s_status := ''revoked'', s_updated_at := db_now c, s_ended_at := Some (db_now c),
                                    s_end_reason := Some ''device revoked''\<rparr>) (sessions d2),
                           runtimes := update_where (\<lambda>r. r_id r \<in> set stopped) (stop_row c) (runtimes d2)\<rparr>;
                    d4 = fold (\<lambda>runtimeID. appendRuntimeLogTX c runtimeID ''system'' ''warn''
                           ''Runtime stop queued because a linked device was revoked.'') stopped d3
                in Inr ((revoke v0, stopped), d4)))"

section \<open>The assignment feed of a node\<close>

definition restoreViewerPort :: "ctx \<Rightarrow> string \<Rightarrow> string \<Rightarrow> db \<Rightarrow> db res" where
  "restoreViewerPort c hostID runtimeID d =
     ebind (allocateViewerPortTX d) (\<lambda>viewerPort.
       let target = (\<lambda>r. r_id r = runtimeID \<and> r_host_id r = Some hostID \<and> r_desired_state r = ''running''
              \<and> r_deleted_at r = None \<and> r_viewer_port r = None)
       in if (\<exists>r \<in> set (runtimes d). target r) \<and> viewer_port_taken runtimeID viewerPort d
          then Inl (ErrConstraint ''idx_runtimes_viewer_port_unique'')
          else Inr (appendRuntimeLogTX c runtimeID ''system'' ''info''
                 (''Viewer port '' @ show_int viewerPort @ '' restored for running runtime assignment.'')
                 (d\<lparr>runtimes := update_where target
                     (\<lambda>r. r\<lparr>r_viewer_port := Some viewerPort, r_last_error := None, r_updated_at := db_now c\<rparr>)
                     (runtimes d)\<rparr>)))"

definition allocateMissingViewerPortsForHostTX :: "ctx \<Rightarrow> string \<Rightarrow> db \<Rightarrow> db res" where
  "allocateMissingViewerPortsForHostTX c hostID0 d =
     (let hostID = TrimSpace hostID0 in
      if hostID = [] then Inr d
      else efold (restoreViewerPort c hostID)
        (map r_id (sort_key r_updated_at (filter (\<lambda>r. r_host_id r = Some hostID \<and> r_desired_state r = ''running''
           \<and> r_deleted_at r = None \<and> r_viewer_port r = None) (runtimes d)))) d)"

fun attachStorageQuotaToRuntimesTX ::
  "ctx \<Rightarrow> db \<Rightarrow> runtime list \<Rightarrow> (runtime \<times> (int \<times> int) option) list res" where
  "attachStorageQuotaToRuntimesTX c d [] = Inr []"
| "attachStorageQuotaToRuntimesTX c d (r # rs) =
     ebind (if EqualFold (TrimSpace (r_desired_state r)) ''deleted'' \<or> EqualFold (TrimSpace (r_status r)) ''deleting''
            then Inr None
            else let accountID = TrimSpace (r_account_id r) in
              ebind (of_row ErrRuntimeEntitlement (find (\<lambda>e. e_account_id e = accountID) (account_entitlements d))) (\<lambda>e.
              ebind (accountStorageBytesUsed c accountID d) (\<lambda>used. Inr (Some (e_storage_bytes_limit e, used))))) (\<lambda>quota.
     ebind (attachStorageQuotaToRuntimesTX c d rs) (\<lambda>rest. Inr ((r, quota) # rest)))"

definition assigned_runtime :: "string \<Rightarrow> runtime \<Rightarrow> bool" where
  "assigned_runtime hostID r \<longleftrightarrow> r_host_id r = Some hostID \<and> r_deleted_at r = None
     \<and> (r_desired_state r \<in> set [''running'', ''stopped'', ''deleted'']
        \<or> r_status r \<in> set [''starting'', ''running'', ''stopping'', ''stopped'', ''wiping'', ''deleting'', ''error''])"

definition ListAssignedRuntimes :: "ctx \<Rightarrow> string \<Rightarrow> (runtime \<times> (int \<times> int) option) list tx" where
  "ListAssignedRuntimes c hostID d =
     ebind (allocateMissingViewerPortsForHostTX c hostID d) (\<lambda>d1.
     ebind (attachStorageQuotaToRuntimesTX c d1
       (sort_key (\<lambda>r. - r_updated_at r) (filter (assigned_runtime hostID) (runtimes d1)))) (\<lambda>assigned.
     Inr (assigned, d1)))"

definition RequireRuntimeAssignedToHost :: "string \<Rightarrow> string \<Rightarrow> db \<Rightarrow> unit res" where
  "RequireRuntimeAssignedToHost runtimeID0 hostID0 d =
     (let runtimeID = TrimSpace runtimeID0; hostID = TrimSpace hostID0 in
      if runtimeID = [] \<or> hostID = [] then Inl ErrRuntimeNotFound
      else ebind (of_row ErrRuntimeNotFound (find (\<lambda>r. r_id r = runtimeID \<and> r_host_id r = Some hostID
             \<and> r_deleted_at r = None \<and> r_desired_state r \<noteq> ''deleted'') (runtimes d))) (\<lambda>_. Inr ()))"

section \<open>The runtimes table\<close>

text \<open>
  What every operation keeps of the runtimes table: ids are unique, no two runtimes share a viewer
  port, ports lie in their range, and a deleted runtime holds none.
\<close>

definition runtimes_wf :: "runtime list \<Rightarrow> bool" where
  "runtimes_wf rs \<longleftrightarrow> distinct (map r_id rs)
     \<and> unique_where (\<lambda>r. r_viewer_port r \<noteq> None) r_viewer_port rs
     \<and> (\<forall>r \<in> set rs. \<forall>port. r_viewer_port r = Some port \<longrightarrow>
          viewerPortStart \<le> port \<and> port \<le> viewerPortEnd \<and> r_deleted_at r = None)"

text \<open>Operation generations only grow: a node's report for an older generation stays recognisable.\<close>

definition generations_grow :: "runtime list \<Rightarrow> runtime list \<Rightarrow> bool" where
  "generations_grow rs rs' \<longleftrightarrow>
     (\<forall>r \<in> set rs. \<forall>r' \<in> set rs'. r_id r' = r_id r \<longrightarrow> r_operation_generation r \<le> r_operation_generation r')"

lemma generations_grow_refl: "distinct (map r_id rs) \<Longrightarrow> generations_grow rs rs"
  unfolding generations_grow_def by (metis key_eq_row order_refl)

lemma generations_grow_update:
  assumes "distinct (map r_id rs)" and "\<And>r. P r \<Longrightarrow> r_id (f r) = r_id r"
    and "\<And>r. P r \<Longrightarrow> r_operation_generation r \<le> r_operation_generation (f r)"
  shows "generations_grow rs (update_where P f rs)"
  unfolding generations_grow_def ball_update_where
proof (intro ballI)
  fix r q assume r: "r \<in> set rs" and q: "q \<in> set rs"
  show "if P q then r_id (f q) = r_id r \<longrightarrow> r_operation_generation r \<le> r_operation_generation (f q)
      else r_id q = r_id r \<longrightarrow> r_operation_generation r \<le> r_operation_generation q"
    using key_eq_row [OF assms(1) q r] assms(2,3) by auto
qed

text \<open>
  A change of a row that keeps the id, never lowers the generation, keeps or drops the viewer port,
  and drops it when the row becomes deleted. An \<open>UPDATE\<close> with such a change keeps the table well
  formed and its generations growing, whichever rows it selects.
\<close>

locale row_change =
  fixes f :: "runtime \<Rightarrow> runtime"
  assumes same_id: "r_id (f r) = r_id r"
    and generation: "r_operation_generation r \<le> r_operation_generation (f r)"
    and port: "r_viewer_port (f r) = r_viewer_port r \<or> r_viewer_port (f r) = None"
    and deleted: "r_deleted_at (f r) \<noteq> None \<Longrightarrow> r_viewer_port (f r) = None \<or> r_deleted_at r \<noteq> None"
begin

lemma ids: "map r_id (update_where P f rs) = map r_id rs"
  by (simp add: map_update_where same_id)

lemma grow: "distinct (map r_id rs) \<Longrightarrow> generations_grow rs (update_where P f rs)"
  by (rule generations_grow_update) (auto simp: same_id generation)

lemma wf:
  assumes "runtimes_wf rs"
  shows "runtimes_wf (update_where P f rs)"
  unfolding runtimes_wf_def
proof (intro conjI)
  show "distinct (map r_id (update_where P f rs))"
    using assms by (simp add: ids runtimes_wf_def)
  show "unique_where (\<lambda>r. r_viewer_port r \<noteq> None) r_viewer_port (update_where P f rs)"
  proof (rule unique_where_update)
    show "unique_where (\<lambda>r. r_viewer_port r \<noteq> None) r_viewer_port rs"
      using assms by (simp add: runtimes_wf_def)
    show "r_viewer_port r \<noteq> None \<and> r_viewer_port (f r) = r_viewer_port r"
      if "r_viewer_port (f r) \<noteq> None" for r
      using that port [of r] by auto
  qed
  show "\<forall>r \<in> set (update_where P f rs). \<forall>port. r_viewer_port r = Some port \<longrightarrow>
      viewerPortStart \<le> port \<and> port \<le> viewerPortEnd \<and> r_deleted_at r = None"
    unfolding ball_update_where
  proof (intro ballI)
    fix r assume "r \<in> set rs"
    then have r: "\<forall>port. r_viewer_port r = Some port \<longrightarrow>
        viewerPortStart \<le> port \<and> port \<le> viewerPortEnd \<and> r_deleted_at r = None"
      using assms by (simp add: runtimes_wf_def)
    then show "if P r then \<forall>port. r_viewer_port (f r) = Some port \<longrightarrow>
          viewerPortStart \<le> port \<and> port \<le> viewerPortEnd \<and> r_deleted_at (f r) = None
        else \<forall>port. r_viewer_port r = Some port \<longrightarrow>
          viewerPortStart \<le> port \<and> port \<le> viewerPortEnd \<and> r_deleted_at r = None"
      using port [of r] deleted [of r] by (cases "r_deleted_at (f r)") auto
  qed
qed

end

interpretation stop_request: row_change "stop_request_row c" for c
  by unfold_locales (simp_all add: stop_request_row_def)

interpretation queued_stop: row_change "stop_row c" for c
  by unfold_locales (simp_all add: stop_row_def)

interpretation wipe: row_change "wipe_row c hostID" for c hostID
  by unfold_locales (simp_all add: wipe_row_def)

interpretation removal: row_change "delete_row c hostID" for c hostID
  by unfold_locales (auto simp: delete_row_def Let_def)

interpretation removed: row_change "deleted_row c" for c
  by unfold_locales (simp_all add: deleted_row_def)

interpretation account_removal: row_change "account_delete_row c" for c
  by unfold_locales (auto simp: account_delete_row_def Let_def)

interpretation settings: row_change "copySettings c new" for c new
  by unfold_locales (simp_all add: copySettings_def)

interpretation billed: row_change "\<lambda>r. r\<lparr>r_billed_through := t\<rparr>" for t
  by unfold_locales simp_all

section \<open>Starting\<close>

lemma allocateViewerPortTX_free:
  assumes "allocateViewerPortTX d = Inr port"
  shows "viewerPortStart \<le> port \<and> port \<le> viewerPortEnd
    \<and> (\<forall>r \<in> set (runtimes d). r_deleted_at r = None \<longrightarrow> r_viewer_port r \<noteq> Some port)"
  using assms by (force simp: allocateViewerPortTX_def Let_def dest!: find_SomeD)

lemma allocateViewerPortTX_full:
  "allocateViewerPortTX d = Inl e \<longleftrightarrow> e = ErrMsg ''no viewer ports available''
     \<and> (\<forall>port. viewerPortStart \<le> port \<and> port \<le> viewerPortEnd \<longrightarrow>
          (\<exists>r \<in> set (runtimes d). r_deleted_at r = None \<and> r_viewer_port r = Some port))"
proof -
  have "port \<in> set [the (r_viewer_port r). r \<leftarrow> runtimes d, r_viewer_port r \<noteq> None \<and> r_deleted_at r = None]
      \<longleftrightarrow> (\<exists>r \<in> set (runtimes d). r_deleted_at r = None \<and> r_viewer_port r = Some port)" for port
    by force
  then show ?thesis by (auto simp: allocateViewerPortTX_def Let_def find_None_iff)
qed

lemma wf_port_owner:
  assumes "runtimes_wf rs" and "r \<in> set rs" and "q \<in> set rs"
    and "r_viewer_port r = Some port" and "r_viewer_port q = Some port"
  shows "r = q"
  using assms unique_whereD [of "\<lambda>r. r_viewer_port r \<noteq> None" r_viewer_port rs r q]
  by (simp add: runtimes_wf_def)

text \<open>A start that changes something: the checks it passed, the host and port it took.\<close>

definition starts_on :: "ctx \<Rightarrow> pricing \<Rightarrow> string \<Rightarrow> string \<Rightarrow> string \<Rightarrow> db \<Rightarrow> runtime \<Rightarrow> string \<Rightarrow> int \<Rightarrow> bool" where
  "starts_on c p a rid required d current hostID port \<longleftrightarrow>
     find (runtime_row a rid) (runtimes d) = Some current
     \<and> \<not> EqualFold (TrimSpace (r_desired_state current)) ''running'' \<and> \<not> r_cleanup_pending current
     \<and> ensureRuntimeStartEntitlementTX c p a rid d = Inr ()
     \<and> (if required \<noteq> [] then requireReadyRuntimeHostTX c required current d
        else pickReadyRuntimeHostTX c (valueOrEmpty (r_host_id current)) current d) = Inr hostID
     \<and> (case r_viewer_port current of Some q \<Rightarrow> Inr q | None \<Rightarrow> allocateViewerPortTX d) = Inr port"

lemma startRuntime_cases:
  assumes "startRuntime c p a rid required fresh d = Inr (r, d')"
  obtains (running) "find (runtime_row a rid) (runtimes d) = Some r"
      and "EqualFold (TrimSpace (r_desired_state r)) ''running''" and "d' = d"
    | (started) current hostID port where "starts_on c p a rid required d current hostID port"
      and "\<not> viewer_port_taken rid port d" and "r = start_row c hostID port fresh current"
      and "d' = appendRuntimeStartEventTX c a rid (appendRuntimeLogTX c rid ''user'' ''info''
             (start_message fresh r) (d\<lparr>runtimes := update_where (runtime_row a rid)
                (start_row c hostID port fresh) (runtimes d)\<rparr>))"
proof -
  from assms obtain current where cur: "find (runtime_row a rid) (runtimes d) = Some current"
    by (auto simp: startRuntime_def res_simps)
  then have row: "current \<in> set (runtimes d)" "runtime_row a rid current" by (auto dest: find_SomeD)
  then have id: "r_id (start_row c hostID port fresh current) = rid" for hostID port
    by (simp add: start_row_def runtime_row_def)
  show ?thesis
  proof (cases "EqualFold (TrimSpace (r_desired_state current)) ''running''")
    case True
    with assms cur show ?thesis by (intro running) (simp_all add: startRuntime_def)
  next
    case False
    with assms cur row show ?thesis
      by (auto simp: startRuntime_def starts_on_def Let_def res_simps id intro: started split: if_splits)
  qed
qed

lemma start_port_free:
  assumes "runtimes_wf (runtimes d)" and "starts_on c p a rid required d current hostID port"
  shows "\<not> viewer_port_taken rid port d" and "viewerPortStart \<le> port" and "port \<le> viewerPortEnd"
proof -
  have cur: "current \<in> set (runtimes d)" "r_id current = rid"
    and p: "(case r_viewer_port current of Some q \<Rightarrow> Inr q | None \<Rightarrow> allocateViewerPortTX d) = Inr port"
    using assms(2) find_SomeD [of "runtime_row a rid" "runtimes d" current]
    by (auto simp: starts_on_def runtime_row_def)
  have wf: "\<forall>r \<in> set (runtimes d). \<forall>q. r_viewer_port r = Some q \<longrightarrow>
      viewerPortStart \<le> q \<and> q \<le> viewerPortEnd \<and> r_deleted_at r = None"
    using assms(1) by (simp add: runtimes_wf_def)
  have "\<not> viewer_port_taken rid port d \<and> viewerPortStart \<le> port \<and> port \<le> viewerPortEnd"
  proof (cases "r_viewer_port current")
    case (Some q)
    with p have port: "r_viewer_port current = Some port" by simp
    then have "r = current" if "r \<in> set (runtimes d)" "r_viewer_port r = Some port" for r
      using wf_port_owner [OF assms(1) that(1) cur(1) that(2)] by simp
    then have "\<not> viewer_port_taken rid port d" using cur(2) unfolding viewer_port_taken_def by blast
    moreover have "viewerPortStart \<le> port \<and> port \<le> viewerPortEnd" using wf cur(1) port by blast
    ultimately show ?thesis by blast
  next
    case None
    with p have "allocateViewerPortTX d = Inr port" by simp
    from allocateViewerPortTX_free [OF this] wf show ?thesis unfolding viewer_port_taken_def by blast
  qed
  then show "\<not> viewer_port_taken rid port d" "viewerPortStart \<le> port" "port \<le> viewerPortEnd" by auto
qed

lemma start_row_simps [simp]:
  "r_id (start_row c h port fresh r) = r_id r" "r_viewer_port (start_row c h port fresh r) = Some port"
  "r_deleted_at (start_row c h port fresh r) = None" "r_desired_state (start_row c h port fresh r) = ''running''"
  "r_account_id (start_row c h port fresh r) = r_account_id r"
  "r_operation_generation (start_row c h port fresh r) = r_operation_generation r + 1"
  by (simp_all add: start_row_def)

lemma startRuntime_wf:
  assumes "runtimes_wf (runtimes d)" and "startRuntime c p a rid required fresh d = Inr (r, d')"
  shows "runtimes_wf (runtimes d')"
  using assms(2)
proof (cases rule: startRuntime_cases)
  case running
  with assms(1) show ?thesis by simp
next
  case (started current hostID port)
  let ?P = "runtime_row a rid" and ?f = "start_row c hostID port fresh"
  note free = start_port_free [OF assms(1) started(1)]
  have d: "distinct (map r_id (runtimes d))" using assms(1) by (simp add: runtimes_wf_def)
  have "unique_where (\<lambda>r. r_viewer_port r \<noteq> None) r_viewer_port (update_where ?P ?f (runtimes d))"
  proof (rule unique_where_set_key [OF d])
    show "unique_where (\<lambda>r. r_viewer_port r \<noteq> None) r_viewer_port (runtimes d)"
      using assms(1) by (simp add: runtimes_wf_def)
    show "r_id q = rid" if "?P q" for q using that by (simp add: runtime_row_def)
    show "r_viewer_port q \<noteq> r_viewer_port (?f x)" if "x \<in> set (runtimes d)" "?P x" "q \<in> set (runtimes d)" "\<not> ?P q" for x q
    proof -
      have x: "r_id x = rid" using that(2) by (simp add: runtime_row_def)
      have "r_id q \<noteq> rid"
      proof
        assume "r_id q = rid"
        with x have "x = q" using key_eq_row [OF d that(1,3)] by metis
        with that(2,4) show False by blast
      qed
      then have "r_viewer_port q \<noteq> Some port" using free(1) that(3) unfolding viewer_port_taken_def by blast
      then show ?thesis by simp
    qed
  qed
  moreover have "runtimes d' = update_where ?P ?f (runtimes d)" unfolding started(4) by simp
  ultimately show ?thesis
    using assms(1) free(2,3) unfolding runtimes_wf_def by (simp add: ball_update_where map_update_where)
qed

lemma paidBalanceCheck_error: "paidBalanceCheck p a s m d = Inl e \<Longrightarrow> e = ErrRuntimeBalance"
  by (auto simp: paidBalanceCheck_def Let_def split: if_splits)

lemma start_error_not_constraint:
  "ensureRuntimeStartEntitlementTX c p a rid d \<noteq> Inl (ErrConstraint x)"
  "requireReadyRuntimeHostTX c h r d \<noteq> Inl (ErrConstraint x)"
  "pickReadyRuntimeHostTX c h r d \<noteq> Inl (ErrConstraint x)"
  "allocateViewerPortTX d \<noteq> Inl (ErrConstraint x)"
proof -
  show "ensureRuntimeStartEntitlementTX c p a rid d \<noteq> Inl (ErrConstraint x)"
    by (auto simp: ensureRuntimeStartEntitlementTX_def accountEntitlementTX_def Let_def res_simps
        dest: paidBalanceCheck_error split: if_splits)
  show "requireReadyRuntimeHostTX c h r d \<noteq> Inl (ErrConstraint x)" for h
    by (auto simp: requireReadyRuntimeHostTX_def Let_def res_simps)
  then show "pickReadyRuntimeHostTX c h r d \<noteq> Inl (ErrConstraint x)"
    by (auto simp: pickReadyRuntimeHostTX_def Let_def res_simps split: sum.splits)
  show "allocateViewerPortTX d \<noteq> Inl (ErrConstraint x)"
    by (auto simp: allocateViewerPortTX_def Let_def)
qed

lemma startRuntime_constraint:
  assumes "startRuntime c p a rid required fresh d = Inl (ErrConstraint x)"
  shows "\<exists>current hostID port. starts_on c p a rid required d current hostID port \<and> viewer_port_taken rid port d"
  using assms start_error_not_constraint
  by (auto simp: startRuntime_def starts_on_def Let_def res_simps split: if_splits option.splits)


lemma find_update_where:
  "(\<And>r. P r \<Longrightarrow> P (f r)) \<Longrightarrow> find P (update_where P f rs) = map_option f (find P rs)"
  by (induction rs) auto

lemma runtime_row_start: "runtime_row a rid r \<Longrightarrow> runtime_row a rid (start_row c h port fresh r)"
  by (simp add: runtime_row_def)

lemma running_state: "EqualFold (TrimSpace ''running'') ''running''"
  by code_simp

text \<open>
  A repeated start is an observation: once a start has succeeded, starting the same runtime again
  - with whatever host, identity or prices, at whatever time - returns the same runtime and changes
  nothing, neither its assignment and viewer nor the account's count of starts.
\<close>

theorem startRuntime_idempotent:
  assumes "startRuntime c p a rid required fresh d = Inr (r, d')"
  shows "startRuntime c' p' a rid required' fresh' d' = Inr (r, d')"
  using assms
proof (cases rule: startRuntime_cases)
  case running
  then show ?thesis by (simp add: startRuntime_def)
next
  case (started current hostID port)
  have "find (runtime_row a rid) (update_where (runtime_row a rid) (start_row c hostID port fresh) (runtimes d)) = Some r"
    using started(1,3) find_update_where [of "runtime_row a rid" "start_row c hostID port fresh" "runtimes d", OF runtime_row_start] by (simp add: starts_on_def)
  then have "find (runtime_row a rid) (runtimes d') = Some r" unfolding started(4) by simp
  moreover have "EqualFold (TrimSpace (r_desired_state r)) ''running''" using started(3) running_state by simp
  ultimately show ?thesis by (simp add: startRuntime_def)
qed

lemma count_where_split:
  "count_where Q rs = count_where (\<lambda>r. Q r \<and> key r \<noteq> k) rs + count_where (\<lambda>r. Q r \<and> key r = k) rs"
  by (induction rs) auto

lemma count_where_key_le1: "distinct (map key rs) \<Longrightarrow> count_where (\<lambda>r. Q r \<and> key r = k) rs \<le> 1"
proof (induction rs)
  case (Cons x rs)
  show ?case
  proof (cases "key x = k")
    case True
    then have "\<forall>r \<in> set rs. key r \<noteq> k" using Cons.prems by (auto simp: image_iff)
    then have "count_where (\<lambda>r. Q r \<and> key r = k) rs = 0" by (simp add: count_where_0)
    then show ?thesis by simp
  next
    case False
    then show ?thesis using Cons by simp
  qed
qed simp

lemma count_update_key_le:
  assumes "distinct (map key rs)" and "\<And>r. P r \<Longrightarrow> key r = k \<and> key (f r) = k"
  shows "count_where Q (update_where P f rs) \<le> count_where (\<lambda>r. Q r \<and> key r \<noteq> k) rs + 1"
proof -
  have "distinct (map key (update_where P f rs))"
    using assms by (simp add: map_update_where)
  from count_where_key_le1 [OF this, of Q k]
  have "count_where Q (update_where P f rs) \<le> count_where (\<lambda>r. Q r \<and> key r \<noteq> k) (update_where P f rs) + 1"
    by (subst count_where_split [of Q _ key k]) simp
  also have "count_where (\<lambda>r. Q r \<and> key r \<noteq> k) (update_where P f rs) = count_where (\<lambda>r. Q r \<and> key r \<noteq> k) rs"
    by (rule count_where_update_eq) (use assms(2) in auto)
  finally show ?thesis .
qed

text \<open>
  C11. A start keeps the account within its entitlement: afterwards no more runtimes are meant to run
  than the limit allows and no more starts are counted in the last day, the host it runs on is one it
  may be placed on, and a trial with no time left or a paid account below the minimum balance never
  gets there.
\<close>

theorem startRuntime_entitled:
  assumes "startRuntime c p a rid required fresh d = Inr (r, d')" and "distinct (map r_id (runtimes d))"
    and "\<forall>q \<in> set (runtimes d). r_id q = rid \<longrightarrow> \<not> EqualFold (TrimSpace (r_desired_state q)) ''running''"
  shows "\<exists>e. accountEntitlementTX a d = Inr e \<and> entitlementActive c e
    \<and> int (count_where (active_runtime a) (runtimes d')) \<le> e_active_runtime_limit e
    \<and> starts_today c a d' \<le> e_runtime_starts_per_day e
    \<and> \<not> trialRuntimeTimeExhausted e (trialRuntimeSecondsUsed a d)
    \<and> paidBalanceCheck p a (e_source e) (MinimumStartMicro p) d = Inr ()
    \<and> (\<exists>h q. q \<in> set (runtimes d) \<and> r_id q = rid \<and> placeable c d q h \<and> r_host_id r = Some (h_id h))"
  using assms(1)
proof (cases rule: startRuntime_cases)
  case running
  then show ?thesis using assms(3) find_SomeD [OF running(1)] by (auto simp: runtime_row_def)
next
  case (started current hostID port)
  have cur: "current \<in> set (runtimes d)" "r_id current = rid"
    using started(1) find_SomeD [of "runtime_row a rid" "runtimes d" current] by (auto simp: starts_on_def runtime_row_def)
  have ent: "ensureRuntimeStartEntitlementTX c p a rid d = Inr ()" using started(1) by (simp add: starts_on_def)
  then obtain e where e: "accountEntitlementTX a d = Inr e" "entitlementActive c e"
      "int (count_where (\<lambda>r. active_runtime a r \<and> r_id r \<noteq> rid) (runtimes d)) < e_active_runtime_limit e"
      "starts_today c a d < e_runtime_starts_per_day e"
      "\<not> trialRuntimeTimeExhausted e (trialRuntimeSecondsUsed a d)"
      "paidBalanceCheck p a (e_source e) (MinimumStartMicro p) d = Inr ()"
    by (auto simp: ensureRuntimeStartEntitlementTX_def Let_def res_simps split: if_splits)
  have rt: "runtimes d' = update_where (runtime_row a rid) (start_row c hostID port fresh) (runtimes d)"
    and ev: "runtime_start_events d' = runtime_start_events d @ [\<lparr>v_account_id = a, v_runtime_id = rid, v_created_at = db_now c\<rparr>]"
    unfolding started(4) by (simp_all add: appendRuntimeStartEventTX_def)
  have "count_where (active_runtime a) (runtimes d') \<le> count_where (\<lambda>r. active_runtime a r \<and> r_id r \<noteq> rid) (runtimes d) + 1"
    unfolding rt by (rule count_update_key_le [OF assms(2)]) (simp add: runtime_row_def)
  moreover have "starts_today c a d' = starts_today c a d + 1" by (simp add: starts_today_def ev)
  moreover have "\<exists>h. placeable c d current h \<and> h_id h = hostID"
    using started(1) require_placeable [of c required current d hostID]
      pick_placeable [of c "valueOrEmpty (r_host_id current)" current d hostID]
    by (auto simp: starts_on_def split: if_splits)
  moreover have "r_host_id r = Some hostID" using started(3) by (simp add: start_row_def)
  ultimately show ?thesis using e cur by (intro exI [of _ e]) auto
qed

lemma sample_runtimes_wf: "runtimes_wf (runtimes sample_db)" "runtimes_wf (runtimes sample_live)"
  by (simp_all add: runtimes_wf_def sample_defs unique_where_def viewerPortStart_def viewerPortEnd_def)

lemma startRuntime_succeeds:
  assumes "starts_on c p a rid required d current hostID port" and "\<not> viewer_port_taken rid port d"
  shows "\<exists>d'. startRuntime c p a rid required fresh d = Inr (start_row c hostID port fresh current, d')"
  using assms by (simp add: startRuntime_def starts_on_def Let_def)

lemma sample_started:
  "\<exists>d'. startRuntime sample_ctx sample_pricing ''a1'' ''r1'' '''' False sample_db
     = Inr (start_row sample_ctx ''h1'' 46000 False sample_runtime, d')"
proof (rule startRuntime_succeeds)
  have "ensureRuntimeStartEntitlementTX sample_ctx sample_pricing ''a1'' ''r1'' sample_db = Inr ()"
    "pickReadyRuntimeHostTX sample_ctx (valueOrEmpty (r_host_id sample_runtime)) sample_runtime sample_db = Inr ''h1''"
    "allocateViewerPortTX sample_db = Inr 46000"
    "\<not> EqualFold (TrimSpace (r_desired_state sample_runtime)) ''running''" by code_simp+
  then show "starts_on sample_ctx sample_pricing ''a1'' ''r1'' '''' sample_db sample_runtime ''h1'' 46000"
    by (simp add: starts_on_def runtime_row_def sample_db_def sample_runtime_def)
  show "\<not> viewer_port_taken ''r1'' 46000 sample_db" by (simp add: viewer_port_taken_def sample_db_def sample_runtime_def)
qed


theorem startRuntime_idempotent_witness:
  "\<exists>r d'. startRuntime sample_ctx sample_pricing ''a1'' ''r1'' '''' False sample_db = Inr (r, d')
     \<and> startRuntime sample_ctx sample_pricing ''a1'' ''r1'' ''h2'' True d' = Inr (r, d')"
  using sample_started startRuntime_idempotent by blast

theorem startRuntime_entitled_witness:
  "\<exists>r d' e. startRuntime sample_ctx sample_pricing ''a1'' ''r1'' '''' False sample_db = Inr (r, d')
     \<and> accountEntitlementTX ''a1'' sample_db = Inr e
     \<and> int (count_where (active_runtime ''a1'') (runtimes d')) \<le> e_active_runtime_limit e"
proof -
  obtain r d' where s: "startRuntime sample_ctx sample_pricing ''a1'' ''r1'' '''' False sample_db = Inr (r, d')"
    using sample_started by blast
  have d: "distinct (map r_id (runtimes sample_db))" by (simp add: sample_db_def)
  have "\<not> EqualFold (TrimSpace ''stopped'') ''running''" by code_simp
  then have n: "\<forall>q \<in> set (runtimes sample_db). r_id q = ''r1'' \<longrightarrow> \<not> EqualFold (TrimSpace (r_desired_state q)) ''running''" by (simp add: sample_db_def sample_runtime_def)
  from startRuntime_entitled [OF s d n] s show ?thesis by blast
qed

section \<open>Stopping, wiping and deleting\<close>

text \<open>What the three operations do to the database once they have rewritten the runtimes table.\<close>

definition torn_down :: "ctx \<Rightarrow> string \<Rightarrow> runtime list \<Rightarrow> db \<Rightarrow> db \<Rightarrow> bool" where
  "torn_down c rid rs d d' \<longleftrightarrow>
     (\<exists>level msg why. d' = appendRuntimeLogTX c rid ''user'' level msg (revokeRuntimeCapabilitiesForRuntimeTX c rid
        (closeRuntimeSessionsTX c rid why (d\<lparr>runtimes := rs\<rparr>))))"

lemma torn_down_access:
  assumes "torn_down c rid rs d d'" and "TrimSpace rid = rid"
  shows "runtimes d' = rs" and "no_live_session rid d'" and "no_valid_capability rid d'"
    and "filter (\<lambda>s. s_runtime_id s \<noteq> rid) (sessions d') = filter (\<lambda>s. s_runtime_id s \<noteq> rid) (sessions d)"
  using assms by (auto simp: torn_down_def revoke_for_runtime_none closeRuntimeSessionsTX_others)

lemma StopRuntime_cases:
  assumes "StopRuntime c a rid d = Inr (r, d')"
  obtains (stopped) "find (runtime_row a rid) (runtimes d) = Some r"
      and "EqualFold (TrimSpace (r_desired_state r)) ''stopped''" and "d' = d"
    | (requested) current where "find (runtime_row a rid) (runtimes d) = Some current"
      and "r = stop_request_row c current"
      and "torn_down c rid (update_where (runtime_row a rid) (stop_request_row c) (runtimes d)) d d'"
proof -
  from assms obtain current where cur: "find (runtime_row a rid) (runtimes d) = Some current"
    by (auto simp: StopRuntime_def res_simps)
  have id: "r_id (stop_request_row c current) = rid"
    using find_SomeD [OF cur] by (simp add: stop_request.same_id runtime_row_def)
  show ?thesis
  proof (cases "EqualFold (TrimSpace (r_desired_state current)) ''stopped''")
    case True
    with assms cur show ?thesis by (intro stopped) (simp_all add: StopRuntime_def)
  next
    case False
    show ?thesis
      by (rule requested [OF cur]) (use assms cur False in \<open>auto simp: StopRuntime_def Let_def torn_down_def id\<close>)
  qed
qed

lemma wipeRuntime_cases:
  assumes "wipeRuntime c a rid h d = Inr (r, d')"
  obtains current where "find (\<lambda>r. runtime_row a rid r \<and> cleanup_target h r) (runtimes d) = Some current"
    and "r = wipe_row c h current"
    and "torn_down c rid (update_where (\<lambda>r. runtime_row a rid r \<and> cleanup_target h r) (wipe_row c h) (runtimes d)) d d'"
proof -
  from assms obtain current where
    cur: "find (\<lambda>r. runtime_row a rid r \<and> cleanup_target h r) (runtimes d) = Some current"
    by (auto simp: wipeRuntime_def Let_def res_simps)
  have id: "r_id (wipe_row c h current) = rid"
    using find_SomeD [OF cur] by (simp add: wipe.same_id runtime_row_def)
  show ?thesis by (rule that [OF cur]) (use assms cur in \<open>auto simp: wipeRuntime_def Let_def torn_down_def id\<close>)
qed

definition delete_target :: "string \<Rightarrow> string \<Rightarrow> string \<Rightarrow> runtime \<Rightarrow> bool" where
  "delete_target a rid h r \<longleftrightarrow>
     r_account_id r = a \<and> r_id r = rid \<and> r_deleted_at r = None \<and> cleanup_target h r"

lemma deleteRuntime_cases:
  assumes "deleteRuntime c a rid h d = Inr (r, d')"
  obtains (queued) current where "find (delete_target a rid h) (runtimes d) = Some current"
      and "r = delete_row c h current" and "r_host_id r \<noteq> None"
      and "torn_down c rid (update_where (delete_target a rid h) (delete_row c h) (runtimes d)) d d'"
    | (removed) current where "find (delete_target a rid h) (runtimes d) = Some current"
      and "r = deleted_row c (delete_row c h current)" and "r_host_id r = None"
      and "torn_down c rid (update_where (\<lambda>r. r_id r = rid) (deleted_row c)
             (update_where (delete_target a rid h) (delete_row c h) (runtimes d))) d d'"
proof -
  have t: "(\<lambda>r. r_account_id r = a \<and> r_id r = rid \<and> r_deleted_at r = None \<and> cleanup_target h r) = delete_target a rid h"
    by (intro ext) (simp add: delete_target_def)
  from assms obtain current where cur: "find (delete_target a rid h) (runtimes d) = Some current"
    by (auto simp: deleteRuntime_def Let_def t res_simps)
  have id: "r_id (delete_row c h current) = rid"
    using find_SomeD [OF cur] by (simp add: removal.same_id delete_target_def)
  have host: "r_host_id (deleted_row c q) = r_host_id q" for q by (simp add: deleted_row_def)
  show ?thesis
  proof (cases "r_host_id (delete_row c h current) = None")
    case True
    show ?thesis
      by (rule removed [OF cur]) (use assms cur True in \<open>auto simp: deleteRuntime_def Let_def t torn_down_def id host removed.same_id\<close>)
  next
    case False
    show ?thesis
      by (rule queued [OF cur]) (use assms cur False in \<open>auto simp: deleteRuntime_def Let_def t torn_down_def id\<close>)
  qed
qed

lemma other_rows_update:
  assumes "\<And>q. P q \<Longrightarrow> r_id q = rid" and "\<And>q. r_id (f q) = r_id q"
  shows "filter (\<lambda>q. r_id q \<noteq> rid) (update_where P f rs) = filter (\<lambda>q. r_id q \<noteq> rid) rs"
  using assms by (intro filter_update_where_other) auto

text \<open>The row of the runtime that a statement selects by its id, after the statement.\<close>

lemma updated_row:
  assumes "distinct (map r_id rs)" and "find P rs = Some cur" and "r_id cur = rid"
    and "\<And>q. r_id (f q) = r_id q" and "\<And>q. Q (f q)"
  shows "\<forall>q \<in> set (update_where P f rs). r_id q = rid \<longrightarrow> Q q"
  unfolding ball_update_where
proof (intro ballI)
  fix q assume q: "q \<in> set rs"
  have "q = cur" if "r_id q = rid"
    using key_eq_row [OF assms(1) q] find_SomeD [OF assms(2)] assms(3) that by metis
  then show "if P q then r_id (f q) = rid \<longrightarrow> Q (f q) else r_id q = rid \<longrightarrow> Q q"
    using find_SomeD [OF assms(2)] assms(5) by auto
qed

definition cut_off :: "runtime \<Rightarrow> bool" where
  "cut_off r \<longleftrightarrow> r_desired_state r \<noteq> ''running'' \<and> r_connection_status r \<noteq> ''online''"

lemma cut_off_rows:
  "cut_off (stop_request_row c r)" "cut_off (wipe_row c h r)" "cut_off (delete_row c h r)"
  "cut_off (deleted_row c r) = cut_off r"
  by (simp_all add: cut_off_def stop_request_row_def wipe_row_def delete_row_def deleted_row_def Let_def)

definition tears_down :: "ctx \<Rightarrow> string \<Rightarrow> db \<Rightarrow> db \<Rightarrow> bool" where
  "tears_down c rid d d' \<longleftrightarrow>
     (\<exists>rs. torn_down c rid rs d d' \<and> (\<forall>q \<in> set rs. r_id q = rid \<longrightarrow> cut_off q)
        \<and> filter (\<lambda>q. r_id q \<noteq> rid) rs = filter (\<lambda>q. r_id q \<noteq> rid) (runtimes d))"

lemma StopRuntime_tears:
  assumes "StopRuntime c a rid d = Inr (r, d')" "d' \<noteq> d" and "distinct (map r_id (runtimes d))"
  shows "tears_down c rid d d'"
proof -
  from assms(1,2) obtain current where cur: "find (runtime_row a rid) (runtimes d) = Some current"
    and t: "torn_down c rid (update_where (runtime_row a rid) (stop_request_row c) (runtimes d)) d d'"
    by (cases rule: StopRuntime_cases) auto
  have "r_id current = rid" using find_SomeD [OF cur] by (simp add: runtime_row_def)
  from updated_row [OF assms(3) cur this, of "stop_request_row c" cut_off]
    other_rows_update [of "runtime_row a rid" rid "stop_request_row c" "runtimes d"] t
  show ?thesis by (auto simp: tears_down_def cut_off_rows stop_request.same_id runtime_row_def)
qed

lemma wipeRuntime_tears:
  assumes "wipeRuntime c a rid h d = Inr (r, d')" and "distinct (map r_id (runtimes d))"
  shows "tears_down c rid d d'"
proof -
  let ?P = "\<lambda>r. runtime_row a rid r \<and> cleanup_target h r"
  from assms(1) obtain current where cur: "find ?P (runtimes d) = Some current"
    and t: "torn_down c rid (update_where ?P (wipe_row c h) (runtimes d)) d d'"
    by (rule wipeRuntime_cases)
  have "r_id current = rid" using find_SomeD [OF cur] by (simp add: runtime_row_def)
  from updated_row [OF assms(2) cur this, of "wipe_row c h" cut_off]
    other_rows_update [of ?P rid "wipe_row c h" "runtimes d"] t
  show ?thesis by (auto simp: tears_down_def cut_off_rows wipe.same_id runtime_row_def)
qed

lemma deleteRuntime_tears:
  assumes "deleteRuntime c a rid h d = Inr (r, d')" and "distinct (map r_id (runtimes d))"
  shows "tears_down c rid d d'"
proof -
  let ?P = "delete_target a rid h" and ?rs = "update_where (delete_target a rid h) (delete_row c h) (runtimes d)"
  from assms(1) obtain current where cur: "find ?P (runtimes d) = Some current" and t: "torn_down c rid ?rs d d'
      \<or> torn_down c rid (update_where (\<lambda>r. r_id r = rid) (deleted_row c) ?rs) d d'"
    by (cases rule: deleteRuntime_cases) auto
  have "r_id current = rid" using find_SomeD [OF cur] by (simp add: delete_target_def)
  from updated_row [OF assms(2) cur this, of "delete_row c h" cut_off]
  have 1: "\<forall>q \<in> set ?rs. r_id q = rid \<longrightarrow> cut_off q" by (simp add: cut_off_rows removal.same_id)
  then have 2: "\<forall>q \<in> set (update_where (\<lambda>r. r_id r = rid) (deleted_row c) ?rs). r_id q = rid \<longrightarrow> cut_off q"
    unfolding ball_update_where [where P = "\<lambda>r. r_id r = rid"] by (simp add: cut_off_rows removed.same_id)
  have 3: "filter (\<lambda>q. r_id q \<noteq> rid) ?rs = filter (\<lambda>q. r_id q \<noteq> rid) (runtimes d)"
    by (rule other_rows_update) (simp_all add: delete_target_def removal.same_id)
  then have "filter (\<lambda>q. r_id q \<noteq> rid) (update_where (\<lambda>r. r_id r = rid) (deleted_row c) ?rs)
      = filter (\<lambda>q. r_id q \<noteq> rid) (runtimes d)"
    using other_rows_update [of "\<lambda>r. r_id r = rid" rid "deleted_row c" ?rs] by (simp add: removed.same_id)
  with 1 2 3 t show ?thesis unfolding tears_down_def by blast
qed

text \<open>
  C12. A runtime that is stopped, wiped or deleted is cut off from its clients: in the same transaction
  it is no longer meant to run or shown online, no viewer session of it stays open, every key that a
  client was given for it is revoked, and no other runtime's row or session changes.
\<close>

theorem teardown_disconnects:
  assumes "StopRuntime c a rid d = Inr (r, d') \<and> d' \<noteq> d \<or> wipeRuntime c a rid h d = Inr (r, d')
      \<or> deleteRuntime c a rid h d = Inr (r, d')"
    and "distinct (map r_id (runtimes d))" and "TrimSpace rid = rid"
  shows "no_live_session rid d' \<and> no_valid_capability rid d'
    \<and> (\<forall>q \<in> set (runtimes d'). r_id q = rid \<longrightarrow> cut_off q)
    \<and> filter (\<lambda>q. r_id q \<noteq> rid) (runtimes d') = filter (\<lambda>q. r_id q \<noteq> rid) (runtimes d)
    \<and> filter (\<lambda>s. s_runtime_id s \<noteq> rid) (sessions d') = filter (\<lambda>s. s_runtime_id s \<noteq> rid) (sessions d)"
proof -
  have "tears_down c rid d d'"
    using assms(1) by (elim disjE conjE) (erule (1) StopRuntime_tears [OF _ _ assms(2)],
        erule wipeRuntime_tears [OF _ assms(2)], erule deleteRuntime_tears [OF _ assms(2)])
  then obtain rs where rs: "torn_down c rid rs d d'" "\<forall>q \<in> set rs. r_id q = rid \<longrightarrow> cut_off q"
    "filter (\<lambda>q. r_id q \<noteq> rid) rs = filter (\<lambda>q. r_id q \<noteq> rid) (runtimes d)"
    unfolding tears_down_def by blast
  from torn_down_access [OF rs(1) assms(3)] rs(2,3) show ?thesis by simp
qed

theorem teardown_disconnects_witness:
  "\<exists>r d'. deleteRuntime sample_ctx ''a1'' ''r1'' ''h1'' sample_live = Inr (r, d')
     \<and> \<not> no_live_session ''r1'' sample_live \<and> no_live_session ''r1'' d'"
proof -
  have "map_sum id (\<lambda>_. ()) (deleteRuntime sample_ctx ''a1'' ''r1'' ''h1'' sample_live) = Inr ()"
    by (simp add: deleteRuntime_def cleanup_target_def sample_live_def sample_running_def sample_runtime_def
        delete_row_def Let_def)
  then obtain r d' where x: "deleteRuntime sample_ctx ''a1'' ''r1'' ''h1'' sample_live = Inr (r, d')"
    by (auto dest: sample_run)
  have d: "distinct (map r_id (runtimes sample_live))" by (simp add: sample_live_def)
  have t: "TrimSpace ''r1'' = ''r1''" by code_simp
  have "\<not> no_live_session ''r1'' sample_live"
    by (simp add: no_live_session_def sample_live_def sample_session_def live_session_def)
  with teardown_disconnects [OF disjI2 [OF disjI2 [OF x]] d t] x show ?thesis by blast
qed

section \<open>Deleting an account\<close>

text \<open>Nothing in the database refers to the account any more.\<close>

definition account_gone :: "string \<Rightarrow> db \<Rightarrow> bool" where
  "account_gone a d \<longleftrightarrow>
     a \<notin> a_id ` set (accounts d) \<and> a \<notin> e_account_id ` set (account_entitlements d)
     \<and> a \<notin> l_account_id ` set (account_ledger d) \<and> a \<notin> d_account_id ` set (usdt_deposits d)
     \<and> a \<notin> dv_account_id ` set (devices d) \<and> a \<notin> r_account_id ` set (runtimes d)
     \<and> a \<notin> c_account_id ` set (runtime_capabilities d) \<and> a \<notin> b_account_id ` set (runtime_blob_key_handoffs d)
     \<and> a \<notin> v_account_id ` set (runtime_start_events d) \<and> a \<notin> (fst \<circ> x_key) ` set (device_request_nonces d)"

definition cleanup_open :: "string \<Rightarrow> runtime \<Rightarrow> bool" where
  "cleanup_open a r \<longleftrightarrow> r_account_id r = a \<and> r_deleted_at r = None"

lemma delete_account_rows_gone: "account_gone a (delete_account_rows a d)"
  by (auto simp: account_gone_def delete_account_rows_def Let_def case_prod_beta)

lemma delete_account_rows_runtimes [simp]:
  "runtimes (delete_account_rows a d) = delete_where (\<lambda>r. r_account_id r = a) (runtimes d)"
  by (simp add: delete_account_rows_def Let_def)

lemma cleanup_done_cases:
  obtains (kept) "deleteAccountIfRuntimeCleanupDoneTX a d = d"
      and "TrimSpace a = [] \<or> (\<forall>x \<in> set (accounts d). a_id x = TrimSpace a \<longrightarrow> a_deleted_at x = None)
        \<or> count_where (cleanup_open (TrimSpace a)) (runtimes d) > 0 \<or> (\<exists>x \<in> set (accounts d). a_id x = TrimSpace a \<and> a_deleted_at x = None)"
    | (gone) "deleteAccountIfRuntimeCleanupDoneTX a d = delete_account_rows (TrimSpace a) d"
      and "count_where (cleanup_open (TrimSpace a)) (runtimes d) = 0"
proof -
  have t: "(\<lambda>r. r_account_id r = TrimSpace a \<and> r_deleted_at r = None) = cleanup_open (TrimSpace a)"
    by (intro ext) (simp add: cleanup_open_def)
  show ?thesis
  proof (cases "find (\<lambda>x. a_id x = TrimSpace a) (accounts d)")
    case None
    then have "\<forall>x \<in> set (accounts d). a_id x \<noteq> TrimSpace a" by (auto simp: find_None_iff)
    with None show ?thesis by (intro kept) (auto simp: deleteAccountIfRuntimeCleanupDoneTX_def Let_def)
  next
    case (Some x)
    have x: "x \<in> set (accounts d)" "a_id x = TrimSpace a" using find_SomeD [OF Some] by auto
    show ?thesis
    proof (cases "TrimSpace a \<noteq> [] \<and> a_deleted_at x \<noteq> None \<and> count_where (cleanup_open (TrimSpace a)) (runtimes d) = 0")
      case True
      with Some show ?thesis by (intro gone) (auto simp: deleteAccountIfRuntimeCleanupDoneTX_def Let_def t)
    next
      case False
      show ?thesis
        by (rule kept) (use False Some x in \<open>auto simp: deleteAccountIfRuntimeCleanupDoneTX_def Let_def t\<close>)
    qed
  qed
qed

text \<open>The database as \<open>DeleteAccount\<close> leaves it before it looks whether anything is left to clean up.\<close>

lemma fold_log_frame [simp]:
  "runtimes (fold (\<lambda>i. appendRuntimeLogTX c i s l m) is d) = runtimes d"
  "devices (fold (\<lambda>i. appendRuntimeLogTX c i s l m) is d) = devices d"
  "accounts (fold (\<lambda>i. appendRuntimeLogTX c i s l m) is d) = accounts d"
  "account_entitlements (fold (\<lambda>i. appendRuntimeLogTX c i s l m) is d) = account_entitlements d"
  "sessions (fold (\<lambda>i. appendRuntimeLogTX c i s l m) is d) = sessions d"
  "runtime_capabilities (fold (\<lambda>i. appendRuntimeLogTX c i s l m) is d) = runtime_capabilities d"
  by (induction "is" arbitrary: d) simp_all

lemma queueAccountRemoval_tables:
  "runtimes (queueAccountRemoval c a d) = update_where (cleanup_open a) (account_delete_row c) (runtimes d)"
  "devices (queueAccountRemoval c a d) = delete_where (\<lambda>v. dv_account_id v = a) (devices d)"
  "account_entitlements (queueAccountRemoval c a d) = delete_where (\<lambda>e. e_account_id e = a) (account_entitlements d)"
  "accounts (queueAccountRemoval c a d) = update_where (\<lambda>x. a_id x = a \<and> a_deleted_at x = None)
     (\<lambda>x. x\<lparr>a_deleted_at := Some (db_now c)\<rparr>) (accounts d)"
  by (simp_all add: queueAccountRemoval_def Let_def cleanup_open_def [abs_def])

lemma DeleteAccount_cases:
  assumes "DeleteAccount c a d = Inr (u, d')"
  obtains "d' = deleteAccountIfRuntimeCleanupDoneTX (TrimSpace a) (queueAccountRemoval c (TrimSpace a) d)"
    and "TrimSpace a \<noteq> []" and "\<exists>x \<in> set (accounts d). a_id x = TrimSpace a"
  using assms by (auto simp: DeleteAccount_def Let_def find_None_iff split: if_splits)

lemma account_delete_row_simps [simp]:
  "r_account_id (account_delete_row c r) = r_account_id r"
  "r_desired_state (account_delete_row c r) = ''deleted''"
  "r_connection_status (account_delete_row c r) = ''offline''"
  by (simp_all add: account_delete_row_def Let_def)

lemma account_delete_row_open:
  "cleanup_open a (account_delete_row c r) \<Longrightarrow>
     cleanup_open a r \<and> (r_host_id (account_delete_row c r) \<noteq> None \<or> sql_filled (r_blob_manifest_json (account_delete_row c r)))"
  by (auto simp: cleanup_open_def account_delete_row_def Let_def split: if_splits)



section \<open>Revoking a device\<close>

lemma RevokeDevice_tables:
  assumes "RevokeDevice c a0 v0 d = Inr ((v, stopped), d')" and "a = TrimSpace a0" and "dev = TrimSpace v0"
  defines "d2 \<equiv> revoke_capabilities_where c (\<lambda>k. c_account_id k = a)
    (d\<lparr>devices := update_where (\<lambda>v. (dv_account_id v = a \<and> dv_revoked_at v = None) \<and> dv_id v = dev)
         (\<lambda>v. v\<lparr>dv_revoked_at := Some (db_now c), dv_last_seen_at := Some (db_now c)\<rparr>) (devices d),
       device_request_nonces := delete_where (\<lambda>n. case x_key n of (acc, dev', _) \<Rightarrow> acc = a \<and> dev' = dev)
         (device_request_nonces d)\<rparr>)"
  shows "stopped = map r_id (filter (revoke_candidate c a dev d2) (runtimes d))"
    and "runtimes d' = update_where (\<lambda>r. r_id r \<in> set stopped) (stop_row c) (runtimes d)"
    and "sessions d' = update_where (revoked_session a dev d2) (\<lambda>s. s\<lparr>s_status := ''revoked'', s_updated_at := db_now c,
           s_ended_at := Some (db_now c), s_end_reason := Some ''device revoked''\<rparr>) (sessions d)"
    and "runtime_capabilities d' = runtime_capabilities d2" and "devices d' = devices d2"
    and "count_where (\<lambda>v. dv_account_id v = a \<and> dv_revoked_at v = None) (devices d) > 1"
  using assms(1) unfolding d2_def assms(2,3)
  by (auto simp: RevokeDevice_def Let_def res_simps split: if_splits)

lemma RevokeDevice_stops:
  assumes "sessions_wf d" and "sessions d2 = sessions d" and "runtimes d2 = runtimes d"
    and "r \<in> set (runtimes d)" "r_account_id r = a" "r_deleted_at r = None" "r_desired_state r = ''running''"
    and "s \<in> set (sessions d)" "s_runtime_id s = r_id r" "s_device_id s = Some dev" "live_session s"
  shows "revoke_candidate c a dev d2 r"
proof -
  have rev: "revoked_session a dev d2 s"
    unfolding revoked_session_def using assms(3,4,5,9,10,11) by (intro conjI disjI1 bexI [of _ r]) simp_all
  have same: "s' = s" if "s' \<in> set (sessions d)" "s_runtime_id s' = r_id r" "live_session s'" for s'
    using assms(1,8,9,11) that unique_whereD [of live_session s_runtime_id "sessions d" s' s]
    by (simp add: sessions_wf_def)
  then have "\<not> (\<exists>s' \<in> set (sessions d2). s_runtime_id s' = r_id r \<and> s_device_id s' \<noteq> None
      \<and> s_device_id s' \<noteq> Some dev \<and> live_session s' \<and> s_expires_at s' > db_now c)"
    unfolding assms(2) using assms(10) by metis
  moreover have "\<exists>s' \<in> set (sessions d2). s_runtime_id s' = r_id r \<and> revoked_session a dev d2 s'"
    unfolding assms(2) using rev assms(8,9) by blast
  ultimately show ?thesis unfolding revoke_candidate_def using assms(5-7) by simp
qed

lemma count_other_key:
  assumes "distinct (map key rs)" and "count_where P rs > 1"
  shows "\<exists>r \<in> set rs. P r \<and> key r \<noteq> k"
proof (rule ccontr)
  assume "\<not> (\<exists>r \<in> set rs. P r \<and> key r \<noteq> k)"
  then have "count_where P rs \<le> count_where (\<lambda>r. key r = k) rs" by (intro count_where_mono) blast
  then show False using count_where_key_le1 [OF assms(1), of "\<lambda>_. True" k] assms(2) by simp
qed

text \<open>
  C14. A revoked device loses all access: the device is revoked while the account keeps another one that
  is not, every runtime key of the account is revoked, no session that the device or one of those keys
  opened on a runtime of the account stays open, and every runtime that the device was watching is
  stopped.
\<close>

theorem RevokeDevice_cuts_off:
  assumes "RevokeDevice c a0 v0 d = Inr ((v, stopped), d')" and "a = TrimSpace a0" and "dev = TrimSpace v0"
    and "sessions_wf d" and "distinct (map dv_id (devices d))"
  shows "(\<forall>x \<in> set (devices d'). dv_account_id x = a \<and> dv_id x = dev \<longrightarrow> dv_revoked_at x \<noteq> None)
    \<and> (\<exists>x \<in> set (devices d'). dv_account_id x = a \<and> dv_id x \<noteq> dev \<and> dv_revoked_at x = None)
    \<and> (\<forall>k \<in> set (runtime_capabilities d'). c_account_id k = a \<longrightarrow> c_revoked_at k \<noteq> None)
    \<and> (\<forall>s \<in> set (sessions d'). \<forall>r \<in> set (runtimes d'). s_runtime_id s = r_id r \<and> r_account_id r = a
         \<and> (s_device_id s = Some dev \<or> (\<exists>k \<in> set (runtime_capabilities d'). c_account_id k = a \<and> s_capability_id s = Some (c_id k)))
         \<longrightarrow> \<not> live_session s)
    \<and> (\<forall>r \<in> set (runtimes d'). \<forall>s \<in> set (sessions d). r_account_id r = a \<and> r_deleted_at r = None
         \<and> s_runtime_id s = r_id r \<and> s_device_id s = Some dev \<and> live_session s \<longrightarrow> r_desired_state r \<noteq> ''running'')"
proof (intro conjI)
  note T = RevokeDevice_tables [OF assms(1-3)]
  show "\<forall>x \<in> set (devices d'). dv_account_id x = a \<and> dv_id x = dev \<longrightarrow> dv_revoked_at x \<noteq> None"
    unfolding T(5) by (auto simp: revoke_capabilities_where_def ball_update_where)
  show "\<exists>x \<in> set (devices d'). dv_account_id x = a \<and> dv_id x \<noteq> dev \<and> dv_revoked_at x = None"
    unfolding T(5) using count_other_key [OF assms(5) T(6), of dev]
    by (auto simp: revoke_capabilities_where_def bex_update_where)
  show "\<forall>k \<in> set (runtime_capabilities d'). c_account_id k = a \<longrightarrow> c_revoked_at k \<noteq> None"
    unfolding T(4) by (simp add: revoke_capabilities_where_def ball_update_where)
  show "\<forall>s \<in> set (sessions d'). \<forall>r \<in> set (runtimes d'). s_runtime_id s = r_id r \<and> r_account_id r = a
         \<and> (s_device_id s = Some dev \<or> (\<exists>k \<in> set (runtime_capabilities d'). c_account_id k = a \<and> s_capability_id s = Some (c_id k)))
         \<longrightarrow> \<not> live_session s"
    unfolding T(2,3,4) ball_update_where revoked_session_def by (auto simp: live_session_def)
  show "\<forall>r \<in> set (runtimes d'). \<forall>s \<in> set (sessions d). r_account_id r = a \<and> r_deleted_at r = None
         \<and> s_runtime_id s = r_id r \<and> s_device_id s = Some dev \<and> live_session s \<longrightarrow> r_desired_state r \<noteq> ''running''"
    unfolding T(2) ball_update_where
  proof (intro ballI)
    fix r assume r: "r \<in> set (runtimes d)"
    obtain d2 where st: "stopped = map r_id (filter (revoke_candidate c a dev d2) (runtimes d))"
      and d2: "sessions d2 = sessions d" "runtimes d2 = runtimes d" by (rule that [OF T(1)]) simp_all
    have "r_id r \<in> set stopped" if "r_account_id r = a" "r_deleted_at r = None" "r_desired_state r = ''running''"
      "s \<in> set (sessions d)" "s_runtime_id s = r_id r" "s_device_id s = Some dev" "live_session s" for s
      unfolding st using RevokeDevice_stops [OF assms(4) d2 r that] r by simp
    then show "if r_id r \<in> set stopped then \<forall>s \<in> set (sessions d). r_account_id (stop_row c r) = a \<and> r_deleted_at (stop_row c r) = None
         \<and> s_runtime_id s = r_id (stop_row c r) \<and> s_device_id s = Some dev \<and> live_session s \<longrightarrow> r_desired_state (stop_row c r) \<noteq> ''running''
       else \<forall>s \<in> set (sessions d). r_account_id r = a \<and> r_deleted_at r = None
         \<and> s_runtime_id s = r_id r \<and> s_device_id s = Some dev \<and> live_session s \<longrightarrow> r_desired_state r \<noteq> ''running''"
      by (cases "r_id r \<in> set stopped") (simp_all, blast)
  qed
qed

theorem RevokeDevice_cuts_off_witness:
  "\<exists>d d' v stopped. RevokeDevice sample_ctx ''a1'' ''d1'' d = Inr ((v, stopped), d') \<and> sessions_wf d
     \<and> \<not> no_live_session ''r1'' d \<and> (\<forall>r \<in> set (runtimes d'). r_account_id r = ''a1'' \<and> r_deleted_at r = None \<and> r_id r = ''r1''
          \<longrightarrow> r_desired_state r \<noteq> ''running'')"
proof -
  let ?d = "sample_live\<lparr>devices := [sample_device, sample_device\<lparr>dv_id := ''d2''\<rparr>]\<rparr>"
  have t: "TrimSpace ''a1'' = ''a1''" "TrimSpace ''d1'' = ''d1''" by code_simp+
  have "map_sum id (\<lambda>_. ()) (RevokeDevice sample_ctx ''a1'' ''d1'' ?d) = Inr ()"
    by (simp add: RevokeDevice_def Let_def t sample_live_def sample_db_def sample_account_def sample_device_def)
  then obtain v stopped d' where x: "RevokeDevice sample_ctx ''a1'' ''d1'' ?d = Inr ((v, stopped), d')"
    by (auto dest: sample_run)
  have wf: "sessions_wf ?d" by (simp add: sessions_wf_def unique_where_def sample_live_def)
  have dv: "distinct (map dv_id (devices ?d))" by (simp add: sample_device_def)
  have s: "sample_session \<in> set (sessions ?d)" "live_session sample_session" "s_device_id sample_session = Some ''d1''"
    "s_runtime_id sample_session = ''r1''"
    by (simp_all add: sample_live_def sample_session_def live_session_def)
  then have n: "\<not> no_live_session ''r1'' ?d" unfolding no_live_session_def by blast
  have "\<forall>r \<in> set (runtimes d'). r_account_id r = ''a1'' \<and> r_deleted_at r = None \<and> r_id r = ''r1'' \<longrightarrow> r_desired_state r \<noteq> ''running''"
    using RevokeDevice_cuts_off [OF x t(1) [symmetric] t(2) [symmetric] wf dv] s by metis
  with x wf n show ?thesis by blast
qed

end
