(* ===== verification/Sessions.thy ===== *)
theory Sessions
  imports Lifecycle
begin

text \<open>
  Viewer sessions (\<open>internal/store/store.go\<close>): a session is opened by a device or by a runtime
  capability on a runtime that is running, gets a relay token that can be used once, is kept open by
  heartbeats, and is ended by the client or by the reaper, which also stops runtimes that nobody watches.
  The check and the insert of \<open>CreateSession\<close> are two statements of the code and one step here.
\<close>

section \<open>What clients see of a session\<close>

record Session =
  se_ID :: string
  se_RuntimeID :: string
  se_DeviceID :: string
  se_CapabilityID :: "string option"
  se_Status :: string
  se_RelayToken :: string
  se_CreatedAt :: time
  se_UpdatedAt :: time
  se_LastClientHeartbeatAt :: "time option"
  se_EndedAt :: "time option"
  se_EndReason :: "string option"
  se_ExpiresAt :: time

text \<open>The columns a query returns: by a device without, by a capability with the capability.\<close>

definition scanSession :: "session \<Rightarrow> Session" where
  "scanSession s = \<lparr>se_ID = s_id s, se_RuntimeID = s_runtime_id s, se_DeviceID = coalesce (s_device_id s) [],
     se_CapabilityID = None, se_Status = s_status s, se_RelayToken = [], se_CreatedAt = s_created_at s,
     se_UpdatedAt = s_updated_at s, se_LastClientHeartbeatAt = s_last_client_heartbeat_at s,
     se_EndedAt = s_ended_at s, se_EndReason = s_end_reason s, se_ExpiresAt = s_expires_at s\<rparr>"

definition scanCapabilitySession :: "session \<Rightarrow> Session" where
  "scanCapabilitySession s = (scanSession s)\<lparr>se_CapabilityID := s_capability_id s\<rparr>"

text \<open>\<open>hashRelayToken\<close> is SHA-256 in base64, \<open>hashToken\<close> of the context.\<close>

definition hashRelayToken :: "ctx \<Rightarrow> string \<Rightarrow> string" where
  "hashRelayToken c relayToken = hashToken c (''virtroid-relay-token-v1:'' @ TrimSpace relayToken)"

definition sessionAttachTTL :: duration where
  "sessionAttachTTL = 2 * minute"

section \<open>Whose session it is\<close>

text \<open>
  The joins of the statements: a session of a device on a runtime of the account, and a session of a
  capability that is valid for the runtime, with what else the statement asks of the runtime.
\<close>

definition device_session :: "string \<Rightarrow> string \<Rightarrow> string \<Rightarrow> db \<Rightarrow> (runtime \<Rightarrow> bool) \<Rightarrow> session \<Rightarrow> bool" where
  "device_session accountID deviceID sessionID d P s \<longleftrightarrow>
     s_id s = sessionID \<and> s_device_id s = Some deviceID
     \<and> (\<exists>r \<in> set (runtimes d). r_id r = s_runtime_id s \<and> r_account_id r = accountID \<and> P r)"

definition valid_capability :: "ctx \<Rightarrow> runtime_capability \<Rightarrow> bool" where
  "valid_capability c k \<longleftrightarrow> c_revoked_at k = None \<and> c_expires_at k > db_now c"

definition capability_session ::
  "ctx \<Rightarrow> string \<Rightarrow> string \<Rightarrow> string \<Rightarrow> db \<Rightarrow> (runtime \<Rightarrow> bool) \<Rightarrow> session \<Rightarrow> bool" where
  "capability_session c accountID capabilityID sessionID d P s \<longleftrightarrow>
     s_id s = sessionID \<and> s_capability_id s = Some capabilityID
     \<and> (\<exists>r \<in> set (runtimes d). r_id r = s_runtime_id s \<and> r_account_id r = accountID \<and> P r
          \<and> (\<exists>k \<in> set (runtime_capabilities d). c_id k = capabilityID \<and> c_runtime_id k = r_id r
               \<and> c_account_id k = r_account_id r \<and> valid_capability c k))"

definition active_device :: "string \<Rightarrow> string \<Rightarrow> db \<Rightarrow> bool" where
  "active_device accountID deviceID d \<longleftrightarrow>
     (\<exists>v \<in> set (devices d). dv_id v = deviceID \<and> dv_account_id v = accountID \<and> dv_revoked_at v = None)"

definition viewable :: "runtime \<Rightarrow> bool" where
  "viewable r \<longleftrightarrow> r_deleted_at r = None \<and> r_desired_state r = ''running'' \<and> r_status r = ''running''
     \<and> r_connection_status r = ''online'' \<and> r_host_id r \<noteq> None \<and> r_viewer_port r \<noteq> None"

definition not_deleting :: "runtime \<Rightarrow> bool" where
  "not_deleting r \<longleftrightarrow> r_deleted_at r = None \<and> r_desired_state r \<noteq> ''deleted''"

text \<open>\<open>UPDATE ... RETURNING\<close> of one session: the updated row, or the error when there is none.\<close>

definition update_session :: "err \<Rightarrow> (session \<Rightarrow> bool) \<Rightarrow> (session \<Rightarrow> session) \<Rightarrow> session tx" where
  "update_session e P f d =
     ebind (of_row e (find P (sessions d))) (\<lambda>s.
     Inr (f s, d\<lparr>sessions := update_where P f (sessions d)\<rparr>))"

section \<open>Opening a session\<close>

definition new_session ::
  "ctx \<Rightarrow> string \<Rightarrow> string \<Rightarrow> string option \<Rightarrow> string option \<Rightarrow> string \<Rightarrow> session" where
  "new_session c sessionID runtimeID deviceID capabilityID relayTokenHash =
     \<lparr>s_id = sessionID, s_runtime_id = runtimeID, s_device_id = deviceID, s_capability_id = capabilityID,
      s_status = ''pending'', s_relay_token = relayTokenHash, s_created_at = db_now c, s_updated_at = db_now c,
      s_last_client_heartbeat_at = Some (db_now c), s_ended_at = None, s_end_reason = None,
      s_expires_at = go_now c + sessionAttachTTL, s_relay_token_consumed_at = None\<rparr>"

text \<open>What \<open>ON CONFLICT ... DO UPDATE\<close> makes of the live session that has expired.\<close>

definition take_over :: "ctx \<Rightarrow> session \<Rightarrow> session \<Rightarrow> session" where
  "take_over c fresh s =
     s\<lparr>s_device_id := s_device_id fresh, s_capability_id := s_capability_id fresh,
       s_status := (if s_expires_at s \<le> db_now c then s_status fresh else s_status s),
       s_relay_token := s_relay_token fresh, s_relay_token_consumed_at := None, s_expires_at := s_expires_at fresh,
       s_created_at := (if s_expires_at s \<le> db_now c then db_now c else s_created_at s),
       s_last_client_heartbeat_at := Some (db_now c), s_ended_at := None, s_end_reason := None,
       s_updated_at := db_now c\<rparr>"

definition insertSession :: "ctx \<Rightarrow> session \<Rightarrow> session tx" where
  "insertSession c fresh d =
     (case find (\<lambda>s. s_runtime_id s = s_runtime_id fresh \<and> live_session s) (sessions d) of
        Some s \<Rightarrow>
          if s_expires_at s \<le> db_now c
          then Inr (take_over c fresh s, d\<lparr>sessions := update_where (\<lambda>q. s_id q = s_id s) (take_over c fresh) (sessions d)\<rparr>)
          else Inl ErrSessionAlreadyActive
      | None \<Rightarrow>
          if \<exists>s \<in> set (sessions d). s_id s = s_id fresh then Inl (ErrConstraint ''sessions_pkey'')
          else Inr (fresh, d\<lparr>sessions := sessions d @ [fresh]\<rparr>))"

text \<open>The new session's id and relay token are arguments: \<open>uuid.NewString\<close> and \<open>generateRelayToken\<close>.\<close>

definition CreateSession :: "ctx \<Rightarrow> pricing \<Rightarrow> string \<Rightarrow> string \<Rightarrow> string \<Rightarrow> string \<Rightarrow> Session tx" where
  "CreateSession c p sessionID relayToken deviceID runtimeID d =
     ebind (of_row ErrRuntimeNotFound (find (\<lambda>r. r_id r = runtimeID \<and> active_device (r_account_id r) deviceID d
       \<and> not_deleting r) (runtimes d))) (\<lambda>r.
     if r_desired_state r \<noteq> ''running'' \<or> r_status r \<noteq> ''running'' \<or> r_connection_status r \<noteq> ''online''
     then Inl ErrRuntimeNotReady
     else ebind (ensureSessionTimeAvailable p (r_account_id r) d) (\<lambda>_.
       ebind (insertSession c (new_session c sessionID runtimeID (Some deviceID) None (hashRelayToken c relayToken)) d) (\<lambda>(s, d').
       Inr ((scanSession s)\<lparr>se_RelayToken := relayToken\<rparr>, d'))))"

definition CreateSessionWithCapability ::
  "ctx \<Rightarrow> pricing \<Rightarrow> string \<Rightarrow> string \<Rightarrow> string \<Rightarrow> string \<Rightarrow> string \<Rightarrow> Session tx" where
  "CreateSessionWithCapability c p sessionID relayToken accountID0 capabilityID0 runtimeID0 d =
     (let accountID = TrimSpace accountID0; capabilityID = TrimSpace capabilityID0; runtimeID = TrimSpace runtimeID0 in
      if accountID = [] \<or> capabilityID = [] \<or> runtimeID = [] then Inl ErrRuntimeCapability
      else ebind (of_row ErrRuntimeNotFound (find (\<lambda>r. r_id r = runtimeID \<and> r_account_id r = accountID
        \<and> (\<exists>k \<in> set (runtime_capabilities d). c_runtime_id k = r_id r \<and> c_account_id k = r_account_id r
             \<and> c_id k = capabilityID \<and> valid_capability c k) \<and> not_deleting r) (runtimes d))) (\<lambda>r.
      if r_desired_state r \<noteq> ''running'' \<or> r_status r \<noteq> ''running'' \<or> r_connection_status r \<noteq> ''online''
      then Inl ErrRuntimeNotReady
      else ebind (ensureSessionTimeAvailable p accountID d) (\<lambda>_.
        ebind (insertSession c (new_session c sessionID runtimeID None (Some capabilityID) (hashRelayToken c relayToken)) d) (\<lambda>(s, d').
        Inr ((scanCapabilitySession s)\<lparr>se_RelayToken := relayToken\<rparr>, d')))))"

definition AbortPendingSession :: "ctx \<Rightarrow> string \<Rightarrow> string \<Rightarrow> string \<Rightarrow> bool tx" where
  "AbortPendingSession c sessionID0 relayToken0 reason0 d =
     (let sessionID = TrimSpace sessionID0; relayToken = TrimSpace relayToken0;
          reason = (if TrimSpace reason0 = [] then ''session setup aborted'' else TrimSpace reason0);
          P = (\<lambda>s. s_id s = sessionID \<and> s_relay_token s = hashRelayToken c relayToken \<and> s_status s = ''pending'')
      in if sessionID = [] \<or> relayToken = [] then Inr (False, d)
         else Inr (count_where P (sessions d) > 0,
           d\<lparr>sessions := update_where P (\<lambda>s. s\<lparr>s_status := ''closed'', s_updated_at := db_now c,
               s_ended_at := Some (db_now c), s_end_reason := Some reason\<rparr>) (sessions d)\<rparr>))"

section \<open>Relay tokens\<close>

record SessionRelayTarget =
  rt_SessionID :: string
  rt_RuntimeID :: string
  rt_DeviceID :: string
  rt_HostID :: string
  rt_ViewerPort :: int

definition relay_session :: "ctx \<Rightarrow> string \<Rightarrow> string \<Rightarrow> db \<Rightarrow> session \<Rightarrow> bool" where
  "relay_session c sessionID relayTokenHash d s \<longleftrightarrow>
     s_id s = sessionID \<and> s_relay_token s = relayTokenHash \<and> s_relay_token_consumed_at s = None
     \<and> s_expires_at s > db_now c \<and> live_session s
     \<and> (\<exists>r \<in> set (runtimes d). r_id r = s_runtime_id s \<and> viewable r)"

definition attach :: "ctx \<Rightarrow> session \<Rightarrow> session" where
  "attach c s =
     s\<lparr>s_status := ''active'', s_updated_at := db_now c, s_last_client_heartbeat_at := Some (db_now c),
       s_expires_at := db_now c + 2 * minute, s_relay_token_consumed_at := Some (db_now c)\<rparr>"

definition ResolveSessionRelayTarget :: "ctx \<Rightarrow> string \<Rightarrow> string \<Rightarrow> SessionRelayTarget tx" where
  "ResolveSessionRelayTarget c sessionID relayToken d =
     (if TrimSpace sessionID = [] \<or> TrimSpace relayToken = [] then Inl ErrNoRows
      else ebind (update_session ErrNoRows (relay_session c sessionID (hashRelayToken c relayToken) d)
        (attach c) d) (\<lambda>(s, d').
      ebind (of_row ErrNoRows (find (\<lambda>r. r_id r = s_runtime_id s \<and> viewable r) (runtimes d))) (\<lambda>r.
      Inr (\<lparr>rt_SessionID = s_id s, rt_RuntimeID = s_runtime_id s, rt_DeviceID = coalesce (s_device_id s) [],
            rt_HostID = coalesce (r_host_id r) [], rt_ViewerPort = coalesce (r_viewer_port r) 0\<rparr>, d'))))"

definition renew_token :: "ctx \<Rightarrow> string \<Rightarrow> session \<Rightarrow> session" where
  "renew_token c relayTokenHash s =
     s\<lparr>s_relay_token := relayTokenHash, s_relay_token_consumed_at := None, s_updated_at := db_now c,
       s_expires_at := db_now c + 2 * minute\<rparr>"

definition IssueSessionRelayToken :: "ctx \<Rightarrow> string \<Rightarrow> string \<Rightarrow> string \<Rightarrow> string \<Rightarrow> Session tx" where
  "IssueSessionRelayToken c relayToken accountID0 deviceID0 sessionID0 d =
     (let accountID = TrimSpace accountID0; deviceID = TrimSpace deviceID0; sessionID = TrimSpace sessionID0 in
      if accountID = [] \<or> deviceID = [] \<or> sessionID = [] then Inl ErrSessionNotFound
      else ebind (update_session ErrSessionNotFound (\<lambda>s. device_session accountID deviceID sessionID d viewable s
          \<and> active_device accountID deviceID d \<and> live_session s \<and> s_expires_at s > db_now c)
        (renew_token c (hashRelayToken c relayToken)) d) (\<lambda>(s, d').
      Inr ((scanSession s)\<lparr>se_RelayToken := relayToken\<rparr>, d')))"

definition IssueSessionRelayTokenWithCapability :: "ctx \<Rightarrow> string \<Rightarrow> string \<Rightarrow> string \<Rightarrow> string \<Rightarrow> Session tx" where
  "IssueSessionRelayTokenWithCapability c relayToken accountID0 capabilityID0 sessionID0 d =
     (let accountID = TrimSpace accountID0; capabilityID = TrimSpace capabilityID0; sessionID = TrimSpace sessionID0 in
      if accountID = [] \<or> capabilityID = [] \<or> sessionID = [] then Inl ErrSessionNotFound
      else ebind (update_session ErrSessionNotFound (\<lambda>s. capability_session c accountID capabilityID sessionID d viewable s
          \<and> live_session s \<and> s_expires_at s > db_now c) (renew_token c (hashRelayToken c relayToken)) d) (\<lambda>(s, d').
      Inr ((scanCapabilitySession s)\<lparr>se_RelayToken := relayToken\<rparr>, d')))"

section \<open>Keeping a session open\<close>

definition heartbeat :: "ctx \<Rightarrow> session \<Rightarrow> session" where
  "heartbeat c s =
     s\<lparr>s_updated_at := db_now c,
       s_last_client_heartbeat_at := (if s_status s = ''active'' then Some (db_now c) else s_last_client_heartbeat_at s),
       s_expires_at := (if s_status s = ''active'' then db_now c + 2 * minute else s_expires_at s)\<rparr>"

definition HeartbeatSession :: "ctx \<Rightarrow> string \<Rightarrow> string \<Rightarrow> string \<Rightarrow> Session tx" where
  "HeartbeatSession c accountID0 deviceID0 sessionID0 d =
     (let accountID = TrimSpace accountID0; deviceID = TrimSpace deviceID0; sessionID = TrimSpace sessionID0 in
      if accountID = [] \<or> deviceID = [] \<or> sessionID = [] then Inl ErrSessionNotFound
      else ebind (update_session ErrSessionNotFound (\<lambda>s. device_session accountID deviceID sessionID d not_deleting s
          \<and> live_session s \<and> s_expires_at s > db_now c) (heartbeat c) d) (\<lambda>(s, d').
      Inr (scanSession s, d')))"

definition HeartbeatSessionWithCapability :: "ctx \<Rightarrow> string \<Rightarrow> string \<Rightarrow> string \<Rightarrow> Session tx" where
  "HeartbeatSessionWithCapability c accountID0 capabilityID0 sessionID0 d =
     (let accountID = TrimSpace accountID0; capabilityID = TrimSpace capabilityID0; sessionID = TrimSpace sessionID0 in
      if accountID = [] \<or> capabilityID = [] \<or> sessionID = [] then Inl ErrSessionNotFound
      else ebind (update_session ErrSessionNotFound (\<lambda>s. capability_session c accountID capabilityID sessionID d not_deleting s
          \<and> live_session s \<and> s_expires_at s > db_now c) (heartbeat c) d) (\<lambda>(s, d').
      Inr (scanCapabilitySession s, d')))"

definition RequireSessionRuntime :: "string \<Rightarrow> string \<Rightarrow> string \<Rightarrow> string \<Rightarrow> db \<Rightarrow> unit res" where
  "RequireSessionRuntime accountID0 deviceID0 sessionID0 runtimeID0 d =
     (let accountID = TrimSpace accountID0; deviceID = TrimSpace deviceID0; sessionID = TrimSpace sessionID0;
          runtimeID = TrimSpace runtimeID0
      in if accountID = [] \<or> deviceID = [] \<or> sessionID = [] \<or> runtimeID = [] then Inl ErrSessionNotFound
         else ebind (of_row ErrSessionNotFound (find (\<lambda>s. device_session accountID deviceID sessionID d
             (\<lambda>r. r_deleted_at r = None) s \<and> s_runtime_id s = runtimeID \<and> active_device accountID deviceID d
             \<and> live_session s) (sessions d))) (\<lambda>_. Inr ()))"

definition RequireSessionRuntimeWithCapability :: "ctx \<Rightarrow> string \<Rightarrow> string \<Rightarrow> string \<Rightarrow> string \<Rightarrow> db \<Rightarrow> unit res" where
  "RequireSessionRuntimeWithCapability c accountID0 capabilityID0 sessionID0 runtimeID0 d =
     (let accountID = TrimSpace accountID0; capabilityID = TrimSpace capabilityID0; sessionID = TrimSpace sessionID0;
          runtimeID = TrimSpace runtimeID0
      in if accountID = [] \<or> capabilityID = [] \<or> sessionID = [] \<or> runtimeID = [] then Inl ErrSessionNotFound
         else ebind (of_row ErrSessionNotFound (find (\<lambda>s. capability_session c accountID capabilityID sessionID d
             (\<lambda>r. r_deleted_at r = None) s \<and> s_runtime_id s = runtimeID \<and> live_session s
             \<and> s_expires_at s > db_now c) (sessions d))) (\<lambda>_. Inr ()))"

section \<open>Ending a session\<close>

definition client_closed :: "ctx \<Rightarrow> session \<Rightarrow> session" where
  "client_closed c s =
     s\<lparr>s_status := ''closed'', s_updated_at := db_now c, s_ended_at := Some (db_now c),
       s_end_reason := Some ''client closed''\<rparr>"

definition CloseSession :: "ctx \<Rightarrow> string \<Rightarrow> string \<Rightarrow> string \<Rightarrow> unit tx" where
  "CloseSession c accountID deviceID sessionID d =
     ebind (update_session ErrSessionNotFound (\<lambda>s. device_session accountID deviceID sessionID d (\<lambda>_. True) s
       \<and> live_session s) (client_closed c) d) (\<lambda>(_, d'). Inr ((), d'))"

definition CloseSessionWithCapability :: "ctx \<Rightarrow> string \<Rightarrow> string \<Rightarrow> string \<Rightarrow> unit tx" where
  "CloseSessionWithCapability c accountID capabilityID sessionID d =
     ebind (update_session ErrSessionNotFound (\<lambda>s. capability_session c accountID capabilityID sessionID d (\<lambda>_. True) s
       \<and> live_session s) (client_closed c) d) (\<lambda>(_, d').
     Inr ((), revokeRuntimeCapabilityTX c accountID capabilityID d'))"

definition end_stop_row :: "ctx \<Rightarrow> runtime \<Rightarrow> runtime" where
  "end_stop_row c r =
     r\<lparr>r_status := (if r_host_id r = None then ''stopped'' else ''stopping''), r_desired_state := ''stopped'',
       r_operation_generation := (if r_desired_state r = ''stopped'' then r_operation_generation r
                                  else r_operation_generation r + 1),
       r_connection_status := (if r_host_id r = None then ''offline'' else ''disconnecting''),
       r_started_at := None, r_last_error := None, r_updated_at := db_now c\<rparr>"

definition stopEndedRuntime :: "ctx \<Rightarrow> string \<Rightarrow> string \<Rightarrow> runtime tx" where
  "stopEndedRuntime c accountID matchedRuntimeID d =
     ebind (of_row ErrRuntimeNotFound (find (runtime_row accountID matchedRuntimeID) (runtimes d))) (\<lambda>current.
     let runtime = end_stop_row c current
     in Inr (runtime, revokeRuntimeCapabilitiesForRuntimeTX c (r_id runtime)
          (appendRuntimeLogTX c (r_id runtime) ''user'' ''info'' ''Session closed and runtime stop queued.''
            (d\<lparr>runtimes := update_where (runtime_row accountID matchedRuntimeID) (end_stop_row c) (runtimes d)\<rparr>))))"

definition EndSessionAndStopRuntime :: "ctx \<Rightarrow> string \<Rightarrow> string \<Rightarrow> string \<Rightarrow> string \<Rightarrow> runtime tx" where
  "EndSessionAndStopRuntime c accountID deviceID sessionID runtimeID d =
     ebind (update_session ErrSessionNotFound (\<lambda>s. device_session accountID deviceID sessionID d (\<lambda>_. True) s
       \<and> s_runtime_id s = runtimeID \<and> live_session s) (client_closed c) d) (\<lambda>(s, d').
     stopEndedRuntime c accountID (s_runtime_id s) d')"

definition EndSessionAndStopRuntimeWithCapability :: "ctx \<Rightarrow> string \<Rightarrow> string \<Rightarrow> string \<Rightarrow> string \<Rightarrow> runtime tx" where
  "EndSessionAndStopRuntimeWithCapability c accountID capabilityID sessionID runtimeID d =
     ebind (update_session ErrSessionNotFound (\<lambda>s. capability_session c accountID capabilityID sessionID d (\<lambda>_. True) s
       \<and> s_runtime_id s = runtimeID \<and> live_session s) (client_closed c) d) (\<lambda>(s, d').
     stopEndedRuntime c accountID (s_runtime_id s) d')"

section \<open>The reaper\<close>

record SessionReapResult =
  ExpiredPendingSessions :: nat
  StaleActiveSessions :: nat
  RevokedRuntimeCapabilities :: nat
  PrunedRuntimeCapabilityNonces :: nat
  PrunedBlobKeyHandoffs :: nat
  StoppedRuntimeIDs :: "string list"

text \<open>\<open>postgresInterval\<close>: a duration rounded to seconds, at least one.\<close>

definition postgresInterval :: "duration \<Rightarrow> duration" where
  "postgresInterval dur = (let seconds = (dur + 500000) div 1000000 in if seconds < 1 then second else seconds * second)"

definition last_seen :: "session \<Rightarrow> time" where
  "last_seen s = coalesce (s_last_client_heartbeat_at s) (s_updated_at s)"

text \<open>The latest change of a session of the runtime, \<open>MAX(updated_at)\<close>.\<close>

definition latest_session_at :: "string \<Rightarrow> session list \<Rightarrow> time option" where
  "latest_session_at runtimeID ss =
     (case map s_updated_at (filter (\<lambda>s. s_runtime_id s = runtimeID) ss) of
        [] \<Rightarrow> None | t # ts \<Rightarrow> Some (fold max ts t))"

definition idleRuntimeLastActivity :: "db \<Rightarrow> runtime \<Rightarrow> time" where
  "idleRuntimeLastActivity d r =
     (let started = coalesce (r_started_at r) (r_created_at r)
      in max (coalesce (latest_session_at (r_id r) (sessions d)) started) started)"

text \<open>A viewer that holds a runtime: waiting to attach, or attached and heard of within the timeout.\<close>

definition watching :: "ctx \<Rightarrow> duration \<Rightarrow> session \<Rightarrow> bool" where
  "watching c timeout s \<longleftrightarrow>
     (s_status s = ''pending'' \<and> s_expires_at s > db_now c)
     \<or> (s_status s = ''active'' \<and> s_expires_at s > db_now c \<and> last_seen s \<ge> db_now c - timeout)"

definition may_idle :: "runtime \<Rightarrow> bool" where
  "may_idle r \<longleftrightarrow> r_desired_state r = ''running'' \<and> r_status r \<in> set [''starting'', ''running'', ''error'']"

definition idle_runtime :: "ctx \<Rightarrow> duration \<Rightarrow> db \<Rightarrow> runtime \<Rightarrow> bool" where
  "idle_runtime c timeout d r \<longleftrightarrow> r_deleted_at r = None \<and> may_idle r
     \<and> idleRuntimeLastActivity d r < db_now c - r_idle_timeout_seconds r * second
     \<and> \<not> (\<exists>s \<in> set (sessions d). s_runtime_id s = r_id r \<and> watching c timeout s)"

definition expire_pending :: "ctx \<Rightarrow> session \<Rightarrow> bool" where
  "expire_pending c s \<longleftrightarrow> s_status s = ''pending'' \<and> s_expires_at s \<le> db_now c"

definition stale_active :: "ctx \<Rightarrow> duration \<Rightarrow> session \<Rightarrow> bool" where
  "stale_active c timeout s \<longleftrightarrow> s_status s = ''active''
     \<and> (s_expires_at s \<le> db_now c \<or> last_seen s < db_now c - timeout)"

definition reaped :: "ctx \<Rightarrow> string \<Rightarrow> string \<Rightarrow> session \<Rightarrow> session" where
  "reaped c status reason s =
     s\<lparr>s_status := status, s_updated_at := db_now c, s_ended_at := Some (db_now c), s_end_reason := Some reason\<rparr>"

definition idle_stop_row :: "ctx \<Rightarrow> runtime \<Rightarrow> runtime" where
  "idle_stop_row c r =
     r\<lparr>r_desired_state := ''stopped'', r_operation_generation := r_operation_generation r + 1,
       r_connection_status := ''offline'', r_started_at := None, r_last_error := None, r_updated_at := db_now c\<rparr>"

definition endStaleSessions :: "ctx \<Rightarrow> duration \<Rightarrow> db \<Rightarrow> db" where
  "endStaleSessions c timeout d =
     (let d1 = d\<lparr>sessions := update_where (expire_pending c)
                 (reaped c ''expired'' ''session expired before relay attach'') (sessions d)\<rparr>
      in d1\<lparr>sessions := update_where (stale_active c timeout)
             (reaped c ''stale'' ''client heartbeat stale'') (sessions d1)\<rparr>)"

definition stopIdleRuntimes :: "ctx \<Rightarrow> duration \<Rightarrow> db \<Rightarrow> string list \<times> db" where
  "stopIdleRuntimes c timeout d =
     (let ids = map r_id (filter (idle_runtime c timeout d) (runtimes d));
          d1 = d\<lparr>runtimes := update_where (\<lambda>r. r_id r \<in> set ids) (idle_stop_row c) (runtimes d)\<rparr>;
          d2 = fold (\<lambda>runtimeID. appendRuntimeLogTX c runtimeID ''system'' ''info''
                 ''Stopping the runtime after its inactivity period with no viewer open.'') ids d1
      in (ids, fold (revokeRuntimeCapabilitiesForRuntimeTX c) ids d2))"

definition unrevoked :: "db \<Rightarrow> nat" where
  "unrevoked d = count_where (\<lambda>k. c_revoked_at k = None) (runtime_capabilities d)"

text \<open>
  Every revocation only touches capabilities that are not revoked, so the number the code adds up is
  by how much their number falls.
\<close>

definition ReapStaleSessions :: "ctx \<Rightarrow> duration \<Rightarrow> SessionReapResult tx" where
  "ReapStaleSessions c activeSessionTimeout d =
     (let timeout = postgresInterval (if activeSessionTimeout \<le> 0 then 2 * minute else activeSessionTimeout);
          d1 = endStaleSessions c timeout d;
          (ids, d2) = stopIdleRuntimes c timeout d1;
          d3 = revokeExpiredRuntimeCapabilitiesTX c (revokeEndedSessionCapabilitiesTX c d2);
          d4 = pruneExpiredBlobKeyHandoffsTX c (pruneExpiredRuntimeCapabilityNoncesTX c d3)
      in Inr (\<lparr>ExpiredPendingSessions = count_where (expire_pending c) (sessions d),
               StaleActiveSessions = count_where (stale_active c timeout) (sessions d),
               RevokedRuntimeCapabilities = unrevoked d1 - unrevoked d4,
               PrunedRuntimeCapabilityNonces = length (runtime_capability_nonces d3) - length (runtime_capability_nonces d4),
               PrunedBlobKeyHandoffs = length (runtime_blob_key_handoffs d3) - length (runtime_blob_key_handoffs d4),
               StoppedRuntimeIDs = ids\<rparr>, d4))"

text \<open>\<open>idleStopAtSQL\<close>: when the runtime is going to be stopped, as clients are told.\<close>

definition idleStopAt :: "ctx \<Rightarrow> db \<Rightarrow> runtime \<Rightarrow> time option" where
  "idleStopAt c d r =
     (if may_idle r \<and> \<not> (\<exists>s \<in> set (sessions d). s_runtime_id s = r_id r \<and> watching c (2 * minute) s)
      then Some (idleRuntimeLastActivity d r + r_idle_timeout_seconds r * second) else None)"

section \<open>One live session per runtime\<close>

text \<open>
  A change of a session that keeps its id and runtime and brings no ended session back. An \<open>UPDATE\<close>
  with such a change keeps the sessions table well formed, whichever rows it selects.
\<close>

locale session_change =
  fixes f :: "session \<Rightarrow> session"
  assumes same_session: "s_id (f s) = s_id s"
    and same_runtime: "s_runtime_id (f s) = s_runtime_id s"
    and not_revived: "live_session (f s) \<Longrightarrow> live_session s"
begin

lemma keeps_wf:
  assumes "sessions_wf d"
  shows "sessions_wf (d\<lparr>sessions := update_where P f (sessions d)\<rparr>)"
  using assms by (rule sessions_wf_update) (simp_all add: same_session same_runtime not_revived)

lemma update_session_wf:
  assumes "update_session e P f d = Inr (s, d')" and "sessions_wf d"
  shows "sessions_wf d'"
  using assms keeps_wf [of d P] by (auto simp: update_session_def res_simps)

end

lemma live_status: "live_session s \<longleftrightarrow> s_status s \<in> {''pending'', ''active''}"
  by (simp add: live_session_def)

interpretation renewal: session_change "renew_token c h" for c h
  by unfold_locales (simp_all add: renew_token_def live_session_def)

interpretation beat: session_change "heartbeat c" for c
  by unfold_locales (simp_all add: heartbeat_def live_session_def)

interpretation closing: session_change "client_closed c" for c
  by unfold_locales (simp_all add: client_closed_def live_session_def)

interpretation expiry: session_change "reaped c ''expired'' why" for c why
  by unfold_locales (simp_all add: reaped_def live_session_def)

interpretation staleness: session_change "reaped c ''stale'' why" for c why
  by unfold_locales (simp_all add: reaped_def live_session_def)

text \<open>Attaching makes a live session active.\<close>

lemma ResolveSessionRelayTarget_cases:
  assumes "ResolveSessionRelayTarget c sid tok d = Inr (t, d')"
  obtains s r where "find (relay_session c sid (hashRelayToken c tok) d) (sessions d) = Some s"
    and "r \<in> set (runtimes d)" "r_id r = s_runtime_id s" "viewable r"
    and "d' = d\<lparr>sessions := update_where (relay_session c sid (hashRelayToken c tok) d) (attach c) (sessions d)\<rparr>"
    and "t = \<lparr>rt_SessionID = sid, rt_RuntimeID = s_runtime_id s, rt_DeviceID = coalesce (s_device_id s) [],
              rt_HostID = coalesce (r_host_id r) [], rt_ViewerPort = coalesce (r_viewer_port r) 0\<rparr>"
proof -
  have a: "s_id (attach c s) = s_id s" "s_runtime_id (attach c s) = s_runtime_id s" "s_device_id (attach c s) = s_device_id s" for s
    by (simp_all add: attach_def)
  from assms obtain s r where s: "find (relay_session c sid (hashRelayToken c tok) d) (sessions d) = Some s"
    and r: "find (\<lambda>r. r_id r = s_runtime_id s \<and> viewable r) (runtimes d) = Some r"
    by (auto simp: ResolveSessionRelayTarget_def update_session_def res_simps a split: if_splits)
  have id: "s_id s = sid" using find_SomeD [OF s] by (simp add: relay_session_def)
  have r': "r \<in> set (runtimes d)" "r_id r = s_runtime_id s" "viewable r" using find_SomeD [OF r] by auto
  show ?thesis
    by (rule that [OF s r']) (use assms s r id in \<open>auto simp: ResolveSessionRelayTarget_def update_session_def a split: if_splits\<close>)
qed

lemma ResolveSessionRelayTarget_wf:
  assumes "ResolveSessionRelayTarget c sid tok d = Inr (t, d')" and "sessions_wf d"
  shows "sessions_wf d'"
proof -
  have d': "d' = d\<lparr>sessions := update_where (relay_session c sid (hashRelayToken c tok) d) (attach c) (sessions d)\<rparr>"
    using assms(1) by (rule ResolveSessionRelayTarget_cases)
  show ?thesis unfolding d' using assms(2) by (rule sessions_wf_update) (simp_all add: attach_def relay_session_def)
qed

section \<open>Opening is exclusive\<close>

text \<open>A session that has not expired holds its runtime.\<close>

definition holds :: "ctx \<Rightarrow> string \<Rightarrow> session \<Rightarrow> bool" where
  "holds c rid s \<longleftrightarrow> s_runtime_id s = rid \<and> live_session s \<and> s_expires_at s > db_now c"

definition opened :: "ctx \<Rightarrow> session \<Rightarrow> db \<Rightarrow> session \<Rightarrow> db \<Rightarrow> bool" where
  "opened c fresh d s d' \<longleftrightarrow> sessions_wf d' \<and> s \<in> set (sessions d') \<and> live_session s
     \<and> s_runtime_id s = s_runtime_id fresh \<and> s_device_id s = s_device_id fresh \<and> s_capability_id s = s_capability_id fresh
     \<and> s_relay_token s = s_relay_token fresh \<and> s_relay_token_consumed_at s = None
     \<and> (\<forall>q \<in> set (sessions d). \<not> holds c (s_runtime_id fresh) q)
     \<and> (\<forall>q \<in> set (sessions d). live_session q \<and> s_runtime_id q \<noteq> s_runtime_id fresh \<longrightarrow> q \<in> set (sessions d'))"

lemma insertSession_opened:
  assumes "insertSession c fresh d = Inr (s, d')" and "sessions_wf d" and "s_status fresh = ''pending''"
    and "s_relay_token_consumed_at fresh = None"
  shows "opened c fresh d s d'"
proof (cases "find (\<lambda>s. s_runtime_id s = s_runtime_id fresh \<and> live_session s) (sessions d)")
  case None
  then have no: "\<forall>q \<in> set (sessions d). \<not> (s_runtime_id q = s_runtime_id fresh \<and> live_session q)"
    by (simp add: find_None_iff)
  have d': "d' = d\<lparr>sessions := sessions d @ [fresh]\<rparr>" "s = fresh" "s_id fresh \<notin> s_id ` set (sessions d)"
    using assms(1) None by (auto simp: insertSession_def split: if_splits)
  have "sessions_wf d'"
    using assms(2) no d' by (auto simp: sessions_wf_def unique_where_append1)
  then show ?thesis using no d' assms(3,4) unfolding opened_def by (auto simp: holds_def live_session_def)
next
  case (Some s0)
  have s0: "s0 \<in> set (sessions d)" "s_runtime_id s0 = s_runtime_id fresh" "live_session s0" using find_SomeD [OF Some] by auto
  have ex: "s_expires_at s0 \<le> db_now c" and s: "s = take_over c fresh s0"
    and d': "d' = d\<lparr>sessions := update_where (\<lambda>q. s_id q = s_id s0) (take_over c fresh) (sessions d)\<rparr>"
    using assms(1) Some by (auto simp: insertSession_def split: if_splits)
  have same: "q = s0" if "q \<in> set (sessions d)" "s_id q = s_id s0" for q
    using assms(2) s0(1) that key_eq_row [of s_id "sessions d" q s0] by (simp add: sessions_wf_def)
  have only: "q = s0" if "q \<in> set (sessions d)" "live_session q" "s_runtime_id q = s_runtime_id fresh" for q
    using assms(2) s0 that unique_whereD [of live_session s_runtime_id "sessions d" q s0] by (simp add: sessions_wf_def)
  have keep: "s_id (take_over c fresh q) = s_id q" "s_runtime_id (take_over c fresh q) = s_runtime_id q" for q
    by (simp_all add: take_over_def)
  have "unique_where live_session s_runtime_id (update_where (\<lambda>q. s_id q = s_id s0) (take_over c fresh) (sessions d))"
  proof (rule unique_where_update)
    show "unique_where live_session s_runtime_id (sessions d)" using assms(2) by (simp add: sessions_wf_def)
    show "live_session q \<and> s_runtime_id (take_over c fresh q) = s_runtime_id q"
      if "q \<in> set (sessions d)" "s_id q = s_id s0" for q using same [OF that] s0(3) keep by blast
  qed
  then have "sessions_wf d'" unfolding d' using assms(2) keep by (simp add: sessions_wf_def distinct_map_update_where)
  moreover have "s \<in> set (sessions d')" unfolding d' s using s0(1) by (auto simp: set_update_where)
  moreover have "\<forall>q \<in> set (sessions d). \<not> holds c (s_runtime_id fresh) q" using only ex unfolding holds_def by fastforce
  moreover have "\<forall>q \<in> set (sessions d). live_session q \<and> s_runtime_id q \<noteq> s_runtime_id fresh \<longrightarrow> q \<in> set (sessions d')"
    unfolding d' using same s0(2) by (auto simp: in_update_where)
  ultimately show ?thesis unfolding opened_def using s s0(2) ex assms(3,4) by (simp add: take_over_def live_session_def)
qed

text \<open>What a client that opened a session was entitled to and got.\<close>

definition granted ::
  "ctx \<Rightarrow> pricing \<Rightarrow> string \<Rightarrow> string \<Rightarrow> string \<Rightarrow> string option \<Rightarrow> string option \<Rightarrow> db \<Rightarrow> Session \<Rightarrow> db \<Rightarrow> bool" where
  "granted c p sid tok rid dev cap d v d' \<longleftrightarrow>
     (\<exists>s. opened c (new_session c sid rid dev cap (hashRelayToken c tok)) d s d' \<and> se_ID v = s_id s \<and> se_RelayToken v = tok)
     \<and> (\<exists>r \<in> set (runtimes d). r_id r = rid \<and> not_deleting r \<and> r_desired_state r = ''running'' \<and> r_status r = ''running''
          \<and> r_connection_status r = ''online'' \<and> ensureSessionTimeAvailable p (r_account_id r) d = Inr ()
          \<and> (case dev of Some i \<Rightarrow> active_device (r_account_id r) i d | None \<Rightarrow> True)
          \<and> (case cap of Some i \<Rightarrow> \<exists>k \<in> set (runtime_capabilities d). c_id k = i \<and> c_runtime_id k = rid
                \<and> c_account_id k = r_account_id r \<and> valid_capability c k | None \<Rightarrow> True))"

lemma CreateSession_granted:
  assumes "CreateSession c p sid tok dev rid d = Inr (v, d')" and "sessions_wf d"
  shows "granted c p sid tok rid (Some dev) None d v d'"
proof -
  let ?fresh = "new_session c sid rid (Some dev) None (hashRelayToken c tok)"
  from assms(1) obtain r s where r: "find (\<lambda>r. r_id r = rid \<and> active_device (r_account_id r) dev d \<and> not_deleting r) (runtimes d) = Some r"
    and st: "r_desired_state r = ''running''" "r_status r = ''running''" "r_connection_status r = ''online''"
    and e: "ensureSessionTimeAvailable p (r_account_id r) d = Inr ()"
    and s: "insertSession c ?fresh d = Inr (s, d')" "v = (scanSession s)\<lparr>se_RelayToken := tok\<rparr>"
    by (auto simp: CreateSession_def res_simps split: if_splits)
  have "opened c ?fresh d s d'" by (rule insertSession_opened [OF s(1) assms(2)]) (simp_all add: new_session_def)
  then show ?thesis unfolding granted_def using find_SomeD [OF r] st e s(2)
    by (intro conjI exI [of _ s] bexI [of _ r]) (simp_all add: scanSession_def)
qed

lemma CreateSessionWithCapability_granted:
  assumes "CreateSessionWithCapability c p sid tok a cap rid d = Inr (v, d')" and "sessions_wf d"
  shows "granted c p sid tok (TrimSpace rid) None (Some (TrimSpace cap)) d v d'"
proof -
  let ?fresh = "new_session c sid (TrimSpace rid) None (Some (TrimSpace cap)) (hashRelayToken c tok)"
  from assms(1) obtain r s where r: "find (\<lambda>r. r_id r = TrimSpace rid \<and> r_account_id r = TrimSpace a
      \<and> (\<exists>k \<in> set (runtime_capabilities d). c_runtime_id k = r_id r \<and> c_account_id k = r_account_id r
             \<and> c_id k = TrimSpace cap \<and> valid_capability c k) \<and> not_deleting r) (runtimes d) = Some r"
    and st: "r_desired_state r = ''running''" "r_status r = ''running''" "r_connection_status r = ''online''"
    and e: "ensureSessionTimeAvailable p (TrimSpace a) d = Inr ()"
    and s: "insertSession c ?fresh d = Inr (s, d')" "v = (scanCapabilitySession s)\<lparr>se_RelayToken := tok\<rparr>"
    by (auto simp: CreateSessionWithCapability_def Let_def res_simps split: if_splits)
  have "opened c ?fresh d s d'" by (rule insertSession_opened [OF s(1) assms(2)]) (simp_all add: new_session_def)
  then show ?thesis unfolding granted_def using find_SomeD [OF r] st e s(2)
    by (intro conjI exI [of _ s] bexI [of _ r]) (auto simp: scanSession_def scanCapabilitySession_def)
qed

text \<open>
  C19. A runtime has one viewer at a time: a device or capability that opens a session is one of the account
  of the runtime and not revoked, the runtime is up and the account may use it, no session that has not expired held
  the runtime before, the table still has at most one live session per runtime, sessions of other
  runtimes stay, and the new session's relay token is unused.
\<close>

theorem CreateSession_exclusive:
  assumes "sessions_wf d"
  shows "(CreateSession c p sid tok dev rid d = Inr (v, d') \<longrightarrow> granted c p sid tok rid (Some dev) None d v d')
    \<and> (CreateSessionWithCapability c p sid tok a cap rid d = Inr (v, d') \<longrightarrow>
         granted c p sid tok (TrimSpace rid) None (Some (TrimSpace cap)) d v d')"
  using CreateSession_granted [OF _ assms] CreateSessionWithCapability_granted [OF _ assms] by blast

theorem CreateSession_exclusive_witness:
  "\<exists>v d'. CreateSession sample_ctx sample_pricing ''s9'' ''tok'' ''d1'' ''r1'' (sample_live\<lparr>sessions := []\<rparr>) = Inr (v, d')
     \<and> sessions_wf d'"
proof -
  have "map_sum id (\<lambda>_. ()) (CreateSession sample_ctx sample_pricing ''s9'' ''tok'' ''d1'' ''r1'' (sample_live\<lparr>sessions := []\<rparr>)) = Inr ()"
    by code_simp
  then obtain v d' where x: "CreateSession sample_ctx sample_pricing ''s9'' ''tok'' ''d1'' ''r1'' (sample_live\<lparr>sessions := []\<rparr>) = Inr (v, d')"
    by (auto dest: sample_run)
  have "sessions_wf (sample_live\<lparr>sessions := []\<rparr>)" by (simp add: sessions_wf_def unique_where_def)
  from CreateSession_exclusive [OF this] x show ?thesis unfolding granted_def opened_def by blast
qed

section \<open>A relay token works once\<close>

lemma relay_refused:
  assumes "\<forall>q \<in> set (sessions d). \<not> relay_session c sid (hashRelayToken c tok) d q"
  shows "ResolveSessionRelayTarget c sid tok d = Inl ErrNoRows"
proof -
  have "find (relay_session c sid (hashRelayToken c tok) d) (sessions d) = None" using assms by (simp add: find_None_iff)
  then show ?thesis by (simp add: ResolveSessionRelayTarget_def update_session_def)
qed

lemma attached_used:
  assumes "distinct (map s_id (sessions d))" and "find (relay_session c sid h d) (sessions d) = Some s"
    and "q' \<in> set (update_where (relay_session c sid h d) (attach c) (sessions d))" and "s_id q' = sid"
  shows "s_relay_token_consumed_at q' \<noteq> None"
proof -
  have s: "s \<in> set (sessions d)" "relay_session c sid h d s" "s_id s = sid"
    using find_SomeD [OF assms(2)] by (auto simp: relay_session_def)
  obtain q where q: "q \<in> set (sessions d)" "q' = (if relay_session c sid h d q then attach c q else q)"
    using assms(3) by (auto simp: set_update_where)
  have "s_id q = s_id s" using assms(4) q(2) s(3) by (cases "relay_session c sid h d q") (simp_all add: attach_def)
  from key_eq_row [OF assms(1) q(1) s(1) this] q(2) s(2) have "q' = attach c s" by simp
  then show ?thesis by (simp add: attach_def)
qed

text \<open>
  C20. A relay token works once: it attaches a viewer only to a runtime that is up, at the host and port
  the runtime has there, and from then on no token attaches to the session until a new one is issued;
  after a new one is issued, a token with another hash never attaches.
\<close>

theorem relay_token_once:
  assumes "ResolveSessionRelayTarget c sid tok d = Inr (t, d')" and "sessions_wf d"
  shows "(\<exists>r \<in> set (runtimes d). viewable r \<and> r_id r = rt_RuntimeID t \<and> r_host_id r = Some (rt_HostID t)
           \<and> r_viewer_port r = Some (rt_ViewerPort t))
    \<and> (\<forall>c' tok'. ResolveSessionRelayTarget c' sid tok' d' = Inl ErrNoRows)
    \<and> (\<forall>c2 tok2 a dev v d2. IssueSessionRelayToken c2 tok2 a dev sid d' = Inr (v, d2) \<and> TrimSpace sid = sid
         \<and> hashRelayToken c tok \<noteq> hashRelayToken c2 tok2 \<longrightarrow> ResolveSessionRelayTarget c sid tok d2 = Inl ErrNoRows)"
  using assms(1)
proof (rule ResolveSessionRelayTarget_cases)
  fix s r
  assume s: "find (relay_session c sid (hashRelayToken c tok) d) (sessions d) = Some s"
    and r: "r \<in> set (runtimes d)" "r_id r = s_runtime_id s" "viewable r"
    and d': "d' = d\<lparr>sessions := update_where (relay_session c sid (hashRelayToken c tok) d) (attach c) (sessions d)\<rparr>"
    and t: "t = \<lparr>rt_SessionID = sid, rt_RuntimeID = s_runtime_id s, rt_DeviceID = coalesce (s_device_id s) [],
              rt_HostID = coalesce (r_host_id r) [], rt_ViewerPort = coalesce (r_viewer_port r) 0\<rparr>"
  have used: "\<forall>q \<in> set (sessions d'). s_id q = sid \<longrightarrow> s_relay_token_consumed_at q \<noteq> None"
    using attached_used [OF _ s] assms(2) unfolding d' sessions_wf_def by simp
  have "\<exists>r \<in> set (runtimes d). viewable r \<and> r_id r = rt_RuntimeID t \<and> r_host_id r = Some (rt_HostID t) \<and> r_viewer_port r = Some (rt_ViewerPort t)"
    using r by (intro bexI [of _ r]) (auto simp: t viewable_def)
  moreover have "ResolveSessionRelayTarget c' sid tok' d' = Inl ErrNoRows" for c' tok'
    by (rule relay_refused) (use used in \<open>auto simp: relay_session_def\<close>)
  moreover have "ResolveSessionRelayTarget c sid tok d2 = Inl ErrNoRows"
    if i: "IssueSessionRelayToken c2 tok2 a dev sid d' = Inr (v, d2)" "TrimSpace sid = sid"
      "hashRelayToken c tok \<noteq> hashRelayToken c2 tok2" for c2 tok2 a dev v d2
  proof (rule relay_refused)
    obtain P where d2: "sessions d2 = update_where P (renew_token c2 (hashRelayToken c2 tok2)) (sessions d')"
      using i(1) by (auto simp: IssueSessionRelayToken_def update_session_def Let_def res_simps split: if_splits)
    show "\<forall>q \<in> set (sessions d2). \<not> relay_session c sid (hashRelayToken c tok) d2 q"
      unfolding d2 ball_update_where using used i(3) by (auto simp: relay_session_def renew_token_def)
  qed
  ultimately show ?thesis by blast
qed

theorem relay_token_once_witness:
  "\<exists>d t d'. sessions_wf d \<and> ResolveSessionRelayTarget sample_ctx ''s1'' ''tok'' d = Inr (t, d')
     \<and> ResolveSessionRelayTarget sample_ctx ''s1'' ''tok'' d' = Inl ErrNoRows"
proof -
  let ?d = "sample_live\<lparr>sessions := [sample_session\<lparr>s_relay_token := hashRelayToken sample_ctx ''tok''\<rparr>]\<rparr>"
  have "map_sum id (\<lambda>_. ()) (ResolveSessionRelayTarget sample_ctx ''s1'' ''tok'' ?d) = Inr ()" by code_simp
  then obtain t d' where x: "ResolveSessionRelayTarget sample_ctx ''s1'' ''tok'' ?d = Inr (t, d')"
    by (auto dest: sample_run)
  have wf: "sessions_wf ?d" by (simp add: sessions_wf_def unique_where_def)
  from relay_token_once [OF x wf] x wf show ?thesis by blast
qed

section \<open>What the reaper does\<close>

definition reap_timeout :: "duration \<Rightarrow> duration" where
  "reap_timeout t = postgresInterval (if t \<le> 0 then 2 * minute else t)"

lemma endStaleSessions_sessions:
  "sessions (endStaleSessions c timeout d) = update_where (stale_active c timeout) (reaped c ''stale'' ''client heartbeat stale'')
     (update_where (expire_pending c) (reaped c ''expired'' ''session expired before relay attach'') (sessions d))"
  by (simp add: endStaleSessions_def)

lemma endStaleSessions_live:
  "\<forall>s \<in> set (sessions (endStaleSessions c timeout d)). live_session s \<longrightarrow> watching c timeout s"
  unfolding endStaleSessions_sessions ball_update_where
  by (auto simp: reaped_def stale_active_def expire_pending_def watching_def live_session_def)

lemma watching_kept:
  assumes "s \<in> set (sessions d)" and "watching c timeout s"
  shows "s \<in> set (sessions (endStaleSessions c timeout d))"
proof -
  have "\<not> expire_pending c s" "\<not> stale_active c timeout s"
    using assms(2) by (auto simp: watching_def expire_pending_def stale_active_def)
  with assms(1) show ?thesis unfolding endStaleSessions_sessions by (simp add: in_update_where)
qed

lemma endStaleSessions_frame [simp]:
  "runtimes (endStaleSessions c timeout d) = runtimes d"
  "runtime_capabilities (endStaleSessions c timeout d) = runtime_capabilities d"
  by (simp_all add: endStaleSessions_def Let_def)

lemma endStaleSessions_wf:
  assumes "sessions_wf d"
  shows "sessions_wf (endStaleSessions c timeout d)"
  using staleness.keeps_wf [OF expiry.keeps_wf [OF assms]] by (simp add: endStaleSessions_def Let_def)

lemma endStaleSessions_same:
  assumes "\<forall>s \<in> set (sessions d). live_session s \<longrightarrow> watching c timeout s"
  shows "sessions (endStaleSessions c timeout d) = sessions d"
proof -
  have "\<not> expire_pending c s \<and> \<not> stale_active c timeout s" if "s \<in> set (sessions d)" for s
    using assms that by (auto simp: live_session_def watching_def expire_pending_def stale_active_def)
  then show ?thesis unfolding endStaleSessions_sessions by (simp add: update_where_id)
qed

lemma fold_revoke_frame [simp]:
  "runtimes (fold (revokeRuntimeCapabilitiesForRuntimeTX c) is d) = runtimes d"
  "sessions (fold (revokeRuntimeCapabilitiesForRuntimeTX c) is d) = sessions d"
  by (induction "is" arbitrary: d) simp_all

lemma fold_revoke_none:
  assumes "i \<in> set is" and "TrimSpace i = i"
  shows "no_valid_capability i (fold (revokeRuntimeCapabilitiesForRuntimeTX c) is d)"
proof -
  have keep: "no_valid_capability i e \<Longrightarrow> no_valid_capability i (fold (revokeRuntimeCapabilitiesForRuntimeTX c) js e)" for js e
    by (induction js arbitrary: e) (auto simp: revokeRuntimeCapabilitiesForRuntimeTX_def intro: no_valid_capability_mono)
  show ?thesis using assms(1) by (induction "is" arbitrary: d) (auto intro: keep revoke_for_runtime_none assms(2))
qed

lemma stopIdleRuntimes_tables:
  assumes "stopIdleRuntimes c timeout d = (ids, d')"
  shows "ids = map r_id (filter (idle_runtime c timeout d) (runtimes d))"
    and "runtimes d' = update_where (\<lambda>r. r_id r \<in> set ids) (idle_stop_row c) (runtimes d)"
    and "sessions d' = sessions d"
    and "i \<in> set ids \<Longrightarrow> TrimSpace i = i \<Longrightarrow> no_valid_capability i d'"
  using assms by (auto simp: stopIdleRuntimes_def Let_def intro: fold_revoke_none)

lemma ReapStaleSessions_total: "\<exists>res d'. ReapStaleSessions c t d = Inr (res, d')"
  by (simp add: ReapStaleSessions_def Let_def split_def)

lemma ReapStaleSessions_tables:
  assumes "ReapStaleSessions c t d = Inr (res, d')"
  obtains d2 where "stopIdleRuntimes c (reap_timeout t) (endStaleSessions c (reap_timeout t) d) = (StoppedRuntimeIDs res, d2)"
    and "runtimes d' = runtimes d2" and "sessions d' = sessions d2"
    and "\<And>i. no_valid_capability i d2 \<Longrightarrow> no_valid_capability i d'"
proof -
  let ?d1 = "endStaleSessions c (reap_timeout t) d"
  obtain ids d2 where s: "stopIdleRuntimes c (reap_timeout t) ?d1 = (ids, d2)" by (cases "stopIdleRuntimes c (reap_timeout t) ?d1")
  have d': "d' = pruneExpiredBlobKeyHandoffsTX c (pruneExpiredRuntimeCapabilityNoncesTX c
      (revokeExpiredRuntimeCapabilitiesTX c (revokeEndedSessionCapabilitiesTX c d2)))"
    and ids: "StoppedRuntimeIDs res = ids"
    using assms s by (auto simp: ReapStaleSessions_def reap_timeout_def Let_def)
  have cap: "no_valid_capability i d'" if "no_valid_capability i d2" for i
    using no_valid_capability_mono [OF no_valid_capability_mono [OF that]]
    unfolding d' revoke_defs pruneExpiredBlobKeyHandoffsTX_def pruneExpiredRuntimeCapabilityNoncesTX_def
    by (simp add: no_valid_capability_def)
  show ?thesis
    by (rule that [OF _ _ _ cap])
      (simp_all add: s ids d' revoke_defs pruneExpiredBlobKeyHandoffsTX_def pruneExpiredRuntimeCapabilityNoncesTX_def)
qed

text \<open>
  C23. The reaper ends exactly what nobody uses: after a pass every live session is one a viewer holds,
  sessions that a viewer holds and runtimes that are not idle are untouched, and every runtime that is meant
  to run with nobody watching it past its inactivity period is stopped, without a live session or a valid
  client key.
\<close>

theorem ReapStaleSessions_effect:
  assumes "ReapStaleSessions c t d = Inr (res, d')" and "distinct (map r_id (runtimes d))"
    and "\<forall>r \<in> set (runtimes d). TrimSpace (r_id r) = r_id r"
  shows "(\<forall>s \<in> set (sessions d'). live_session s \<longrightarrow> watching c (reap_timeout t) s)
    \<and> (\<forall>s \<in> set (sessions d). watching c (reap_timeout t) s \<longrightarrow> s \<in> set (sessions d'))
    \<and> (\<forall>r \<in> set (runtimes d). if idle_runtime c (reap_timeout t) (endStaleSessions c (reap_timeout t) d) r
         then idle_stop_row c r \<in> set (runtimes d') \<and> no_live_session (r_id r) d' \<and> no_valid_capability (r_id r) d'
         else r \<in> set (runtimes d'))"
proof -
  let ?T = "reap_timeout t" and ?d1 = "endStaleSessions c (reap_timeout t) d"
  obtain d2 where d2: "stopIdleRuntimes c ?T ?d1 = (StoppedRuntimeIDs res, d2)"
    and rt: "runtimes d' = runtimes d2" and ss: "sessions d' = sessions d2"
    and cap: "\<And>i. no_valid_capability i d2 \<Longrightarrow> no_valid_capability i d'"
    by (rule ReapStaleSessions_tables [OF assms(1)]) blast
  note S = stopIdleRuntimes_tables [OF d2]
  have ss1: "sessions d' = sessions ?d1" by (simp add: ss S(3))
  have stopped: "r_id r \<in> set (StoppedRuntimeIDs res) \<longleftrightarrow> idle_runtime c ?T ?d1 r" if r: "r \<in> set (runtimes d)" for r
  proof -
    have "q = r" if "q \<in> set (runtimes d)" "r_id q = r_id r" for q by (rule key_eq_row [OF assms(2) that(1) r that(2)])
    then show ?thesis unfolding S(1) using r by (auto simp del: set_filter simp: set_filter [of _ "runtimes _"])
  qed
  have idle: "idle_stop_row c r \<in> set (runtimes d') \<and> no_live_session (r_id r) d' \<and> no_valid_capability (r_id r) d'"
    if r: "r \<in> set (runtimes d)" and i: "idle_runtime c ?T ?d1 r" for r
  proof (intro conjI)
    have id: "r_id r \<in> set (StoppedRuntimeIDs res)" using stopped r i by blast
    then show "idle_stop_row c r \<in> set (runtimes d')" using r by (auto simp: rt S(2) in_update_where)
    show "no_live_session (r_id r) d'"
      using i endStaleSessions_live [of c ?T d] unfolding no_live_session_def ss1 idle_runtime_def by blast
    show "no_valid_capability (r_id r) d'" by (rule cap, rule S(4) [OF id]) (use assms(3) r in blast)
  qed
  have other: "r \<in> set (runtimes d')" if "r \<in> set (runtimes d)" "\<not> idle_runtime c ?T ?d1 r" for r
    using stopped that by (simp add: rt S(2) in_update_where)
  show ?thesis
    using endStaleSessions_live watching_kept idle other unfolding ss1 by (auto split: if_splits)
qed

theorem ReapStaleSessions_effect_witness:
  "\<exists>res d'. ReapStaleSessions sample_ctx 0 (sample_live\<lparr>sessions := []\<rparr>) = Inr (res, d')
     \<and> (\<forall>s \<in> set (sessions d'). live_session s \<longrightarrow> watching sample_ctx (reap_timeout 0) s)"
proof -
  let ?d = "sample_live\<lparr>sessions := []\<rparr>"
  obtain res d' where x: "ReapStaleSessions sample_ctx 0 ?d = Inr (res, d')"
    using ReapStaleSessions_total by blast
  have "distinct (map r_id (runtimes ?d))" "\<forall>r \<in> set (runtimes ?d). TrimSpace (r_id r) = r_id r"
    by (simp add: sample_live_def) code_simp
  from ReapStaleSessions_effect [OF x this] x show ?thesis by blast
qed

section \<open>When a runtime is going to be stopped\<close>

text \<open>
  C24. What clients are told is what happens: when the reaper runs with its default timeout and has no dead
  session to end, it stops exactly the runtimes whose announced stop time has passed.
\<close>

theorem idleStopAt_reaper:
  assumes "ReapStaleSessions c 0 d = Inr (res, d')" and "distinct (map r_id (runtimes d))"
    and "\<forall>s \<in> set (sessions d). live_session s \<longrightarrow> watching c (2 * minute) s"
    and "r \<in> set (runtimes d)" and "r_deleted_at r = None"
  shows "r_id r \<in> set (StoppedRuntimeIDs res) \<longleftrightarrow> (\<exists>at. idleStopAt c d r = Some at \<and> at < db_now c)"
proof -
  have T: "reap_timeout 0 = 2 * minute" by (simp add: reap_timeout_def postgresInterval_def)
  obtain d2 where d2: "stopIdleRuntimes c (2 * minute) (endStaleSessions c (2 * minute) d) = (StoppedRuntimeIDs res, d2)"
    by (rule ReapStaleSessions_tables [OF assms(1), unfolded T])
  have same: "sessions (endStaleSessions c (2 * minute) d) = sessions d" by (rule endStaleSessions_same [OF assms(3)])
  have eq: "idle_runtime c (2 * minute) (endStaleSessions c (2 * minute) d) r = idle_runtime c (2 * minute) d r" for r
    unfolding idle_runtime_def idleRuntimeLastActivity_def same by simp
  have "r_id r \<in> set (StoppedRuntimeIDs res) \<longleftrightarrow> idle_runtime c (2 * minute) d r"
    unfolding stopIdleRuntimes_tables(1) [OF d2] eq endStaleSessions_frame using key_eq_row [OF assms(2) assms(4)] assms(4) by fastforce
  also have "\<dots> \<longleftrightarrow> (\<exists>at. idleStopAt c d r = Some at \<and> at < db_now c)"
    using assms(5) by (auto simp: idle_runtime_def idleStopAt_def)
  finally show ?thesis .
qed

theorem idleStopAt_reaper_witness:
  "\<exists>res d'. ReapStaleSessions sample_ctx 0 (sample_live\<lparr>sessions := []\<rparr>) = Inr (res, d')
     \<and> (''r1'' \<in> set (StoppedRuntimeIDs res) \<longleftrightarrow>
          (\<exists>at. idleStopAt sample_ctx (sample_live\<lparr>sessions := []\<rparr>) sample_running = Some at \<and> at < db_now sample_ctx))"
proof -
  let ?d = "sample_live\<lparr>sessions := []\<rparr>"
  obtain res d' where x: "ReapStaleSessions sample_ctx 0 ?d = Inr (res, d')" using ReapStaleSessions_total by blast
  have h: "distinct (map r_id (runtimes ?d))" "\<forall>s \<in> set (sessions ?d). live_session s \<longrightarrow> watching sample_ctx (2 * minute) s"
    "sample_running \<in> set (runtimes ?d)" "r_deleted_at sample_running = None" "r_id sample_running = ''r1''"
    by (simp_all add: sample_live_def sample_running_def sample_runtime_def)
  from idleStopAt_reaper [OF x h(1-4)] x show ?thesis unfolding h(5) by blast
qed

text \<open>
  With a dead session still open the announced time is early: ending the session counts as activity, so a
  runtime whose announced time has passed is not stopped in that pass.
\<close>

lemma idleStopAt_early:
  "(case idleStopAt sample_ctx sample_live (sample_running\<lparr>r_started_at := Some 0\<rparr>) of
      Some at \<Rightarrow> at < db_now sample_ctx | None \<Rightarrow> False)
   \<and> map_sum id (\<lambda>(res, _). StoppedRuntimeIDs res)
       (ReapStaleSessions sample_ctx 0 (sample_live\<lparr>runtimes := [sample_running\<lparr>r_started_at := Some 0\<rparr>]\<rparr>)) = Inr []"
  by (intro conjI; code_simp)

end
