(* ===== verification/Views.thy ===== *)
theory Views
  imports Sessions
begin

text \<open>
  What clients are shown of a runtime and of a session (\<open>GetRuntimeState\<close>, \<open>GetSessionState\<close> and their
  helpers in \<open>internal/store/store.go\<close>), and that the actions a view offers are ones that the operations
  accept.
\<close>

section \<open>Sessions\<close>

definition effectiveSessionStatus :: "Session \<Rightarrow> time \<Rightarrow> string \<times> bool" where
  "effectiveSessionStatus v now =
     (let status0 = ToLower (TrimSpace (se_Status v)); status = (if status0 = [] then ''unknown'' else status0);
          expired = (status = ''pending'' \<or> status = ''active'') \<and> \<not> se_ExpiresAt v > now
      in if expired then (''expired'', True) else (status, False))"

definition runtimeReadyForSession :: "runtime \<Rightarrow> bool" where
  "runtimeReadyForSession r \<longleftrightarrow>
     r_status r = ''running'' \<and> r_desired_state r = ''running'' \<and> r_connection_status r = ''online''
     \<and> r_host_id r \<noteq> None \<and> r_viewer_port r \<noteq> None \<and> r_deleted_at r = None"

definition runtimeStoppedForSession :: "runtime \<Rightarrow> bool" where
  "runtimeStoppedForSession r \<longleftrightarrow>
     (EqualFold (r_status r) ''stopped'' \<or> EqualFold (r_status r) ''provisioned'')
     \<and> EqualFold (r_desired_state r) ''stopped''
     \<and> (let connectionStatus = TrimSpace (r_connection_status r)
        in connectionStatus = [] \<or> EqualFold connectionStatus ''offline'' \<or> EqualFold connectionStatus ''disconnected'')"

record SessionState =
  ss_Session :: Session
  ss_Runtime :: runtime
  ss_EffectiveStatus :: string
  ss_IsExpired :: bool
  ss_RuntimeReady :: bool
  ss_CanResume :: bool

definition sessionState :: "ctx \<Rightarrow> Session \<Rightarrow> runtime \<Rightarrow> SessionState" where
  "sessionState c v r =
     (let (status, expired) = effectiveSessionStatus v (go_now c); ready = runtimeReadyForSession r
      in \<lparr>ss_Session = v, ss_Runtime = r, ss_EffectiveStatus = status, ss_IsExpired = expired,
          ss_RuntimeReady = ready, ss_CanResume = (ready \<and> \<not> expired \<and> (status = ''pending'' \<or> status = ''active''))\<rparr>)"

definition GetSessionState :: "ctx \<Rightarrow> string \<Rightarrow> string \<Rightarrow> string \<Rightarrow> db \<Rightarrow> SessionState res" where
  "GetSessionState c accountID0 deviceID0 sessionID0 d =
     (let accountID = TrimSpace accountID0; deviceID = TrimSpace deviceID0; sessionID = TrimSpace sessionID0 in
      if accountID = [] \<or> deviceID = [] \<or> sessionID = [] then Inl ErrSessionNotFound
      else ebind (of_row ErrSessionNotFound (find (device_session accountID deviceID sessionID d (\<lambda>_. True)) (sessions d))) (\<lambda>s.
      ebind (of_row ErrSessionNotFound (find (\<lambda>r. r_id r = s_runtime_id s \<and> r_account_id r = accountID) (runtimes d))) (\<lambda>r.
      Inr (sessionState c (scanSession s) r))))"

definition GetSessionStateWithCapability :: "ctx \<Rightarrow> string \<Rightarrow> string \<Rightarrow> string \<Rightarrow> db \<Rightarrow> SessionState res" where
  "GetSessionStateWithCapability c accountID0 capabilityID0 sessionID0 d =
     (let accountID = TrimSpace accountID0; capabilityID = TrimSpace capabilityID0; sessionID = TrimSpace sessionID0 in
      if accountID = [] \<or> capabilityID = [] \<or> sessionID = [] then Inl ErrSessionNotFound
      else ebind (of_row ErrSessionNotFound (find (capability_session c accountID capabilityID sessionID d (\<lambda>_. True)) (sessions d))) (\<lambda>s.
      ebind (of_row ErrSessionNotFound (find (\<lambda>r. r_id r = s_runtime_id s \<and> r_account_id r = accountID) (runtimes d))) (\<lambda>r.
      Inr (sessionState c (scanCapabilitySession s) r))))"

section \<open>Runtimes\<close>

definition effectiveRuntimeState :: "runtime \<Rightarrow> string" where
  "effectiveRuntimeState r =
     (let status = ToLower (TrimSpace (r_status r)); desiredState = ToLower (TrimSpace (r_desired_state r));
          connectionStatus = ToLower (TrimSpace (r_connection_status r))
      in if r_deleted_at r \<noteq> None \<or> status = ''deleted'' then ''deleted''
         else if desiredState = ''deleted'' \<or> status = ''deleting'' then ''deleting''
         else if status = ''wiping'' \<or> r_wipe_requested r then ''wiping''
         else if status = ''stopping'' \<or> connectionStatus = ''disconnecting''
                 \<or> desiredState = ''stopped'' \<and> connectionStatus = ''online'' then ''stopping''
         else if runtimeReadyForSession r then ''running''
         else if status = ''error'' then ''error''
         else if desiredState = ''running'' \<or> status = ''starting'' \<or> status = ''provisioning''
                 \<or> connectionStatus = ''connecting'' \<or> connectionStatus = ''preparing'' then ''starting''
         else if runtimeStoppedForSession r \<or> status = ''provisioned'' then ''stopped''
         else if status \<noteq> [] then status else ''unknown'')"

record RuntimeState =
  rs_Runtime :: runtime
  rs_IdleStopAt :: "time option"
  rs_CurrentDeviceSessionID :: "string option"
  rs_EffectiveState :: string
  rs_RuntimeReady :: bool
  rs_HasActiveSession :: bool
  rs_HasCurrentDeviceSession :: bool
  rs_CanConnect :: bool
  rs_CanStart :: bool
  rs_CanStop :: bool
  rs_CanWipe :: bool
  rs_CanDelete :: bool
  rs_IsBusy :: bool
  rs_BlockedReason :: string

definition buildRuntimeState :: "runtime \<Rightarrow> bool \<Rightarrow> string option \<Rightarrow> time option \<Rightarrow> RuntimeState" where
  "buildRuntimeState r hasActiveSession currentDeviceSessionID stopAt =
     (let effectiveState = effectiveRuntimeState r; runtimeReady = runtimeReadyForSession r;
          isBusy = (effectiveState = ''starting'' \<or> effectiveState = ''stopping'' \<or> effectiveState = ''wiping''
                    \<or> effectiveState = ''deleting'' \<or> r_cleanup_pending r);
          deleted = (effectiveState = ''deleted'' \<or> r_deleted_at r \<noteq> None);
          hostAssigned = (valueOrEmpty (r_host_id r) \<noteq> []);
          canStart = (\<not> deleted \<and> \<not> runtimeReady \<and> \<not> isBusy \<and> \<not> r_cleanup_pending r
                      \<and> (\<not> hostAssigned \<or> runtimeStoppedForSession r))
      in \<lparr>rs_Runtime = r, rs_IdleStopAt = stopAt, rs_CurrentDeviceSessionID = currentDeviceSessionID,
          rs_EffectiveState = effectiveState, rs_RuntimeReady = runtimeReady, rs_HasActiveSession = hasActiveSession,
          rs_HasCurrentDeviceSession = (currentDeviceSessionID \<noteq> None), rs_CanConnect = (runtimeReady \<and> \<not> deleted),
          rs_CanStart = canStart,
          rs_CanStop = (\<not> deleted \<and> hostAssigned \<and> \<not> runtimeStoppedForSession r \<and> effectiveState \<noteq> ''stopping''
                        \<and> effectiveState \<noteq> ''wiping'' \<and> effectiveState \<noteq> ''deleting''),
          rs_CanWipe = (\<not> deleted \<and> \<not> isBusy),
          rs_CanDelete = (\<not> deleted \<and> effectiveState \<noteq> ''deleting'' \<and> \<not> r_cleanup_pending r),
          rs_IsBusy = isBusy,
          rs_BlockedReason =
            (if deleted then ''runtime deleted''
             else if r_cleanup_pending r then ''runtime cleanup is still pending''
             else if isBusy then ''runtime lifecycle operation is already in progress''
             else if r_status r = ''error'' \<and> r_last_error r \<noteq> None then TrimSpace (coalesce (r_last_error r) [])
             else if \<not> runtimeReady \<and> \<not> canStart then ''runtime is not ready'' else [])\<rparr>)"

definition newer_update :: "session \<Rightarrow> session \<Rightarrow> bool" where
  "newer_update s q \<longleftrightarrow> s_updated_at s > s_updated_at q"

definition GetRuntimeState :: "ctx \<Rightarrow> string \<Rightarrow> string \<Rightarrow> string \<Rightarrow> db \<Rightarrow> RuntimeState res" where
  "GetRuntimeState c accountID0 deviceID0 runtimeID0 d =
     (let accountID = TrimSpace accountID0; deviceID = TrimSpace deviceID0; runtimeID = TrimSpace runtimeID0 in
      if accountID = [] \<or> deviceID = [] \<or> runtimeID = [] then Inl ErrRuntimeNotFound
      else ebind (of_row ErrRuntimeNotFound (find (\<lambda>r. r_account_id r = accountID \<and> r_id r = runtimeID
             \<and> r_deleted_at r = None) (runtimes d))) (\<lambda>r.
        let open_session = (\<lambda>s. s_runtime_id s = runtimeID \<and> live_session s \<and> s_expires_at s > db_now c);
            current = best_by newer_update (filter (\<lambda>s. open_session s \<and> s_device_id s = Some deviceID) (sessions d))
        in Inr (buildRuntimeState r (\<exists>s \<in> set (sessions d). open_session s) (map_option s_id current) (idleStopAt c d r))))"

section \<open>Offers are honoured\<close>

lemma GetRuntimeState_row:
  assumes "GetRuntimeState c a dev rid d = Inr v"
  shows "find (\<lambda>r. r_account_id r = TrimSpace a \<and> r_id r = TrimSpace rid \<and> r_deleted_at r = None) (runtimes d) = Some (rs_Runtime v)"
    and "\<exists>act cur at. v = buildRuntimeState (rs_Runtime v) act cur at"
proof -
  have b: "rs_Runtime (buildRuntimeState r act cur at) = r" for r act cur at by (simp add: buildRuntimeState_def Let_def)
  from assms obtain r act cur at where v: "v = buildRuntimeState r act cur at"
    and r: "find (\<lambda>r. r_account_id r = TrimSpace a \<and> r_id r = TrimSpace rid \<and> r_deleted_at r = None) (runtimes d) = Some r"
    by (auto simp: GetRuntimeState_def Let_def res_simps split: if_splits)
  then show "find (\<lambda>r. r_account_id r = TrimSpace a \<and> r_id r = TrimSpace rid \<and> r_deleted_at r = None) (runtimes d) = Some (rs_Runtime v)"
    by (simp only: b)
  show "\<exists>act cur at. v = buildRuntimeState (rs_Runtime v) act cur at" unfolding v b by blast
qed

lemma offer_states:
  assumes "v = buildRuntimeState r act cur at"
  shows "rs_CanConnect v \<Longrightarrow> runtimeReadyForSession r"
    and "rs_CanStart v \<Longrightarrow> \<not> r_cleanup_pending r \<and> effectiveRuntimeState r \<notin> {''deleted'', ''deleting''}"
    and "rs_CanStop v \<Longrightarrow> effectiveRuntimeState r \<notin> {''deleted'', ''deleting''}"
    and "rs_CanWipe v \<Longrightarrow> effectiveRuntimeState r \<notin> {''deleted'', ''deleting''}"
    and "rs_CanDelete v \<Longrightarrow> r_deleted_at r = None"
  using assms by (simp_all add: buildRuntimeState_def Let_def)

lemma effective_not_deleted:
  assumes "effectiveRuntimeState r \<notin> {''deleted'', ''deleting''}"
  shows "r_deleted_at r = None \<and> r_desired_state r \<noteq> ''deleted''"
proof -
  have "ToLower (TrimSpace ''deleted'') = ''deleted''" by code_simp
  then show ?thesis using assms by (auto simp: effectiveRuntimeState_def Let_def split: if_splits)
qed

text \<open>The first row of an id is the only one, so a narrower condition that it meets finds it too.\<close>

lemma find_same_row:
  assumes "distinct (map key rs)" and "find P rs = Some r" and "Q r" and "\<And>q. Q q \<Longrightarrow> key q = key r"
  shows "find Q rs = Some r"
proof -
  have r: "r \<in> set rs" using find_SomeD [OF assms(2)] by blast
  then obtain q where q: "find Q rs = Some q" using assms(3) by (cases "find Q rs") (auto simp: find_None_iff)
  have "q = r" using key_eq_row [OF assms(1) _ r] find_SomeD [OF q] assms(4) by blast
  with q show ?thesis by simp
qed

lemma start_refusals:
  assumes "startRuntime c p a rid h fresh d = Inl e" and "find (runtime_row a rid) (runtimes d) = Some r" and "\<not> r_cleanup_pending r"
  shows "e \<notin> {ErrRuntimeNotFound, ErrRuntimeCleanupPending}"
proof
  assume e: "e \<in> {ErrRuntimeNotFound, ErrRuntimeCleanupPending}"
  have "ensureRuntimeStartEntitlementTX c p a rid d \<noteq> Inl e"
    using e by (auto simp: ensureRuntimeStartEntitlementTX_def accountEntitlementTX_def Let_def res_simps
        dest: paidBalanceCheck_error split: if_splits)
  moreover have req: "requireReadyRuntimeHostTX c h r d \<noteq> Inl e" for h
    using e by (auto simp: requireReadyRuntimeHostTX_def Let_def res_simps)
  moreover have "pickReadyRuntimeHostTX c h r d \<noteq> Inl e" for h
    using e req by (auto simp: pickReadyRuntimeHostTX_def Let_def res_simps split: sum.splits)
  moreover have "allocateViewerPortTX d \<noteq> Inl e" using e by (auto simp: allocateViewerPortTX_def Let_def)
  ultimately show False
    using assms e by (auto simp: startRuntime_def Let_def res_simps simp del: insert_iff split: if_splits option.splits)
qed

lemma session_refusals:
  assumes "CreateSession c p sid tok dev rid d = Inl e"
    and "find (\<lambda>r. r_id r = rid \<and> active_device (r_account_id r) dev d \<and> not_deleting r) (runtimes d) = Some r"
    and "runtimeReadyForSession r"
  shows "e \<notin> {ErrRuntimeNotFound, ErrRuntimeNotReady}"
proof -
  have "ensureSessionTimeAvailable p (r_account_id r) d \<noteq> Inl e" if "e \<in> {ErrRuntimeNotFound, ErrRuntimeNotReady}"
    using that by (auto simp: ensureSessionTimeAvailable_def Let_def dest: paidBalanceCheck_error split: option.splits if_splits)
  moreover have "insertSession c s d \<noteq> Inl e" if "e \<in> {ErrRuntimeNotFound, ErrRuntimeNotReady}" for s
    using that by (auto simp: insertSession_def split: option.splits if_splits)
  ultimately show ?thesis
    using assms by (auto simp: CreateSession_def runtimeReadyForSession_def res_simps split: if_splits)
qed

text \<open>
  C25. What a runtime's view offers is honoured: when it offers to connect, opening a session is not refused
  because the runtime is missing or not ready; when it offers a start, the start is not refused because
  the runtime is missing or still being cleaned up; when it offers to stop, wipe or delete, that
  operation succeeds.
\<close>

theorem GetRuntimeState_honoured:
  assumes "GetRuntimeState c a dev rid d = Inr v" and "TrimSpace a = a" and "TrimSpace rid = rid"
    and "active_device a dev' d" and "distinct (map r_id (runtimes d))"
  shows "(rs_CanConnect v \<longrightarrow> CreateSession c p sid tok dev' rid d \<notin> {Inl ErrRuntimeNotFound, Inl ErrRuntimeNotReady})
    \<and> (rs_CanStart v \<longrightarrow> startRuntime c p a rid h fresh d \<notin> {Inl ErrRuntimeNotFound, Inl ErrRuntimeCleanupPending})
    \<and> (rs_CanStop v \<longrightarrow> (\<exists>r d'. StopRuntime c a rid d = Inr (r, d')))
    \<and> (rs_CanWipe v \<longrightarrow> (\<exists>r d'. WipeRuntime c a rid d = Inr (r, d')))
    \<and> (rs_CanDelete v \<longrightarrow> (\<exists>r d'. DeleteRuntime c a rid d = Inr (r, d')))"
proof -
  let ?r = "rs_Runtime v"
  note row = GetRuntimeState_row(1) [OF assms(1), unfolded assms(2,3)]
  have r: "?r \<in> set (runtimes d)" "r_account_id ?r = a" "r_id ?r = rid" using find_SomeD [OF row] by auto
  obtain act cur at where v: "v = buildRuntimeState ?r act cur at" using GetRuntimeState_row(2) [OF assms(1)] by blast
  note offers = offer_states [OF v]
  note same = find_same_row [OF assms(5) row]
  have own: "find (runtime_row a rid) (runtimes d) = Some ?r" if "effectiveRuntimeState ?r \<notin> {''deleted'', ''deleting''}"
    by (rule same) (use effective_not_deleted [OF that] r in \<open>auto simp: runtime_row_def\<close>)
  have connect: "CreateSession c p sid tok dev' rid d \<notin> {Inl ErrRuntimeNotFound, Inl ErrRuntimeNotReady}" if o: "rs_CanConnect v"
  proof -
    have ready: "runtimeReadyForSession ?r" by (rule offers(1) [OF o])
    have "find (\<lambda>r. r_id r = rid \<and> active_device (r_account_id r) dev' d \<and> not_deleting r) (runtimes d) = Some ?r"
      by (rule same) (use ready r assms(4) in \<open>auto simp: runtimeReadyForSession_def not_deleting_def\<close>)
    from session_refusals [OF _ this ready] show ?thesis by blast
  qed
  have start: "startRuntime c p a rid h fresh d \<notin> {Inl ErrRuntimeNotFound, Inl ErrRuntimeCleanupPending}" if "rs_CanStart v"
    using start_refusals [OF _ own] offers(2) [OF that] by blast
  have stop: "\<exists>r d'. StopRuntime c a rid d = Inr (r, d')" if "rs_CanStop v"
    using own [OF offers(3) [OF that]] by (simp add: StopRuntime_def Let_def)
  have wipe: "\<exists>r d'. WipeRuntime c a rid d = Inr (r, d')" if "rs_CanWipe v"
    using own [OF offers(4) [OF that]] by (simp add: WipeRuntime_def wipeRuntime_def cleanup_target_def Let_def)
  have "find (\<lambda>r. r_account_id r = a \<and> r_id r = rid \<and> r_deleted_at r = None \<and> cleanup_target [] r) (runtimes d) = Some ?r"
    using row by (simp add: cleanup_target_def)
  then have "\<exists>r d'. DeleteRuntime c a rid d = Inr (r, d')" by (simp add: DeleteRuntime_def deleteRuntime_def Let_def)
  with connect start stop wipe show ?thesis by blast
qed

theorem GetRuntimeState_honoured_witness:
  "\<exists>v. GetRuntimeState sample_ctx ''a1'' ''d1'' ''r1'' sample_live = Inr v \<and> rs_CanConnect v
     \<and> CreateSession sample_ctx sample_pricing ''s2'' ''tok'' ''d1'' ''r1'' sample_live \<notin> {Inl ErrRuntimeNotFound, Inl ErrRuntimeNotReady}"
proof -
  have "map_sum id rs_CanConnect (GetRuntimeState sample_ctx ''a1'' ''d1'' ''r1'' sample_live) = Inr True" by code_simp
  then obtain v where v: "GetRuntimeState sample_ctx ''a1'' ''d1'' ''r1'' sample_live = Inr v" "rs_CanConnect v"
    by (auto dest: sample_run)
  have t: "TrimSpace ''a1'' = ''a1''" "TrimSpace ''r1'' = ''r1''" by code_simp+
  have "active_device ''a1'' ''d1'' sample_live" "distinct (map r_id (runtimes sample_live))"
    by (simp_all add: active_device_def sample_live_def sample_db_def sample_device_def)
  from GetRuntimeState_honoured [OF v(1) t this] v show ?thesis by blast
qed

end
