(* ===== verification/Replay.thy ===== *)
theory Replay
  imports Sessions
begin

text \<open>
  Runtime capabilities and the replay guards (\<open>internal/store/store.go\<close>). A request that is signed by a
  device, a node or a capability carries a nonce, and the store remembers every nonce it has seen until
  the request it came with would be too old anyway. The three guards have the same contract, the locale
  \<open>replay_guard\<close>.
\<close>

section \<open>Remembering nonces\<close>

text \<open>The insert with \<open>ON CONFLICT DO NOTHING\<close>, after expired rows were deleted.\<close>

definition fresh_nonces :: "ctx \<Rightarrow> 'k nonce list \<Rightarrow> 'k nonce list" where
  "fresh_nonces c xs = delete_where (\<lambda>x. x_expires_at x < db_now c) xs"

definition RememberDeviceRequestNonce :: "ctx \<Rightarrow> string \<Rightarrow> string \<Rightarrow> string \<Rightarrow> time \<Rightarrow> unit tx" where
  "RememberDeviceRequestNonce c accountID0 deviceID0 nonce0 expiresAt d =
     (let accountID = TrimSpace accountID0; deviceID = TrimSpace deviceID0; nonce = TrimSpace nonce0;
          kept = fresh_nonces c (device_request_nonces d)
      in if accountID = [] \<or> deviceID = [] \<or> nonce = [] then Inl ErrDeviceRequestReplay
         else if \<exists>x \<in> set kept. x_key x = (accountID, deviceID, nonce) then Inl ErrDeviceRequestReplay
         else if \<not> (\<exists>a \<in> set (accounts d). a_id a = accountID) then Inl (ErrConstraint ''device_request_nonces_account_id_fkey'')
         else if \<not> (\<exists>v \<in> set (devices d). dv_id v = deviceID) then Inl (ErrConstraint ''device_request_nonces_device_id_fkey'')
         else Inr ((), d\<lparr>device_request_nonces := kept @ [\<lparr>x_key = (accountID, deviceID, nonce), x_expires_at = expiresAt\<rparr>]\<rparr>))"

definition RememberNodeRequestNonce :: "ctx \<Rightarrow> string \<Rightarrow> string \<Rightarrow> time \<Rightarrow> unit tx" where
  "RememberNodeRequestNonce c nodeID0 nonce0 expiresAt d =
     (let nodeID = TrimSpace nodeID0; nonce = TrimSpace nonce0; kept = fresh_nonces c (node_request_nonces d)
      in if nodeID = [] \<or> nonce = [] then Inl ErrNodeRequestReplay
         else if \<exists>x \<in> set kept. x_key x = (nodeID, nonce) then Inl ErrNodeRequestReplay
         else Inr ((), d\<lparr>node_request_nonces := kept @ [\<lparr>x_key = (nodeID, nonce), x_expires_at = expiresAt\<rparr>]\<rparr>))"

definition RememberRuntimeCapabilityNonce :: "ctx \<Rightarrow> string \<Rightarrow> string \<Rightarrow> time \<Rightarrow> unit tx" where
  "RememberRuntimeCapabilityNonce c capabilityID0 nonce0 expiresAt d =
     (let capabilityID = TrimSpace capabilityID0; nonce = TrimSpace nonce0;
          kept = fresh_nonces c (runtime_capability_nonces d)
      in if capabilityID = [] \<or> nonce = [] then Inl ErrRuntimeCapabilityReplay
         else if \<exists>x \<in> set kept. x_key x = (capabilityID, nonce) then Inl ErrRuntimeCapabilityReplay
         else if \<not> (\<exists>k \<in> set (runtime_capabilities d). c_id k = capabilityID)
         then Inl (ErrConstraint ''runtime_capability_nonces_capability_id_fkey'')
         else Inr ((), d\<lparr>runtime_capability_nonces := kept @ [\<lparr>x_key = (capabilityID, nonce), x_expires_at = expiresAt\<rparr>]\<rparr>))"

section \<open>Runtime capabilities\<close>

text \<open>The columns \<open>scopes\<close> and \<open>created_at\<close>, which are only listed to clients, are left out.\<close>

definition runtimeCapabilityTTL :: duration where
  "runtimeCapabilityTTL = 24 * hour"

definition UpsertRuntimeCapability :: "ctx \<Rightarrow> string \<Rightarrow> string \<Rightarrow> string \<Rightarrow> string \<Rightarrow> runtime_capability tx" where
  "UpsertRuntimeCapability c accountID0 runtimeID0 capabilityID0 publicKey0 d =
     (let accountID = TrimSpace accountID0; runtimeID = TrimSpace runtimeID0; capabilityID = TrimSpace capabilityID0;
          publicKey = TrimSpace publicKey0; expiresAt = db_now c + postgresInterval runtimeCapabilityTTL
      in if accountID = [] \<or> runtimeID = [] \<or> capabilityID = [] \<or> publicKey = [] then Inl ErrRuntimeCapability
         else ebind (of_row ErrRuntimeNotFound (find (runtime_row accountID runtimeID) (runtimes d))) (\<lambda>r.
           case find (\<lambda>k. c_id k = capabilityID) (runtime_capabilities d) of
             None \<Rightarrow>
               let k = \<lparr>c_id = capabilityID, c_account_id = r_account_id r, c_runtime_id = r_id r, c_public_key = publicKey,
                         c_updated_at = db_now c, c_expires_at = expiresAt, c_revoked_at = None, c_last_used_at = None\<rparr>
               in Inr (k, d\<lparr>runtime_capabilities := runtime_capabilities d @ [k]\<rparr>)
           | Some k0 \<Rightarrow>
               let f = (\<lambda>k. k\<lparr>c_account_id := r_account_id r, c_runtime_id := r_id r, c_public_key := publicKey,
                         c_expires_at := expiresAt, c_revoked_at := None, c_updated_at := db_now c\<rparr>)
               in Inr (f k0, d\<lparr>runtime_capabilities := update_where (\<lambda>k. c_id k = capabilityID) f (runtime_capabilities d)\<rparr>)))"

definition RuntimeCapabilityPublicKey :: "ctx \<Rightarrow> string \<Rightarrow> string \<Rightarrow> db \<Rightarrow> (string \<times> string) res" where
  "RuntimeCapabilityPublicKey c runtimeID0 capabilityID0 d =
     (let runtimeID = TrimSpace runtimeID0; capabilityID = TrimSpace capabilityID0 in
      if runtimeID = [] \<or> capabilityID = [] then Inl ErrRuntimeCapability
      else ebind (of_row ErrRuntimeCapability (find (\<lambda>k. c_id k = capabilityID \<and> c_runtime_id k = runtimeID \<and> valid_capability c k
             \<and> (\<exists>r \<in> set (runtimes d). r_id r = c_runtime_id k \<and> r_account_id r = c_account_id k \<and> not_deleting r))
             (runtime_capabilities d))) (\<lambda>k. Inr (c_account_id k, c_public_key k)))"

definition TouchRuntimeCapability :: "ctx \<Rightarrow> string \<Rightarrow> unit tx" where
  "TouchRuntimeCapability c capabilityID0 d =
     (let capabilityID = TrimSpace capabilityID0 in
      if capabilityID = [] then Inl ErrRuntimeCapability
      else Inr ((), d\<lparr>runtime_capabilities := update_where (\<lambda>k. c_id k = capabilityID)
             (\<lambda>k. k\<lparr>c_last_used_at := Some (db_now c), c_updated_at := db_now c\<rparr>) (runtime_capabilities d)\<rparr>))"

section \<open>The contract of a replay guard\<close>

text \<open>
  A guard has a table of remembered keys. A key as it comes with a request has a stored form, or none when it
  is blank. When the guard accepts, the key was not remembered, and it is remembered from then on;
  either way a remembered key stays while it has not expired.
\<close>

definition remembered :: "'k \<Rightarrow> time \<Rightarrow> 'k nonce list \<Rightarrow> bool" where
  "remembered k t xs \<longleftrightarrow> (\<exists>x \<in> set xs. x_key x = k \<and> x_expires_at x \<ge> t)"

locale replay_guard =
  fixes table :: "db \<Rightarrow> 'k nonce list"
    and stored :: "'k \<Rightarrow> 'k"
    and remember :: "ctx \<Rightarrow> 'k \<Rightarrow> time \<Rightarrow> unit tx"
  assumes accepted: "remember c k t d = Inr (u, d') \<Longrightarrow>
      \<not> remembered (stored k) (db_now c) (table d) \<and> table d' = fresh_nonces c (table d) @ [\<lparr>x_key = stored k, x_expires_at = t\<rparr>]"
begin

lemma keeps_remembered:
  assumes "remember c k t d = Inr (u, d')" and "remembered i e (table d)" and "db_now c \<le> e"
  shows "remembered i e (table d')"
  using accepted [OF assms(1)] assms(2,3) unfolding remembered_def fresh_nonces_def by fastforce

lemma now_remembered: "remember c k t d = Inr (u, d') \<Longrightarrow> remembered (stored k) t (table d')"
  using accepted by (auto simp: remembered_def)

text \<open>A sequence of requests: a refused one leaves the table as it is.\<close>

lemma run_remembered:
  assumes "\<forall>(c, k, t) \<in> set reqs. db_now c \<le> e" and "remembered i e (table d)"
  shows "remembered i e (table (fold (\<lambda>(c, k, t) d. case remember c k t d of Inr (_, d') \<Rightarrow> d' | Inl _ \<Rightarrow> d) reqs d))"
  using assms
proof (induction reqs arbitrary: d)
  case (Cons req reqs)
  obtain c k t where req: "req = (c, k, t)" by (cases req)
  show ?case
    using Cons keeps_remembered [of c k t d] by (cases "remember c k t d") (auto simp: req)
qed simp

lemma accepted_once:
  assumes "remember c k t d = Inr (u, d')" and "stored k' = stored k" and "db_now c' \<le> t"
    and "\<forall>(c, k, t') \<in> set reqs. db_now c \<le> t"
  shows "\<nexists>x. remember c' k' t' (fold (\<lambda>(c, k, t) d. case remember c k t d of Inr (_, d') \<Rightarrow> d' | Inl _ \<Rightarrow> d) reqs d') = Inr x"
proof
  assume "\<exists>x. remember c' k' t' (fold (\<lambda>(c, k, t) d. case remember c k t d of Inr (_, d') \<Rightarrow> d' | Inl _ \<Rightarrow> d) reqs d') = Inr x"
  then obtain u' d'' where "remember c' k' t' (fold (\<lambda>(c, k, t) d. case remember c k t d of Inr (_, d') \<Rightarrow> d' | Inl _ \<Rightarrow> d) reqs d') = Inr (u', d'')"
    by auto
  from accepted [OF this] run_remembered [OF assms(4) now_remembered [OF assms(1)]] assms(2,3) show False
    unfolding remembered_def by fastforce
qed

end

interpretation device_guard: replay_guard device_request_nonces "\<lambda>(a, v, n). (TrimSpace a, TrimSpace v, TrimSpace n)"
    "\<lambda>c (a, v, n) t. RememberDeviceRequestNonce c a v n t"
  by unfold_locales
    (auto simp: RememberDeviceRequestNonce_def Let_def remembered_def fresh_nonces_def not_less split: if_splits prod.splits)

interpretation node_guard: replay_guard node_request_nonces "\<lambda>(i, n). (TrimSpace i, TrimSpace n)"
    "\<lambda>c (i, n) t. RememberNodeRequestNonce c i n t"
  by unfold_locales
    (auto simp: RememberNodeRequestNonce_def Let_def remembered_def fresh_nonces_def not_less split: if_splits prod.splits)

interpretation capability_guard: replay_guard runtime_capability_nonces "\<lambda>(i, n). (TrimSpace i, TrimSpace n)"
    "\<lambda>c (i, n) t. RememberRuntimeCapabilityNonce c i n t"
  by unfold_locales
    (auto simp: RememberRuntimeCapabilityNonce_def Let_def remembered_def fresh_nonces_def not_less split: if_splits prod.splits)

end
