(* ===== verification/Budget.thy ===== *)
theory Budget
  imports Prelude "HOL-Library.Multiset"
begin

text \<open>
  The bytes held for requests in flight (\<open>internal/httpapi/request_budget.go\<close>, \<open>import_spool.go\<close> and
  the body limit of \<open>api.go\<close>). A budget is refined to the multiset of the reservations that are
  outstanding.
\<close>

section \<open>The budget\<close>

text \<open>\<open>int64\<close> arithmetic wraps.\<close>

definition int64 :: "int \<Rightarrow> int" where
  "int64 x = (x + 9223372036854775808) mod 18446744073709551616 - 9223372036854775808"

record byteBudget =
  bb_total :: int
  bb_perAccount :: int
  bb_used :: int
  bb_byAccount :: "string \<Rightarrow> int option"

text \<open>
  The function that \<open>reserve\<close> returns gives the bytes back the first time it is called. The functions
  returned so far are a list, each with its \<open>sync.Once\<close>; a function is its index there.
\<close>

record reservation =
  rv_account :: string
  rv_bytes :: int
  rv_done :: bool

type_synonym budget_state = "byteBudget \<times> reservation list"

definition newByteBudget :: "int \<Rightarrow> int \<Rightarrow> byteBudget" where
  "newByteBudget cap perAccount =
     \<lparr>bb_total = cap, bb_perAccount = perAccount, bb_used = 0, bb_byAccount = (\<lambda>_. None)\<rparr>"

text \<open>Reading a key that is not in the map gives zero.\<close>

definition byAccount :: "byteBudget \<Rightarrow> string \<Rightarrow> int" where
  "byAccount b a = (case bb_byAccount b a of Some n \<Rightarrow> n | None \<Rightarrow> 0)"

definition reserve :: "string \<Rightarrow> int \<Rightarrow> budget_state \<Rightarrow> (nat \<times> budget_state) option" where
  "reserve accountID n = (\<lambda>(b, rs).
     if int64 (bb_used b + n) > bb_total b \<or> int64 (byAccount b accountID + n) > bb_perAccount b then None
     else Some (length rs,
       (b\<lparr>bb_used := int64 (bb_used b + n),
          bb_byAccount := (bb_byAccount b)(accountID \<mapsto> int64 (byAccount b accountID + n))\<rparr>,
        rs @ [\<lparr>rv_account = accountID, rv_bytes = n, rv_done = False\<rparr>])))"

definition give_back :: "string \<Rightarrow> int \<Rightarrow> byteBudget \<Rightarrow> byteBudget" where
  "give_back accountID n b =
     (let left = int64 (byAccount b accountID - n)
      in b\<lparr>bb_used := int64 (bb_used b - n),
           bb_byAccount := (bb_byAccount b)(accountID := (if left \<le> 0 then None else Some left))\<rparr>)"

definition release :: "nat \<Rightarrow> budget_state \<Rightarrow> budget_state" where
  "release i = (\<lambda>(b, rs).
     if i < length rs \<and> \<not> rv_done (rs ! i)
     then (give_back (rv_account (rs ! i)) (rv_bytes (rs ! i)) b, rs[i := (rs ! i)\<lparr>rv_done := True\<rparr>])
     else (b, rs))"

section \<open>What the budget promises\<close>

definition held :: "budget_state \<Rightarrow> (string \<times> int) multiset" where
  "held st = mset (map (\<lambda>r. (rv_account r, rv_bytes r)) (filter (\<lambda>r. \<not> rv_done r) (snd st)))"

definition held_bytes :: "(string \<times> int) multiset \<Rightarrow> int" where
  "held_bytes M = sum_mset (image_mset snd M)"

definition account_bytes :: "string \<Rightarrow> (string \<times> int) multiset \<Rightarrow> int" where
  "account_bytes a M = held_bytes (filter_mset (\<lambda>x. fst x = a) M)"

definition spec_reserve :: "int \<Rightarrow> int \<Rightarrow> string \<Rightarrow> int \<Rightarrow> (string \<times> int) multiset \<Rightarrow> (string \<times> int) multiset option" where
  "spec_reserve cap perAccount a n M =
     (if held_bytes M + n \<le> cap \<and> account_bytes a M + n \<le> perAccount then Some (add_mset (a, n) M) else None)"

text \<open>The largest budget and request for which no sum wraps.\<close>

definition budget_bound :: int where
  "budget_bound = 4611686018427387903"

inductive budget_reachable :: "int \<Rightarrow> int \<Rightarrow> budget_state \<Rightarrow> bool" for cap perAccount where
  start: "budget_reachable cap perAccount (newByteBudget cap perAccount, [])"
| reserving: "\<lbrakk>budget_reachable cap perAccount st; 0 \<le> n; n \<le> budget_bound; reserve a n st = Some (i, st')\<rbrakk>
    \<Longrightarrow> budget_reachable cap perAccount st'"
| releasing: "budget_reachable cap perAccount st \<Longrightarrow> budget_reachable cap perAccount (release i st)"

definition budget_inv :: "int \<Rightarrow> int \<Rightarrow> budget_state \<Rightarrow> bool" where
  "budget_inv cap perAccount st \<longleftrightarrow>
     bb_total (fst st) = cap \<and> bb_perAccount (fst st) = perAccount
     \<and> bb_used (fst st) = held_bytes (held st) \<and> held_bytes (held st) \<le> cap
     \<and> (\<forall>a. byAccount (fst st) a = account_bytes a (held st) \<and> account_bytes a (held st) \<le> perAccount)
     \<and> (\<forall>x \<in># held st. 0 \<le> snd x)
     \<and> (\<forall>a. bb_byAccount (fst st) a \<noteq> None \<longrightarrow> (\<exists>n. (a, n) \<in># held st))"

lemma int64_id: "0 \<le> x + 9223372036854775808 \<Longrightarrow> x < 9223372036854775808 \<Longrightarrow> int64 x = x"
  by (simp add: int64_def)

lemma held_bytes_simps [simp]:
  "held_bytes {#} = 0" "held_bytes (add_mset x M) = snd x + held_bytes M"
  "account_bytes a {#} = 0" "account_bytes a (add_mset x M) = (if fst x = a then snd x else 0) + account_bytes a M"
  by (simp_all add: held_bytes_def account_bytes_def)

lemma account_le_held: "\<forall>x \<in># M. 0 \<le> snd x \<Longrightarrow> 0 \<le> account_bytes a M \<and> account_bytes a M \<le> held_bytes M"
  by (induction M) auto

lemma held_append: "held (b, rs @ [r]) = (if rv_done r then held (b, rs) else add_mset (rv_account r, rv_bytes r) (held (b, rs)))"
  by (simp add: held_def)

lemma held_release:
  assumes "i < length rs" and "\<not> rv_done (rs ! i)"
  shows "held (b, rs) = add_mset (rv_account (rs ! i), rv_bytes (rs ! i)) (held (b', rs[i := (rs ! i)\<lparr>rv_done := True\<rparr>]))"
  using assms by (subst (1) id_take_nth_drop [OF assms(1)]) (simp add: held_def upd_conv_take_nth_drop)

lemma inv_start: "0 \<le> cap \<Longrightarrow> 0 \<le> perAccount \<Longrightarrow> budget_inv cap perAccount (newByteBudget cap perAccount, [])"
  by (simp add: budget_inv_def newByteBudget_def held_def byAccount_def)

lemma no_wrap:
  assumes "budget_inv cap perAccount st" and "cap \<le> budget_bound" and "0 \<le> n" and "n \<le> budget_bound"
  shows "int64 (bb_used (fst st) + n) = held_bytes (held st) + n"
    and "int64 (byAccount (fst st) a + n) = account_bytes a (held st) + n"
proof -
  have "0 \<le> account_bytes a (held st) \<and> account_bytes a (held st) \<le> held_bytes (held st)"
    by (rule account_le_held) (use assms(1) in \<open>simp add: budget_inv_def\<close>)
  then show "int64 (bb_used (fst st) + n) = held_bytes (held st) + n"
    and "int64 (byAccount (fst st) a + n) = account_bytes a (held st) + n"
    using assms by (auto simp: budget_inv_def budget_bound_def int64_id)
qed

lemma reserve_spec:
  assumes "budget_inv cap perAccount st" and "cap \<le> budget_bound" and "0 \<le> n" and "n \<le> budget_bound"
  shows "map_option (held \<circ> snd) (reserve a n st) = spec_reserve cap perAccount a n (held st)"
proof (cases st)
  case (Pair b rs)
  then show ?thesis using no_wrap [OF assms] assms(1)
    by (auto simp: reserve_def spec_reserve_def budget_inv_def held_append) (simp_all add: held_def)
qed

lemma inv_reserve:
  assumes "budget_inv cap perAccount st" and "cap \<le> budget_bound" and "0 \<le> n" and "n \<le> budget_bound"
    and "reserve a n st = Some (i, st')"
  shows "budget_inv cap perAccount st'"
proof (cases st)
  case (Pair b rs)
  note N = no_wrap [OF assms(1-4), unfolded Pair, simplified]
  have st': "st' = (b\<lparr>bb_used := held_bytes (held st) + n, bb_byAccount := (bb_byAccount b)(a \<mapsto> account_bytes a (held st) + n)\<rparr>,
      rs @ [\<lparr>rv_account = a, rv_bytes = n, rv_done = False\<rparr>])"
    and fit: "held_bytes (held st) + n \<le> cap" "account_bytes a (held st) + n \<le> perAccount"
    using assms(1,5) N by (auto simp: reserve_def Pair budget_inv_def split: if_splits)
  have H: "held st' = add_mset (a, n) (held st)" by (simp add: st' held_append) (simp add: held_def Pair)
  show ?thesis using assms(1,3) fit unfolding budget_inv_def H by (auto simp: st' byAccount_def Pair)
qed

lemma account_bytes_pos: "0 < account_bytes a M \<Longrightarrow> \<exists>k. (a, k) \<in># M"
proof (induction M)
  case (add x M)
  then show ?case by (cases x) (auto split: if_splits)
qed simp

lemma inv_release:
  assumes "budget_inv cap perAccount st" and "cap \<le> budget_bound"
  shows "budget_inv cap perAccount (release i st)"
proof (cases st)
  case (Pair b rs)
  show ?thesis
  proof (cases "i < length rs \<and> \<not> rv_done (rs ! i)")
    case True
    let ?a = "rv_account (rs ! i)" and ?n = "rv_bytes (rs ! i)"
    let ?st = "(give_back ?a ?n b, rs[i := (rs ! i)\<lparr>rv_done := True\<rparr>])"
    define M where "M = held ?st"
    have st': "release i st = ?st" using True by (simp add: release_def Pair)
    have H: "held st = add_mset (?a, ?n) M" unfolding Pair M_def by (rule held_release) (use True in auto)
    note I = assms(1) [unfolded budget_inv_def H, unfolded Pair fst_conv]
    have pos: "\<forall>x \<in># M. 0 \<le> snd x" and n: "0 \<le> ?n" using I by auto
    note le = account_le_held [OF pos]
    have used: "bb_used b = ?n + held_bytes M" "?n + held_bytes M \<le> cap" using I by auto
    have all: "byAccount b q = account_bytes q (add_mset (?a, ?n) M) \<and> account_bytes q (add_mset (?a, ?n) M) \<le> perAccount" for q
      using I by blast
    have own: "byAccount b q = (if ?a = q then ?n else 0) + account_bytes q M"
        "(if ?a = q then ?n else 0) + account_bytes q M \<le> perAccount" for q
      using all [of q] by (simp_all split: if_splits)
    have w: "int64 (bb_used b - ?n) = held_bytes M" "int64 (byAccount b ?a - ?n) = account_bytes ?a M"
      using used own [of ?a] assms(2) le [of ?a] n by (auto simp: budget_bound_def int64_id)
    have b: "give_back ?a ?n b = b\<lparr>bb_used := held_bytes M,
        bb_byAccount := (bb_byAccount b)(?a := (if account_bytes ?a M \<le> 0 then None else Some (account_bytes ?a M)))\<rparr>"
      unfolding give_back_def Let_def w by (rule refl)
    have acc: "byAccount (give_back ?a ?n b) q = account_bytes q M" for q
      using own(1) [of q] le [of ?a] by (cases "q = ?a") (auto simp: b byAccount_def)
    have keys: "\<exists>k. (q, k) \<in># M" if "bb_byAccount (give_back ?a ?n b) q \<noteq> None" for q
      using that I account_bytes_pos [of ?a M] by (cases "q = ?a") (auto simp: b split: if_splits)
    have lim: "account_bytes q M \<le> perAccount" for q using own(2) [of q] n by (auto split: if_splits)
    show ?thesis unfolding st' budget_inv_def M_def [symmetric] fst_conv
      using I n pos keys acc lim used by (auto simp: b)
  qed (use assms in \<open>auto simp: release_def Pair\<close>)
qed

lemma reachable_inv:
  assumes "budget_reachable cap perAccount st" and "0 \<le> cap" and "cap \<le> budget_bound" and "0 \<le> perAccount"
  shows "budget_inv cap perAccount st"
  using assms by (induction rule: budget_reachable.induct) (auto intro: inv_start inv_reserve inv_release)

section \<open>The budget refines its specification\<close>

text \<open>
  C29. The budget keeps count: however requests reserve bytes and give them back, each function called any
  number of times, a reservation succeeds exactly when the outstanding ones leave room in the total and
  in the account's share, giving back removes that reservation once, the counters are
  the sums of what is outstanding, and an account that holds nothing has no entry left.
\<close>

theorem byteBudget_refines:
  assumes "budget_reachable cap perAccount st" and "0 \<le> cap" and "cap \<le> budget_bound" and "0 \<le> perAccount"
    and "0 \<le> n" and "n \<le> budget_bound"
  shows "map_option (held \<circ> snd) (reserve a n st) = spec_reserve cap perAccount a n (held st)
    \<and> held (release i st) = held st - (if i < length (snd st) \<and> \<not> rv_done (snd st ! i)
         then {#(rv_account (snd st ! i), rv_bytes (snd st ! i))#} else {#})
    \<and> release i (release i st) = release i st
    \<and> bb_used (fst st) = held_bytes (held st) \<and> held_bytes (held st) \<le> cap
    \<and> byAccount (fst st) a = account_bytes a (held st) \<and> account_bytes a (held st) \<le> perAccount
    \<and> ((\<forall>k. (a, k) \<notin># held st) \<longrightarrow> bb_byAccount (fst st) a = None)"
proof -
  note inv = reachable_inv [OF assms(1-4)]
  have rel: "held (release i st) = held st - (if i < length (snd st) \<and> \<not> rv_done (snd st ! i)
      then {#(rv_account (snd st ! i), rv_bytes (snd st ! i))#} else {#})"
  proof (cases st)
    case (Pair b rs)
    then show ?thesis using held_release [of i rs b "give_back (rv_account (rs ! i)) (rv_bytes (rs ! i)) b"]
      by (auto simp: release_def)
  qed
  have "release i (release i st) = release i st" by (cases st) (auto simp: release_def)
  with reserve_spec [OF inv assms(3,5,6)] rel show ?thesis
    using inv unfolding budget_inv_def by blast
qed

theorem byteBudget_refines_witness:
  "map_option (held \<circ> snd) (reserve ''a'' 60 (newByteBudget 100 60, [])) = spec_reserve 100 60 ''a'' 60 {#}
   \<and> spec_reserve 100 60 ''a'' 60 {#} = Some {#(''a'', 60)#}"
  using byteBudget_refines [OF budget_reachable.start, of 100 60 60 "''a''" 0]
  by (simp add: budget_bound_def held_def spec_reserve_def)

section \<open>Bodies of signed requests\<close>

definition maxAPIRequestBodyBytes :: int where "maxAPIRequestBodyBytes = 2097152"
definition maxRuntimeFileImportBytes :: int where "maxRuntimeFileImportBytes = 33554432"
definition maxRuntimePhotoImportBytes :: int where "maxRuntimePhotoImportBytes = 16777216"
definition maxRuntimeVideoImportBytes :: int where "maxRuntimeVideoImportBytes = 33554432"
definition sealedImportOverhead :: int where "sealedImportOverhead = 512"
definition unchargedSignedBodyBytes :: int where "unchargedSignedBodyBytes = 16384"
definition signedBodyBudgetBytes :: int where "signedBodyBudgetBytes = 100663296"
definition signedBodyAccountBudgetBytes :: int where "signedBodyAccountBudgetBytes = 8388608"
definition runtimeImportAccountBudgetBytes :: int where
  "runtimeImportAccountBudgetBytes = 2 * (maxRuntimeFileImportBytes + sealedImportOverhead)"

lemmas size_defs = maxAPIRequestBodyBytes_def maxRuntimeFileImportBytes_def maxRuntimePhotoImportBytes_def
  maxRuntimeVideoImportBytes_def sealedImportOverhead_def unchargedSignedBodyBytes_def

definition HasSuffix :: "string \<Rightarrow> string \<Rightarrow> bool" where
  "HasSuffix s t \<longleftrightarrow> length t \<le> length s \<and> drop (length s - length t) s = t"

definition apiRequestBodyLimit :: "string \<Rightarrow> int" where
  "apiRequestBodyLimit path =
     (if HasSuffix path ''/files'' then maxRuntimeFileImportBytes + sealedImportOverhead
      else if HasSuffix path ''/photos'' then maxRuntimePhotoImportBytes + sealedImportOverhead
      else if HasSuffix path ''/videos'' then maxRuntimeVideoImportBytes + sealedImportOverhead
      else maxAPIRequestBodyBytes)"

text \<open>
  A request: its path, its declared length, negative when it declares none, and what reading the whole
  body gives, nothing when the read fails. An answer is a status and a code or message.
\<close>

record http_request =
  rq_Path :: string
  rq_ContentLength :: int
  rq_Body :: "string option"

type_synonym answer = "nat \<times> string"

text \<open>The body limit of \<open>withJSON\<close>: a \<open>MaxBytesReader\<close> fails once more than its limit is read.\<close>

definition withJSON :: "http_request \<Rightarrow> answer + http_request" where
  "withJSON r =
     (let limit = apiRequestBodyLimit (rq_Path r) in
      if rq_ContentLength r > limit then Inl (413, ''request_body_too_large'')
      else Inr (r\<lparr>rq_Body := (case rq_Body r of None \<Rightarrow> None | Some b \<Rightarrow> if int (length b) \<le> limit then Some b else None)\<rparr>))"

definition signedBodyCharge :: "http_request \<Rightarrow> int" where
  "signedBodyCharge r =
     (if rq_ContentLength r < 0 then apiRequestBodyLimit (rq_Path r)
      else if rq_ContentLength r \<le> unchargedSignedBodyBytes then 0
      else rq_ContentLength r)"

text \<open>
  \<open>sha\<close> is the encoded SHA-256 of a body. Besides the answer or body, the result is the function to call
  when the request ends, when bytes were reserved.
\<close>

definition readSignedBody ::
  "(string \<Rightarrow> string) \<Rightarrow> http_request \<Rightarrow> string \<Rightarrow> string \<Rightarrow> string \<Rightarrow> budget_state \<Rightarrow> (answer + string) \<times> nat option \<times> budget_state" where
  "readSignedBody sha r accountID bodyHash signer st =
     (let charge = signedBodyCharge r;
          finish = (\<lambda>rel st. case rq_Body r of
              None \<Rightarrow> (Inl (400, ''read request body''), rel, st)
            | Some body \<Rightarrow> (if sha body \<noteq> bodyHash then Inl (401, signer @ '' body hash mismatch'') else Inr body, rel, st))
      in if charge > 0
         then (case reserve accountID charge st of
                 None \<Rightarrow> (Inl (429, ''request_budget_exceeded''), None, st)
               | Some (i, st') \<Rightarrow> finish (Some i) st')
         else finish None st)"

section \<open>Imports on disk\<close>

text \<open>
  What the system does for an import: whether the file could be created, the bytes of the body, and
  whether the copy or the close reported an error.
\<close>

record import_source =
  is_created :: bool
  is_bytes :: string
  is_failed :: bool

datatype spool_error = errSpooledImportSize | errImportSpoolBusy | errCreate | errCopy | errSpooledImportHash

record spooledImport =
  sp_size :: int
  sp_bodyHash :: string
  sp_release :: nat

definition discard :: "spooledImport \<Rightarrow> budget_state \<Rightarrow> budget_state" where
  "discard s st = release (sp_release s) st"

definition receive ::
  "(string \<Rightarrow> string) \<Rightarrow> string \<Rightarrow> import_source \<Rightarrow> int \<Rightarrow> int \<Rightarrow> string \<Rightarrow> budget_state \<Rightarrow> (spool_error + spooledImport) \<times> budget_state" where
  "receive sha accountID src declaredSize maxSize bodyHash st =
     (if declaredSize > maxSize then (Inl errSpooledImportSize, st)
      else let charge = (if declaredSize < 0 then maxSize else declaredSize) in
        case reserve accountID charge st of
          None \<Rightarrow> (Inl errImportSpoolBusy, st)
        | Some (i, st1) \<Rightarrow>
            if \<not> is_created src then (Inl errCreate, release i st1)
            else let written = take (nat (maxSize + 1)) (is_bytes src);
                     spooled = \<lparr>sp_size = int (length written), sp_bodyHash = bodyHash, sp_release = i\<rparr>
                 in if is_failed src then (Inl errCopy, discard spooled st1)
                    else if sp_size spooled = 0 \<or> sp_size spooled > maxSize then (Inl errSpooledImportSize, discard spooled st1)
                    else if sha written \<noteq> bodyHash then (Inl errSpooledImportHash, discard spooled st1)
                    else (Inr spooled, st1))"

section \<open>What a body costs\<close>

lemma body_limits: "maxAPIRequestBodyBytes \<le> apiRequestBodyLimit p" "apiRequestBodyLimit p \<le> 33554944"
  by (auto simp: apiRequestBodyLimit_def size_defs)

lemma reserve_held: "reserve a n st = Some (i, st') \<Longrightarrow> held st' = add_mset (a, n) (held st) \<and> held (release i st') = held st"
proof (cases st)
  case (Pair b rs)
  assume "reserve a n st = Some (i, st')"
  then obtain b' where i: "i = length rs" and st': "st' = (b', rs @ [\<lparr>rv_account = a, rv_bytes = n, rv_done = False\<rparr>])"
    by (auto simp: reserve_def Pair split: if_splits)
  show ?thesis by (simp add: st' i release_def held_append) (simp add: held_def Pair)
qed

text \<open>
  A large body is paid for before it is read: a request that passes the body limit and whose body is
  accepted has the signed hash, and its body either is small enough to be free or is covered by a
  reservation of its account that is held until the request ends; the budget stays one that
  reservations lead to, so that all those bodies together fit in it. A request that declares its length has no
  longer body, as Go's server promises.
\<close>

theorem readSignedBody_charged:
  assumes "withJSON r = Inr r'" and "readSignedBody sha r' a h signer st = (Inr body, rel, st')"
    and "0 \<le> rq_ContentLength r \<longrightarrow> int (length body) \<le> rq_ContentLength r"
    and "budget_reachable signedBodyBudgetBytes signedBodyAccountBudgetBytes st"
  shows "sha body = h \<and> budget_reachable signedBodyBudgetBytes signedBodyAccountBudgetBytes st'
    \<and> (case rel of
         None \<Rightarrow> st' = st \<and> int (length body) \<le> unchargedSignedBodyBytes
       | Some i \<Rightarrow> (\<exists>n. held st' = add_mset (a, n) (held st) \<and> int (length body) \<le> n \<and> n \<le> apiRequestBodyLimit (rq_Path r))
           \<and> held (release i st') = held st)"
proof -
  have r': "rq_Path r' = rq_Path r" "rq_ContentLength r' = rq_ContentLength r" "rq_ContentLength r \<le> apiRequestBodyLimit (rq_Path r)"
    and small: "rq_Body r' = Some body \<Longrightarrow> int (length body) \<le> apiRequestBodyLimit (rq_Path r)"
    using assms(1) by (auto simp: withJSON_def Let_def split: if_splits option.splits)
  let ?n = "signedBodyCharge r'"
  have lim: "?n \<le> apiRequestBodyLimit (rq_Path r)" "?n \<le> budget_bound"
    using r' body_limits [of "rq_Path r"] by (auto simp: signedBodyCharge_def budget_bound_def size_defs)
  have body: "rq_Body r' = Some body" "sha body = h"
    using assms(2) by (auto simp: readSignedBody_def Let_def split: if_splits option.splits)
  show ?thesis
  proof (cases "?n > 0")
    case True
    then obtain i where i: "reserve a ?n st = Some (i, st')" "rel = Some i"
      using assms(2) by (auto simp: readSignedBody_def Let_def split: option.splits if_splits)
    have "int (length body) \<le> ?n"
      using assms(3) small [OF body(1)] r' True by (auto simp: signedBodyCharge_def split: if_splits)
    then show ?thesis
      using reserve_held [OF i(1)] i(2) lim body(2) budget_reachable.reserving [OF assms(4) _ lim(2) i(1)] True by auto
  next
    case False
    then have "st' = st" "rel = None" using assms(2) by (auto simp: readSignedBody_def Let_def split: option.splits if_splits)
    moreover have "0 \<le> rq_ContentLength r" "rq_ContentLength r \<le> unchargedSignedBodyBytes"
      using False r' body_limits(1) [of "rq_Path r"] by (auto simp: signedBodyCharge_def size_defs split: if_splits)
    ultimately show ?thesis using assms(3,4) body(2) by auto
  qed
qed

definition sample_upload :: http_request where
  "sample_upload = \<lparr>rq_Path = ''/me'', rq_ContentLength = -1, rq_Body = Some ''abc''\<rparr>"

theorem readSignedBody_charged_witness:
  "\<exists>st'. readSignedBody id sample_upload ''a'' ''abc'' ''device signature'' (newByteBudget signedBodyBudgetBytes signedBodyAccountBudgetBytes, [])
     = (Inr ''abc'', Some 0, st') \<and> budget_reachable signedBodyBudgetBytes signedBodyAccountBudgetBytes st'"
proof -
  let ?st = "(newByteBudget signedBodyBudgetBytes signedBodyAccountBudgetBytes, [])"
  have w: "withJSON sample_upload = Inr sample_upload"
    by (simp add: withJSON_def sample_upload_def apiRequestBodyLimit_def HasSuffix_def size_defs)
  obtain st' where x: "readSignedBody id sample_upload ''a'' ''abc'' ''device signature'' ?st = (Inr ''abc'', Some 0, st')"
    by (simp add: readSignedBody_def sample_upload_def signedBodyCharge_def apiRequestBodyLimit_def HasSuffix_def size_defs
        reserve_def newByteBudget_def byAccount_def int64_def signedBodyBudgetBytes_def signedBodyAccountBudgetBytes_def)
  from readSignedBody_charged [OF w x _ budget_reachable.start] x show ?thesis by (simp add: sample_upload_def)
qed

text \<open>
  An import takes room only while it is there: when one is refused, for whatever reason, the reservations are
  what they were; when one is kept, it is neither empty nor too large, it has the signed hash, it is within the
  bytes reserved for it, and discarding it gives exactly those back.
\<close>

theorem receive_accounts:
  assumes "receive sha a src declared maxSize h st = (res, st')"
    and "0 \<le> declared \<longrightarrow> int (length (is_bytes src)) \<le> declared"
  shows "case res of
      Inl e \<Rightarrow> held st' = held st
    | Inr s \<Rightarrow> 0 < sp_size s \<and> sp_size s \<le> maxSize \<and> sp_size s = int (length (is_bytes src)) \<and> sha (is_bytes src) = h
        \<and> (\<exists>n. held st' = add_mset (a, n) (held st) \<and> sp_size s \<le> n) \<and> held (discard s st') = held st"
  using assms by (auto simp: receive_def Let_def discard_def min_def split: if_splits option.splits dest!: reserve_held)

theorem receive_accounts_witness:
  "\<exists>s st'. receive id ''a'' \<lparr>is_created = True, is_bytes = ''abc'', is_failed = False\<rparr> 3 10 ''abc'' (newByteBudget 100 60, []) = (Inr s, st')
     \<and> held st' = {#(''a'', 3)#} \<and> held (discard s st') = {#}"
proof -
  let ?st = "(newByteBudget 100 60, [])" and ?src = "\<lparr>is_created = True, is_bytes = ''abc'', is_failed = False\<rparr>"
  obtain s st' where x: "receive id ''a'' ?src 3 10 ''abc'' ?st = (Inr s, st')" and h: "held st' = {#(''a'', 3)#}"
    by (simp add: receive_def reserve_def newByteBudget_def byAccount_def int64_def held_def)
  from receive_accounts [OF x] h x show ?thesis by (simp add: held_def)
qed

end
