(* ===== verification/Auth.thy ===== *)
theory Auth
  imports Replay Budget
begin

text \<open>
  Signed requests (\<open>internal/httpapi/api.go\<close>, \<open>internal/httpapi/provisioner.go\<close>,
  \<open>internal/nodeauth/nodeauth.go\<close>, \<open>internal/callbackauth/callbackauth.go\<close>): what is signed, and how requests of
  devices, runtime capabilities, nodes and internal services are checked. Keys, signatures and hashes are
  parameters.
\<close>

section \<open>What is signed\<close>

definition upper_char :: "char \<Rightarrow> char" where
  "upper_char c = (let n = (of_char c :: nat) in if 97 \<le> n \<and> n \<le> 122 then char_of (n - 32) else c)"

definition ToUpper :: "string \<Rightarrow> string" where
  "ToUpper s = map upper_char s"

definition newline :: char where
  "newline = CHR 0x0A"

fun join_lines :: "string list \<Rightarrow> string" where
  "join_lines [] = []"
| "join_lines [x] = x"
| "join_lines (x # y # xs) = x @ newline # join_lines (y # xs)"

definition deviceSignatureContext :: string where "deviceSignatureContext = ''VIRTROID-DEVICE-SIGNATURE-V1''"
definition relaySignatureContext :: string where "relaySignatureContext = ''VIRTROID-RELAY-SIGNATURE-V1''"
definition capabilitySignatureContext :: string where "capabilitySignatureContext = ''VIRTROID-CAPABILITY-SIGNATURE-V1''"
definition nodeSignatureContext :: string where "nodeSignatureContext = ''VIRTROID-NODE-SIGNATURE-V1''"
definition callbackSignatureContext :: string where "callbackSignatureContext = ''VIRTROID-CONTROL-CALLBACK-SIGNATURE-V1''"

lemmas context_defs = deviceSignatureContext_def relaySignatureContext_def capabilitySignatureContext_def
  nodeSignatureContext_def callbackSignatureContext_def

definition signedRequestCanonicalFor ::
  "string \<Rightarrow> string \<Rightarrow> string \<Rightarrow> string \<Rightarrow> string \<Rightarrow> string \<Rightarrow> string \<Rightarrow> string \<Rightarrow> string" where
  "signedRequestCanonicalFor signatureContext method requestURI accountID deviceID timestamp nonce bodyHash =
     join_lines [signatureContext, ToUpper method, requestURI, accountID, deviceID, timestamp, nonce, bodyHash]"

definition capabilityRequestCanonical :: "string \<Rightarrow> string \<Rightarrow> string \<Rightarrow> string \<Rightarrow> string \<Rightarrow> string \<Rightarrow> string" where
  "capabilityRequestCanonical method requestURI capabilityID timestamp nonce bodyHash =
     join_lines [capabilitySignatureContext, ToUpper method, requestURI, capabilityID, timestamp, nonce, bodyHash]"

definition nodeCanonical :: "string \<Rightarrow> string \<Rightarrow> string \<Rightarrow> string \<Rightarrow> string \<Rightarrow> string \<Rightarrow> string" where
  "nodeCanonical method requestURI nodeID timestamp nonce bodyHash =
     join_lines [nodeSignatureContext, ToUpper method, requestURI, TrimSpace nodeID, TrimSpace timestamp, TrimSpace nonce,
       TrimSpace bodyHash]"

definition callbackCanonical :: "string \<Rightarrow> string \<Rightarrow> string \<Rightarrow> string \<Rightarrow> string \<Rightarrow> string" where
  "callbackCanonical method requestURI timestamp nonce bodyHash =
     join_lines [callbackSignatureContext, ToUpper method, requestURI, TrimSpace timestamp, TrimSpace nonce, TrimSpace bodyHash]"

lemmas canonical_defs = signedRequestCanonicalFor_def capabilityRequestCanonical_def nodeCanonical_def callbackCanonical_def

section \<open>Requests and their keys\<close>

text \<open>
  A request with its method, URI and headers; a header that is absent reads as the empty string. The
  cryptography: what a stored device key parses to, whether a node key parses, whether a
  signature decodes, whether a key verifies a signature of a text, and the encoded SHA-256 of a body.
\<close>

record signed_request =
  sr_http :: http_request
  sr_Method :: string
  sr_RequestURI :: string
  sr_Header :: "string \<Rightarrow> string"

datatype key_kind = KeyInvalid | KeyUnsupported | KeyECDSA

record crypto =
  cr_deviceKey :: "string \<Rightarrow> key_kind"
  cr_nodeKey :: "string \<Rightarrow> bool"
  cr_decodes :: "string \<Rightarrow> bool"
  cr_verifies :: "string \<Rightarrow> string \<Rightarrow> string \<Rightarrow> bool"
  cr_bodyHash :: "string \<Rightarrow> string"

text \<open>\<open>strconv.ParseInt(s, 10, 64)\<close>.\<close>

definition parseInt64 :: "string \<Rightarrow> int option" where
  "parseInt64 s =
     (let neg = (s \<noteq> [] \<and> hd s = CHR ''-''); ds = (if s \<noteq> [] \<and> hd s \<in> set ''+-'' then tl s else s);
          v = (if neg then - digits_value ds else digits_value ds)
      in if ds = [] \<or> \<not> list_all is_digit ds \<or> v < - 9223372036854775808 \<or> v > 9223372036854775807 then None else Some v)"

text \<open>The timestamp is in seconds; it may be five minutes away from the server's clock either way.\<close>

definition in_window :: "ctx \<Rightarrow> int \<Rightarrow> bool" where
  "in_window c timestamp \<longleftrightarrow> \<not> (go_now c - timestamp * second > 5 * minute \<or> go_now c - timestamp * second < - (5 * minute))"

definition nonce_expiry :: "int \<Rightarrow> time" where
  "nonce_expiry timestamp = timestamp * second + 5 * minute"

definition DevicePublicKey :: "string \<Rightarrow> string \<Rightarrow> db \<Rightarrow> string res" where
  "DevicePublicKey accountID deviceID d =
     ebind (of_row ErrDeviceNotFound (find (\<lambda>v. dv_account_id v = accountID \<and> dv_id v = deviceID \<and> dv_revoked_at v = None
       \<and> (\<exists>a \<in> set (accounts d). a_id a = dv_account_id v \<and> a_deleted_at a = None)) (devices d)))
     (\<lambda>v. Inr (TrimSpace (dv_public_key v)))"

section \<open>Requests of devices\<close>

text \<open>
  A request is checked on the database as it is when it arrives, \<open>c1\<close> and \<open>d1\<close>, and its nonce is spent once
  its body has been read, on \<open>c2\<close> and \<open>d2\<close>. \<open>lookup\<close> finds the key: the device's, or the one it
  registered for its notification relay.
\<close>

definition checkSignedRequest ::
  "crypto \<Rightarrow> (string \<Rightarrow> string \<Rightarrow> db \<Rightarrow> string res) \<Rightarrow> string \<Rightarrow> ctx \<Rightarrow> db \<Rightarrow> signed_request \<Rightarrow> answer + string \<times> string \<times> int \<times> string \<times> string" where
  "checkSignedRequest cr lookup signatureContext c d r =
     (let h = (\<lambda>n. TrimSpace (sr_Header r n));
          accountID = h ''X-Virtroid-Account-ID''; deviceID = h ''X-Virtroid-Device-ID''; timestampRaw = h ''X-Virtroid-Timestamp'';
          nonce = h ''X-Virtroid-Nonce''; bodyHash = h ''X-Virtroid-Body-SHA256''; signatureRaw = h ''X-Virtroid-Signature''
      in if accountID = [] \<or> deviceID = [] \<or> timestampRaw = [] \<or> nonce = [] \<or> bodyHash = [] \<or> signatureRaw = []
         then Inl (401, ''signed device request headers are required'')
         else case parseInt64 timestampRaw of None \<Rightarrow> Inl (401, ''invalid device signature timestamp'')
         | Some timestamp \<Rightarrow>
           if \<not> in_window c timestamp then Inl (401, ''device signature timestamp is outside the allowed window'')
           else case lookup accountID deviceID d of
             Inl e \<Rightarrow> if e = ErrDeviceNotFound then Inl (404, ''device not found'') else Inl (500, ''device_key_lookup_failed'')
           | Inr key \<Rightarrow>
             if cr_deviceKey cr key = KeyInvalid then Inl (401, ''stored device public key is invalid'')
             else if cr_deviceKey cr key = KeyUnsupported then Inl (401, ''stored device public key type is unsupported'')
             else if \<not> cr_decodes cr signatureRaw then Inl (401, ''device signature is invalid'')
             else if \<not> cr_verifies cr key (signedRequestCanonicalFor signatureContext (sr_Method r) (sr_RequestURI r)
                        accountID deviceID timestampRaw nonce bodyHash) signatureRaw
             then Inl (401, ''device signature verification failed'')
             else Inr (accountID, deviceID, timestamp, nonce, bodyHash))"

definition requireSignedRequest ::
  "crypto \<Rightarrow> (string \<Rightarrow> string \<Rightarrow> db \<Rightarrow> string res) \<Rightarrow> string \<Rightarrow> ctx \<Rightarrow> db \<Rightarrow> ctx \<Rightarrow> signed_request \<Rightarrow> budget_state \<Rightarrow> db
    \<Rightarrow> (answer + string \<times> string) \<times> nat option \<times> budget_state \<times> db" where
  "requireSignedRequest cr lookup signatureContext c1 d1 c2 r st d2 =
     (case checkSignedRequest cr lookup signatureContext c1 d1 r of
        Inl a \<Rightarrow> (Inl a, None, st, d2)
      | Inr (accountID, deviceID, timestamp, nonce, bodyHash) \<Rightarrow>
          (case readSignedBody (cr_bodyHash cr) (sr_http r) accountID bodyHash ''device signature'' st of
             (Inl a, rel, st') \<Rightarrow> (Inl a, rel, st', d2)
           | (Inr _, rel, st') \<Rightarrow>
               (case RememberDeviceRequestNonce c2 accountID deviceID nonce (nonce_expiry timestamp) d2 of
                  Inl e \<Rightarrow> (Inl (if e = ErrDeviceRequestReplay then (401, ''device request nonce has already been used'') else (500, ''device_nonce_persist_failed'')), rel, st', d2)
                | Inr (_, d') \<Rightarrow> (Inr (accountID, deviceID), rel, st', d'))))"

definition requireSignedDeviceRequest where
  "requireSignedDeviceRequest cr = requireSignedRequest cr DevicePublicKey deviceSignatureContext"

section \<open>Requests of runtime capabilities\<close>

definition verifyRuntimeCapabilitySignature ::
  "crypto \<Rightarrow> ctx \<Rightarrow> db \<Rightarrow> signed_request \<Rightarrow> string \<Rightarrow> answer + string \<times> string \<times> int \<times> string \<times> string" where
  "verifyRuntimeCapabilitySignature cr c d r runtimeID =
     (let h = (\<lambda>n. TrimSpace (sr_Header r n));
          capabilityID = h ''X-Virtroid-Capability-ID''; timestampRaw = h ''X-Virtroid-Capability-Timestamp'';
          nonce = h ''X-Virtroid-Capability-Nonce''; bodyHash = h ''X-Virtroid-Capability-Body-SHA256'';
          signatureRaw = h ''X-Virtroid-Capability-Signature''
      in if capabilityID = [] \<or> timestampRaw = [] \<or> nonce = [] \<or> bodyHash = [] \<or> signatureRaw = []
         then Inl (401, ''runtime capability signature headers are required'')
         else case parseInt64 timestampRaw of None \<Rightarrow> Inl (401, ''invalid runtime capability signature timestamp'')
         | Some timestamp \<Rightarrow>
           if \<not> in_window c timestamp then Inl (401, ''runtime capability signature timestamp is outside the allowed window'')
           else case RuntimeCapabilityPublicKey c runtimeID capabilityID d of
             Inl e \<Rightarrow> if e = ErrRuntimeCapability then Inl (401, ''runtime capability is invalid or expired'') else Inl (500, ''runtime_capability_lookup_failed'')
           | Inr (accountID, key) \<Rightarrow>
             if cr_deviceKey cr (TrimSpace key) \<noteq> KeyECDSA then Inl (401, ''stored runtime capability public key is invalid'')
             else if \<not> cr_decodes cr signatureRaw then Inl (401, ''runtime capability signature is invalid'')
             else if \<not> cr_verifies cr (TrimSpace key) (capabilityRequestCanonical (sr_Method r) (sr_RequestURI r)
                        capabilityID timestampRaw nonce bodyHash) signatureRaw
             then Inl (401, ''runtime capability signature verification failed'')
             else Inr (accountID, capabilityID, timestamp, nonce, bodyHash))"

definition finishRuntimeCapabilityRequest :: "ctx \<Rightarrow> string \<Rightarrow> string \<Rightarrow> time \<Rightarrow> db \<Rightarrow> (answer + unit) \<times> db" where
  "finishRuntimeCapabilityRequest c capabilityID nonce expires d =
     (case RememberRuntimeCapabilityNonce c capabilityID nonce expires d of
        Inl e \<Rightarrow> (Inl (if e = ErrRuntimeCapabilityReplay then (401, ''runtime capability nonce has already been used'') else (500, ''runtime_capability_nonce_failed'')), d)
      | Inr (_, d1) \<Rightarrow>
          (case TouchRuntimeCapability c capabilityID d1 of
             Inl _ \<Rightarrow> (Inl (500, ''runtime_capability_touch_failed''), d1)
           | Inr (_, d2) \<Rightarrow> (Inr (), d2)))"

definition requireRuntimeCapabilityRequest ::
  "crypto \<Rightarrow> ctx \<Rightarrow> db \<Rightarrow> ctx \<Rightarrow> signed_request \<Rightarrow> string \<Rightarrow> budget_state \<Rightarrow> db
    \<Rightarrow> (answer + string \<times> string) \<times> nat option \<times> budget_state \<times> db" where
  "requireRuntimeCapabilityRequest cr c1 d1 c2 r runtimeID st d2 =
     (case verifyRuntimeCapabilitySignature cr c1 d1 r runtimeID of
        Inl a \<Rightarrow> (Inl a, None, st, d2)
      | Inr (accountID, capabilityID, timestamp, nonce, bodyHash) \<Rightarrow>
          (case readSignedBody (cr_bodyHash cr) (sr_http r) accountID bodyHash ''runtime capability signature'' st of
             (Inl a, rel, st') \<Rightarrow> (Inl a, rel, st', d2)
           | (Inr _, rel, st') \<Rightarrow>
               (case finishRuntimeCapabilityRequest c2 capabilityID nonce (nonce_expiry timestamp) d2 of
                  (Inl a, d') \<Rightarrow> (Inl a, rel, st', d')
                | (Inr _, d') \<Rightarrow> (Inr (accountID, capabilityID), rel, st', d'))))"

section \<open>Requests of nodes and services\<close>

text \<open>\<open>nodeauth.Verify\<close>: the key parses, the signature decodes and verifies.\<close>

definition nodeVerify :: "crypto \<Rightarrow> string \<Rightarrow> string \<Rightarrow> string \<Rightarrow> string \<Rightarrow> string \<Rightarrow> string \<Rightarrow> string \<Rightarrow> string \<Rightarrow> bool" where
  "nodeVerify cr key method requestURI nodeID timestamp nonce bodyHash signature \<longleftrightarrow>
     cr_nodeKey cr key \<and> cr_decodes cr (TrimSpace signature)
     \<and> cr_verifies cr key (nodeCanonical method requestURI nodeID timestamp nonce bodyHash) (TrimSpace signature)"

text \<open>The settings that decide whether an unknown node may enroll itself.\<close>

record node_config =
  cfg_AppEnv :: string
  cfg_NodeDevelopmentEnrollmentEnabled :: bool
  cfg_NodeRegistrationSecret :: string

text \<open>The keys to try, and whether they are those of a node that enrolls itself.\<close>

definition nodeKeys ::
  "node_config \<Rightarrow> ctx \<Rightarrow> db \<Rightarrow> signed_request \<Rightarrow> bool \<Rightarrow> string \<Rightarrow> answer + string list \<times> bool" where
  "nodeKeys cfg c d r allowDevelopmentEnrollment nodeID =
     (case AuthorizedNodeKeys c nodeID d of
        Inr keys \<Rightarrow> Inr (map k_public_key keys, False)
      | Inl e \<Rightarrow>
          if e \<noteq> ErrApprovedNodeNotFound then Inl (500, ''node_key_lookup_failed'')
          else if \<not> allowDevelopmentEnrollment \<or> \<not> EqualFold (TrimSpace (cfg_AppEnv cfg)) ''development''
                  \<or> \<not> cfg_NodeDevelopmentEnrollmentEnabled cfg
          then Inl (401, ''node is not approved'')
          else if cfg_NodeRegistrationSecret cfg \<noteq> []
                  \<and> sr_Header r ''X-Virtroid-Node-Registration-Secret'' \<noteq> cfg_NodeRegistrationSecret cfg
          then Inl (401, ''invalid node registration secret'')
          else (case normalizePublicKey c (sr_Header r ''X-Virtroid-Node-Public-Key'') of
                  None \<Rightarrow> Inl (401, ''node public key is required for registration'')
                | Some (publicKey, _) \<Rightarrow> Inr ([publicKey], True)))"

text \<open>The check up to the nonce: the node, its key, whether it enrolls, the timestamp and the nonce.\<close>

definition checkNodeRequest ::
  "crypto \<Rightarrow> node_config \<Rightarrow> ctx \<Rightarrow> db \<Rightarrow> signed_request \<Rightarrow> bool \<Rightarrow> answer + string \<times> string \<times> bool \<times> int \<times> string" where
  "checkNodeRequest cr cfg c d r allowDevelopmentEnrollment =
     (let h = (\<lambda>n. TrimSpace (sr_Header r n));
          nodeID = h ''X-Virtroid-Node-ID''; timestampRaw = h ''X-Virtroid-Node-Timestamp''; nonce = h ''X-Virtroid-Node-Nonce'';
          bodyHash = h ''X-Virtroid-Node-Body-SHA256''; signatureRaw = h ''X-Virtroid-Node-Signature''
      in if nodeID = [] \<or> timestampRaw = [] \<or> nonce = [] \<or> bodyHash = [] \<or> signatureRaw = []
         then Inl (401, ''signed node request headers are required'')
         else case parseInt64 timestampRaw of None \<Rightarrow> Inl (401, ''invalid node signature timestamp'')
         | Some timestamp \<Rightarrow>
           if \<not> in_window c timestamp then Inl (401, ''node signature timestamp is outside the allowed window'')
           else ebind (nodeKeys cfg c d r allowDevelopmentEnrollment nodeID) (\<lambda>(keys, enrolling).
             let verifiedPublicKey = (case find (\<lambda>key. nodeVerify cr key (sr_Method r) (sr_RequestURI r) nodeID timestampRaw nonce
                                              bodyHash signatureRaw) keys of Some key \<Rightarrow> key | None \<Rightarrow> [])
             in if verifiedPublicKey = [] then Inl (401, ''node signature verification failed'')
                else case rq_Body (sr_http r) of None \<Rightarrow> Inl (400, ''read request body'')
                | Some body \<Rightarrow>
                    if bodyHash \<noteq> cr_bodyHash cr body then Inl (401, ''node signature body hash mismatch'')
                    else Inr (nodeID, verifiedPublicKey, enrolling, timestamp, nonce)))"

text \<open>The end of both checks: the nonce is spent.\<close>

definition spendNodeNonce :: "ctx \<Rightarrow> string \<Rightarrow> string \<Rightarrow> int \<Rightarrow> string \<Rightarrow> db \<Rightarrow> answer + db" where
  "spendNodeNonce c signer nonce timestamp code d =
     (case RememberNodeRequestNonce c signer nonce (nonce_expiry timestamp) d of
        Inl e \<Rightarrow> Inl (if e = ErrNodeRequestReplay then (401, ''node request nonce has already been used'') else (500, code))
      | Inr (_, d') \<Rightarrow> Inr d')"

text \<open>A node that enrolls itself is registered first; the database is the one either way.\<close>

definition enrollNode :: "ctx \<Rightarrow> bool \<Rightarrow> string \<Rightarrow> string \<Rightarrow> db \<Rightarrow> bool \<times> db" where
  "enrollNode c enrolling nodeID key d =
     (if \<not> enrolling then (True, d)
      else case EnrollDevelopmentNode c nodeID key d of
        Inl _ \<Rightarrow> (False, d)
      | Inr (Inl _, d') \<Rightarrow> (False, d')
      | Inr (Inr _, d') \<Rightarrow> (True, d'))"

definition requireNodeRequest ::
  "crypto \<Rightarrow> node_config \<Rightarrow> ctx \<Rightarrow> db \<Rightarrow> ctx \<Rightarrow> signed_request \<Rightarrow> bool \<Rightarrow> db \<Rightarrow> (answer + string \<times> string) \<times> db" where
  "requireNodeRequest cr cfg c1 d1 c2 r allowDevelopmentEnrollment d2 =
     (case checkNodeRequest cr cfg c1 d1 r allowDevelopmentEnrollment of
        Inl a \<Rightarrow> (Inl a, d2)
      | Inr (nodeID, key, enrolling, timestamp, nonce) \<Rightarrow>
          (let (ok, d3) = enrollNode c2 enrolling nodeID key d2 in
           if \<not> ok then (Inl (500, ''development_node_enrollment_failed''), d3)
           else case spendNodeNonce c2 nodeID nonce timestamp ''node_nonce_persist_failed'' d3 of
                  Inl a \<Rightarrow> (Inl a, d3)
                | Inr d' \<Rightarrow> (Inr (nodeID, key), d')))"

definition requireServiceRequest ::
  "crypto \<Rightarrow> ctx \<Rightarrow> ctx \<Rightarrow> signed_request \<Rightarrow> string \<Rightarrow> string \<Rightarrow> db \<Rightarrow> answer + db" where
  "requireServiceRequest cr c1 c2 r signerID publicKey d2 =
     (let h = (\<lambda>n. TrimSpace (sr_Header r n)); timestampRaw = h ''X-Virtroid-Node-Timestamp''; nonce = h ''X-Virtroid-Node-Nonce'';
          bodyHash = h ''X-Virtroid-Node-Body-SHA256''; signature = h ''X-Virtroid-Node-Signature'';
          required = (401, ''signed '' @ signerID @ '' request headers are required'')
      in if sr_Header r ''X-Virtroid-Node-ID'' \<noteq> signerID then Inl required
         else case parseInt64 timestampRaw of None \<Rightarrow> Inl required
         | Some timestamp \<Rightarrow>
           if nonce = [] \<or> bodyHash = [] \<or> signature = [] then Inl required
           else if \<not> in_window c1 timestamp then Inl (401, signerID @ '' signature timestamp is outside the allowed window'')
           else if \<not> nodeVerify cr publicKey (sr_Method r) (sr_RequestURI r) signerID timestampRaw nonce bodyHash signature
           then Inl (401, signerID @ '' signature verification failed'')
           else case rq_Body (sr_http r) of None \<Rightarrow> Inl (400, ''read request body'')
           | Some body \<Rightarrow>
               if cr_bodyHash cr body \<noteq> bodyHash then Inl (401, signerID @ '' signature body hash mismatch'')
               else spendNodeNonce c2 signerID nonce timestamp ''service_nonce_persist_failed'' d2)"

section \<open>Signed texts cannot be mistaken for each other\<close>

datatype signed_text =
    DeviceText string string string string string string string
  | RelayText string string string string string string string
  | CapabilityText string string string string string string
  | NodeText string string string string string string
  | CallbackText string string string string string

fun canonical_text :: "signed_text \<Rightarrow> string" where
  "canonical_text (DeviceText m u a v t n h) = signedRequestCanonicalFor deviceSignatureContext m u a v t n h"
| "canonical_text (RelayText m u a v t n h) = signedRequestCanonicalFor relaySignatureContext m u a v t n h"
| "canonical_text (CapabilityText m u k t n h) = capabilityRequestCanonical m u k t n h"
| "canonical_text (NodeText m u i t n h) = nodeCanonical m u i t n h"
| "canonical_text (CallbackText m u t n h) = callbackCanonical m u t n h"

text \<open>What the texts do not distinguish: the case of the method and, for nodes and callbacks, outer white space.\<close>

fun normal_text :: "signed_text \<Rightarrow> signed_text" where
  "normal_text (DeviceText m u a v t n h) = DeviceText (ToUpper m) u a v t n h"
| "normal_text (RelayText m u a v t n h) = RelayText (ToUpper m) u a v t n h"
| "normal_text (CapabilityText m u k t n h) = CapabilityText (ToUpper m) u k t n h"
| "normal_text (NodeText m u i t n h) = NodeText (ToUpper m) u (TrimSpace i) (TrimSpace t) (TrimSpace n) (TrimSpace h)"
| "normal_text (CallbackText m u t n h) = CallbackText (ToUpper m) u (TrimSpace t) (TrimSpace n) (TrimSpace h)"

definition single_line :: "string \<Rightarrow> bool" where
  "single_line s \<longleftrightarrow> newline \<notin> set s"

fun text_lines :: "signed_text \<Rightarrow> string list" where
  "text_lines (DeviceText m u a v t n h) = [m, u, a, v, t, n, h]"
| "text_lines (RelayText m u a v t n h) = [m, u, a, v, t, n, h]"
| "text_lines (CapabilityText m u k t n h) = [m, u, k, t, n, h]"
| "text_lines (NodeText m u i t n h) = [m, u, i, t, n, h]"
| "text_lines (CallbackText m u t n h) = [m, u, t, n, h]"

lemma first_line:
  "\<lbrakk>single_line x; single_line y\<rbrakk> \<Longrightarrow> x @ newline # r = y @ newline # s \<longleftrightarrow> x = y \<and> r = s"
proof (induction x arbitrary: y)
  case Nil then show ?case by (cases y) (auto simp: single_line_def)
next
  case (Cons c x) then show ?case by (cases y) (auto simp: single_line_def)
qed

lemma one_line: "single_line x \<Longrightarrow> x \<noteq> y @ newline # s" "single_line x \<Longrightarrow> y @ newline # s \<noteq> x"
  by (auto simp: single_line_def)

lemma join_lines_inject:
  "\<lbrakk>xs \<noteq> []; ys \<noteq> []; list_all single_line xs; list_all single_line ys\<rbrakk> \<Longrightarrow> join_lines xs = join_lines ys \<longleftrightarrow> xs = ys"
proof (induction xs arbitrary: ys rule: join_lines.induct)
  case (2 x) then show ?case by (cases ys rule: join_lines.cases) (auto simp: one_line)
next
  case (3 x x' xs) then show ?case by (cases ys rule: join_lines.cases) (auto simp: one_line first_line)
qed simp

lemma single_line_upper [simp]: "single_line s \<Longrightarrow> single_line (ToUpper s)"
proof -
  have "upper_char c = newline \<Longrightarrow> c = newline" for c
    by (auto simp: upper_char_def newline_def Let_def split: if_splits dest: arg_cong [of _ _ "of_char :: char \<Rightarrow> nat"])
  then show "single_line s \<Longrightarrow> single_line (ToUpper s)" by (auto simp: single_line_def ToUpper_def dest!: sym [of newline])
qed

lemma single_line_trim [simp]: "single_line s \<Longrightarrow> single_line (TrimSpace s)"
  by (auto simp: single_line_def TrimSpace_def trim_by_def dest!: set_dropWhileD)

lemma context_lines [simp]: "single_line deviceSignatureContext" "single_line relaySignatureContext"
    "single_line capabilitySignatureContext" "single_line nodeSignatureContext" "single_line callbackSignatureContext"
  by (simp_all add: single_line_def context_defs newline_def)

lemma contexts_neq:
  "deviceSignatureContext \<noteq> relaySignatureContext" "relaySignatureContext \<noteq> deviceSignatureContext"
  "capabilitySignatureContext \<noteq> nodeSignatureContext" "nodeSignatureContext \<noteq> capabilitySignatureContext"
  by (simp_all add: context_defs)

text \<open>
  C28. A signature says one thing only: two requests whose parts are single lines are signed as the same text
  exactly when they are of the same kind - device, notification relay, capability, node or callback -
  and agree in every part, up to the case of the method and, for nodes and callbacks, outer white space.
\<close>

theorem signed_texts_separate:
  assumes "list_all single_line (text_lines x)" and "list_all single_line (text_lines y)"
  shows "canonical_text x = canonical_text y \<longleftrightarrow> normal_text x = normal_text y"
  using assms by (cases x; cases y) (simp_all add: canonical_defs join_lines_inject contexts_neq del: join_lines.simps)

theorem signed_texts_separate_witness:
  "canonical_text (NodeText ''get'' ''/a'' ''n'' ''1'' ''x'' ''h'') = canonical_text (NodeText ''GET'' ''/a'' '' n'' ''1'' ''x'' ''h'')
   \<and> canonical_text (NodeText ''get'' ''/a'' ''n'' ''1'' ''x'' ''h'') \<noteq> canonical_text (CapabilityText ''get'' ''/a'' ''n'' ''1'' ''x'' ''h'')"
proof -
  have l: "list_all single_line (text_lines (NodeText ''get'' ''/a'' ''n'' ''1'' ''x'' ''h''))"
    "list_all single_line (text_lines (NodeText ''GET'' ''/a'' '' n'' ''1'' ''x'' ''h''))"
    "list_all single_line (text_lines (CapabilityText ''get'' ''/a'' ''n'' ''1'' ''x'' ''h''))"
    by (simp_all add: single_line_def newline_def)
  have "normal_text (NodeText ''get'' ''/a'' ''n'' ''1'' ''x'' ''h'') = normal_text (NodeText ''GET'' ''/a'' '' n'' ''1'' ''x'' ''h'')"
    by code_simp
  with signed_texts_separate [OF l(1,2)] signed_texts_separate [OF l(1,3)] show ?thesis by simp
qed

section \<open>A nonce is accepted once\<close>

text \<open>
  C27. A nonce that was accepted is refused until it expires: whatever further requests of the same kind come in
  between, accepted or not, and however ids and nonce are padded with white space. This holds for
  the nonces of devices, of nodes and services, and of runtime capabilities.
\<close>

theorem nonce_once:
  assumes "db_now c' \<le> t"
  shows "(RememberDeviceRequestNonce c a v n t d = Inr (u, d') \<and> map TrimSpace [a', v', n'] = map TrimSpace [a, v, n]
      \<and> (\<forall>(c, k, _) \<in> set ds. db_now c \<le> t) \<longrightarrow>
      (\<nexists>x. RememberDeviceRequestNonce c' a' v' n' t'
        (fold (\<lambda>(c, (a, v, n), t) d. case RememberDeviceRequestNonce c a v n t d of Inr (_, d') \<Rightarrow> d' | Inl _ \<Rightarrow> d) ds d') = Inr x))
    \<and> (RememberNodeRequestNonce c i n t d = Inr (u, d') \<and> map TrimSpace [i', n'] = map TrimSpace [i, n]
      \<and> (\<forall>(c, k, _) \<in> set ns. db_now c \<le> t) \<longrightarrow>
      (\<nexists>x. RememberNodeRequestNonce c' i' n' t'
        (fold (\<lambda>(c, (i, n), t) d. case RememberNodeRequestNonce c i n t d of Inr (_, d') \<Rightarrow> d' | Inl _ \<Rightarrow> d) ns d') = Inr x))
    \<and> (RememberRuntimeCapabilityNonce c i n t d = Inr (u, d') \<and> map TrimSpace [i', n'] = map TrimSpace [i, n]
      \<and> (\<forall>(c, k, _) \<in> set ns. db_now c \<le> t) \<longrightarrow>
      (\<nexists>x. RememberRuntimeCapabilityNonce c' i' n' t'
        (fold (\<lambda>(c, (i, n), t) d. case RememberRuntimeCapabilityNonce c i n t d of Inr (_, d') \<Rightarrow> d' | Inl _ \<Rightarrow> d) ns d') = Inr x))"
  using device_guard.accepted_once [of c "(a, v, n)" t d u d' "(a', v', n')" c' ds t']
    node_guard.accepted_once [of c "(i, n)" t d u d' "(i', n')" c' ns t']
    capability_guard.accepted_once [of c "(i, n)" t d u d' "(i', n')" c' ns t'] assms
  by (auto simp: case_prod_unfold)

theorem nonce_once_witness:
  "\<exists>d'. RememberNodeRequestNonce sample_ctx ''h1'' ''x'' (db_now sample_ctx) sample_db = Inr ((), d')
     \<and> (\<nexists>y. RememberNodeRequestNonce sample_ctx '' h1'' ''x'' 0 d' = Inr y)"
proof -
  obtain d' where x: "RememberNodeRequestNonce sample_ctx ''h1'' ''x'' (db_now sample_ctx) sample_db = Inr ((), d')"
    by (simp add: RememberNodeRequestNonce_def TrimSpace_def trim_by_def is_space_def sample_db_def empty_db_def fresh_nonces_def
        delete_where_def)
  have t: "map TrimSpace ['' h1'', ''x''] = map TrimSpace [''h1'', ''x'']" by code_simp
  from nonce_once [of sample_ctx "db_now sample_ctx" sample_ctx _ _ "''x''" sample_db "()" d' _ _ "''x''" _ 0 "''h1''" "'' h1''" "[]"] x t
  show ?thesis by auto
qed

section \<open>Accepted requests are authentic\<close>

text \<open>
  A request is vouched for by a key when its timestamp was in the window, the key verifies its signature of
  the text, and its body has the hash in the text.
\<close>

definition vouched :: "crypto \<Rightarrow> ctx \<Rightarrow> signed_request \<Rightarrow> string \<Rightarrow> string \<Rightarrow> string \<Rightarrow> string \<Rightarrow> string \<Rightarrow> int \<Rightarrow> bool" where
  "vouched cr c r key txt signature bodyHash timestampRaw timestamp \<longleftrightarrow>
     parseInt64 timestampRaw = Some timestamp \<and> in_window c timestamp \<and> cr_verifies cr key txt signature
     \<and> (\<exists>body. rq_Body (sr_http r) = Some body \<and> cr_bodyHash cr body = bodyHash)"

text \<open>The nonce was not remembered, and is from now until the request would be too old.\<close>

definition spent :: "'k \<Rightarrow> ctx \<Rightarrow> int \<Rightarrow> 'k nonce list \<Rightarrow> 'k nonce list \<Rightarrow> bool" where
  "spent k c timestamp before after \<longleftrightarrow>
     \<not> remembered k (db_now c) before \<and> remembered k (nonce_expiry timestamp) after"

abbreviation header :: "signed_request \<Rightarrow> string \<Rightarrow> string" where
  "header r n \<equiv> TrimSpace (sr_Header r n)"

lemma readSignedBody_body:
  "readSignedBody sha r a h s st = (Inr body, rel, st') \<Longrightarrow> rq_Body r = Some body \<and> sha body = h"
  by (auto simp: readSignedBody_def Let_def split: if_splits option.splits)

lemma device_authentic:
  assumes "requireSignedDeviceRequest cr c1 d1 c2 r st d2 = (Inr (a, v), rel, st', d')"
  shows "a = header r ''X-Virtroid-Account-ID'' \<and> v = header r ''X-Virtroid-Device-ID''
    \<and> (\<exists>w \<in> set (devices d1). dv_id w = v \<and> dv_account_id w = a \<and> dv_revoked_at w = None
        \<and> (\<exists>q \<in> set (accounts d1). a_id q = a \<and> a_deleted_at q = None)
        \<and> (\<exists>ts. vouched cr c1 r (TrimSpace (dv_public_key w))
             (canonical_text (DeviceText (sr_Method r) (sr_RequestURI r) a v (header r ''X-Virtroid-Timestamp'')
                (header r ''X-Virtroid-Nonce'') (header r ''X-Virtroid-Body-SHA256'')))
             (header r ''X-Virtroid-Signature'') (header r ''X-Virtroid-Body-SHA256'') (header r ''X-Virtroid-Timestamp'') ts
           \<and> spent (a, v, header r ''X-Virtroid-Nonce'') c2 ts (device_request_nonces d2) (device_request_nonces d')))"
proof -
  obtain ts n h body st1 u where chk: "checkSignedRequest cr DevicePublicKey deviceSignatureContext c1 d1 r = Inr (a, v, ts, n, h)"
    and body: "readSignedBody (cr_bodyHash cr) (sr_http r) a h ''device signature'' st = (Inr body, rel, st1)"
    and non: "RememberDeviceRequestNonce c2 a v n (nonce_expiry ts) d2 = Inr (u, d')"
    using assms by (auto simp: requireSignedDeviceRequest_def requireSignedRequest_def split: sum.splits prod.splits)
  obtain key where hd: "a = header r ''X-Virtroid-Account-ID''" "v = header r ''X-Virtroid-Device-ID''"
      "n = header r ''X-Virtroid-Nonce''" "h = header r ''X-Virtroid-Body-SHA256''"
    and ts: "parseInt64 (header r ''X-Virtroid-Timestamp'') = Some ts" "in_window c1 ts"
    and key: "DevicePublicKey a v d1 = Inr key"
    and ver: "cr_verifies cr key (signedRequestCanonicalFor deviceSignatureContext (sr_Method r) (sr_RequestURI r) a v
       (header r ''X-Virtroid-Timestamp'') n h) (header r ''X-Virtroid-Signature'')"
    using chk by (auto simp: checkSignedRequest_def Let_def split: if_splits option.splits sum.splits)
  obtain w where w: "w \<in> set (devices d1)" "dv_account_id w = a" "dv_id w = v" "dv_revoked_at w = None"
      "\<exists>q \<in> set (accounts d1). a_id q = a \<and> a_deleted_at q = None" "key = TrimSpace (dv_public_key w)"
    using key by (auto simp: DevicePublicKey_def res_simps dest!: find_SomeD)
  have sp: "spent (a, v, n) c2 ts (device_request_nonces d2) (device_request_nonces d')"
    using device_guard.accepted [of c2 "(a, v, n)" "nonce_expiry ts" d2 u d'] device_guard.now_remembered [of c2 "(a, v, n)" "nonce_expiry ts" d2 u d'] non
    by (simp add: spent_def hd)
  show ?thesis using hd ts w ver sp readSignedBody_body [OF body] by (auto simp: vouched_def)
qed

lemma capability_authentic:
  assumes "requireRuntimeCapabilityRequest cr c1 d1 c2 r rid st d2 = (Inr (a, k), rel, st', d')"
  shows "k = header r ''X-Virtroid-Capability-ID''
    \<and> (\<exists>w \<in> set (runtime_capabilities d1). c_id w = k \<and> c_account_id w = a \<and> c_runtime_id w = TrimSpace rid \<and> valid_capability c1 w
        \<and> (\<exists>q \<in> set (runtimes d1). r_id q = TrimSpace rid \<and> r_account_id q = a \<and> not_deleting q)
        \<and> (\<exists>ts. vouched cr c1 r (TrimSpace (c_public_key w))
             (canonical_text (CapabilityText (sr_Method r) (sr_RequestURI r) k (header r ''X-Virtroid-Capability-Timestamp'')
                (header r ''X-Virtroid-Capability-Nonce'') (header r ''X-Virtroid-Capability-Body-SHA256'')))
             (header r ''X-Virtroid-Capability-Signature'') (header r ''X-Virtroid-Capability-Body-SHA256'')
             (header r ''X-Virtroid-Capability-Timestamp'') ts
           \<and> spent (k, header r ''X-Virtroid-Capability-Nonce'') c2 ts (runtime_capability_nonces d2) (runtime_capability_nonces d')))"
proof -
  obtain ts n h body st1 u d3 where chk: "verifyRuntimeCapabilitySignature cr c1 d1 r rid = Inr (a, k, ts, n, h)"
    and body: "readSignedBody (cr_bodyHash cr) (sr_http r) a h ''runtime capability signature'' st = (Inr body, rel, st1)"
    and non: "RememberRuntimeCapabilityNonce c2 k n (nonce_expiry ts) d2 = Inr (u, d3)"
    and d': "runtime_capability_nonces d' = runtime_capability_nonces d3"
    using assms by (auto simp: requireRuntimeCapabilityRequest_def finishRuntimeCapabilityRequest_def TouchRuntimeCapability_def Let_def
        split: sum.splits prod.splits if_splits)
  obtain key where hd: "k = header r ''X-Virtroid-Capability-ID''"
      "n = header r ''X-Virtroid-Capability-Nonce''" "h = header r ''X-Virtroid-Capability-Body-SHA256''"
    and ts: "parseInt64 (header r ''X-Virtroid-Capability-Timestamp'') = Some ts" "in_window c1 ts"
    and key: "RuntimeCapabilityPublicKey c1 rid k d1 = Inr (a, key)"
    and ver: "cr_verifies cr (TrimSpace key) (capabilityRequestCanonical (sr_Method r) (sr_RequestURI r) k
       (header r ''X-Virtroid-Capability-Timestamp'') n h) (header r ''X-Virtroid-Capability-Signature'')"
    using chk by (auto simp: verifyRuntimeCapabilitySignature_def Let_def split: if_splits option.splits sum.splits)
  obtain w where w: "w \<in> set (runtime_capabilities d1)" "c_id w = k" "c_runtime_id w = TrimSpace rid" "valid_capability c1 w"
      "\<exists>q \<in> set (runtimes d1). r_id q = TrimSpace rid \<and> r_account_id q = a \<and> not_deleting q" "a = c_account_id w" "key = c_public_key w"
    using key by (fastforce simp: RuntimeCapabilityPublicKey_def Let_def res_simps hd split: if_splits dest!: find_SomeD)
  have sp: "spent (k, n) c2 ts (runtime_capability_nonces d2) (runtime_capability_nonces d')"
    using capability_guard.accepted [of c2 "(k, n)" "nonce_expiry ts" d2 u d3] capability_guard.now_remembered [of c2 "(k, n)" "nonce_expiry ts" d2 u d3] non
    by (simp add: spent_def hd d')
  show ?thesis using hd ts w ver sp readSignedBody_body [OF body] by (auto simp: vouched_def)
qed

text \<open>The text a node or service signs, from its headers.\<close>

definition node_text :: "signed_request \<Rightarrow> string \<Rightarrow> string" where
  "node_text r signer = canonical_text (NodeText (sr_Method r) (sr_RequestURI r) signer (header r ''X-Virtroid-Node-Timestamp'')
     (header r ''X-Virtroid-Node-Nonce'') (header r ''X-Virtroid-Node-Body-SHA256''))"

lemma spendNodeNonce_spent:
  assumes "spendNodeNonce c i n ts e d = Inr d'" and "TrimSpace i = i" and "TrimSpace n = n"
  shows "spent (i, n) c ts (node_request_nonces d) (node_request_nonces d')"
proof -
  obtain u where "RememberNodeRequestNonce c i n (nonce_expiry ts) d = Inr (u, d')"
    using assms(1) by (auto simp: spendNodeNonce_def split: sum.splits)
  then show ?thesis
    using node_guard.accepted [of c "(i, n)" "nonce_expiry ts" d u d'] node_guard.now_remembered [of c "(i, n)" "nonce_expiry ts" d u d']
    by (simp add: spent_def assms)
qed

lemma nodeVerify_text:
  "nodeVerify cr key (sr_Method r) (sr_RequestURI r) i (header r ''X-Virtroid-Node-Timestamp'') (header r ''X-Virtroid-Node-Nonce'')
     (header r ''X-Virtroid-Node-Body-SHA256'') (header r ''X-Virtroid-Node-Signature'')
   \<Longrightarrow> cr_verifies cr key (node_text r i) (header r ''X-Virtroid-Node-Signature'')"
  by (simp add: nodeVerify_def node_text_def)

lemma checkNodeRequest_cases:
  assumes "checkNodeRequest cr cfg c d r False = Inr (i, key, enr, ts, n)"
  obtains keys body where "i = header r ''X-Virtroid-Node-ID''" "n = header r ''X-Virtroid-Node-Nonce''"
    "parseInt64 (header r ''X-Virtroid-Node-Timestamp'') = Some ts" "in_window c ts"
    "AuthorizedNodeKeys c i d = Inr keys" "\<not> enr" "key \<in> k_public_key ` set keys"
    "cr_verifies cr key (node_text r i) (header r ''X-Virtroid-Node-Signature'')"
    "rq_Body (sr_http r) = Some body" "cr_bodyHash cr body = header r ''X-Virtroid-Node-Body-SHA256''"
proof -
  let ?P = "\<lambda>key. nodeVerify cr key (sr_Method r) (sr_RequestURI r) (header r ''X-Virtroid-Node-ID'') (header r ''X-Virtroid-Node-Timestamp'')
    (header r ''X-Virtroid-Node-Nonce'') (header r ''X-Virtroid-Node-Body-SHA256'') (header r ''X-Virtroid-Node-Signature'')"
  obtain ts' where ts: "parseInt64 (header r ''X-Virtroid-Node-Timestamp'') = Some ts'" "in_window c ts'"
    using assms unfolding checkNodeRequest_def Let_def by (simp split: if_splits option.splits)
  obtain ks enr' where ks: "nodeKeys cfg c d r False (header r ''X-Virtroid-Node-ID'') = Inr (ks, enr')"
    using assms ts unfolding checkNodeRequest_def Let_def by (auto simp: res_simps split: if_splits)
  obtain key' where key: "find ?P ks = Some key'"
    using assms ts ks unfolding checkNodeRequest_def Let_def by (cases "find ?P ks") (simp_all split: if_splits)
  obtain body where body: "rq_Body (sr_http r) = Some body"
    using assms ts ks key unfolding checkNodeRequest_def Let_def by (cases "rq_Body (sr_http r)") (simp_all split: if_splits)
  have eq: "i = header r ''X-Virtroid-Node-ID''" "key = key'" "enr = enr'" "ts = ts'" "n = header r ''X-Virtroid-Node-Nonce''"
    "cr_bodyHash cr body = header r ''X-Virtroid-Node-Body-SHA256''"
    using assms ts ks key body unfolding checkNodeRequest_def Let_def by (simp_all split: if_splits)
  obtain keys where keys: "AuthorizedNodeKeys c i d = Inr keys" "ks = map k_public_key keys" "\<not> enr'"
    using ks by (auto simp: nodeKeys_def eq split: sum.splits if_splits)
  note f = find_SomeD [OF key]
  have "key \<in> k_public_key ` set keys" using f keys(2) eq(2) by simp
  moreover have "cr_verifies cr key (node_text r i) (header r ''X-Virtroid-Node-Signature'')"
    unfolding eq(1,2) by (rule nodeVerify_text) (use f in blast)
  ultimately show ?thesis using that eq ts keys body by blast
qed

lemma node_authentic:
  assumes "requireNodeRequest cr cfg c1 d1 c2 r False d2 = (Inr (i, key), d')"
  shows "i = header r ''X-Virtroid-Node-ID''
    \<and> (\<exists>keys. AuthorizedNodeKeys c1 i d1 = Inr keys \<and> key \<in> k_public_key ` set keys)
    \<and> (\<exists>ts. vouched cr c1 r key (node_text r i) (header r ''X-Virtroid-Node-Signature'') (header r ''X-Virtroid-Node-Body-SHA256'')
             (header r ''X-Virtroid-Node-Timestamp'') ts
         \<and> spent (i, header r ''X-Virtroid-Node-Nonce'') c2 ts (node_request_nonces d2) (node_request_nonces d'))"
proof -
  obtain enr ts n d3 where chk: "checkNodeRequest cr cfg c1 d1 r False = Inr (i, key, enr, ts, n)"
    and d3: "enrollNode c2 enr i key d2 = (True, d3)" and sp: "spendNodeNonce c2 i n ts ''node_nonce_persist_failed'' d3 = Inr d'"
    using assms by (auto simp: requireNodeRequest_def Let_def split: sum.splits prod.splits if_splits)
  show ?thesis
  proof (rule checkNodeRequest_cases [OF chk])
    fix keys body
    assume k: "i = header r ''X-Virtroid-Node-ID''" "n = header r ''X-Virtroid-Node-Nonce''"
      "parseInt64 (header r ''X-Virtroid-Node-Timestamp'') = Some ts" "in_window c1 ts"
      "AuthorizedNodeKeys c1 i d1 = Inr keys" "\<not> enr" "key \<in> k_public_key ` set keys"
      "cr_verifies cr key (node_text r i) (header r ''X-Virtroid-Node-Signature'')"
      "rq_Body (sr_http r) = Some body" "cr_bodyHash cr body = header r ''X-Virtroid-Node-Body-SHA256''"
    have "d3 = d2" using d3 k(6) by (simp add: enrollNode_def)
    then have "spent (i, header r ''X-Virtroid-Node-Nonce'') c2 ts (node_request_nonces d2) (node_request_nonces d')"
      using spendNodeNonce_spent [OF sp] k(1,2) by simp
    then show ?thesis using k unfolding vouched_def by blast
  qed
qed

lemma service_authentic:
  assumes "requireServiceRequest cr c1 c2 r signer pk d2 = Inr d'" and "TrimSpace signer = signer"
  shows "sr_Header r ''X-Virtroid-Node-ID'' = signer
    \<and> (\<exists>ts. vouched cr c1 r pk (node_text r signer) (header r ''X-Virtroid-Node-Signature'') (header r ''X-Virtroid-Node-Body-SHA256'')
             (header r ''X-Virtroid-Node-Timestamp'') ts
         \<and> spent (signer, header r ''X-Virtroid-Node-Nonce'') c2 ts (node_request_nonces d2) (node_request_nonces d'))"
proof -
  obtain ts body where "sr_Header r ''X-Virtroid-Node-ID'' = signer" "parseInt64 (header r ''X-Virtroid-Node-Timestamp'') = Some ts"
      "in_window c1 ts" "nodeVerify cr pk (sr_Method r) (sr_RequestURI r) signer (header r ''X-Virtroid-Node-Timestamp'')
        (header r ''X-Virtroid-Node-Nonce'') (header r ''X-Virtroid-Node-Body-SHA256'') (header r ''X-Virtroid-Node-Signature'')"
      "rq_Body (sr_http r) = Some body" "cr_bodyHash cr body = header r ''X-Virtroid-Node-Body-SHA256''"
      "spendNodeNonce c2 signer (header r ''X-Virtroid-Node-Nonce'') ts ''service_nonce_persist_failed'' d2 = Inr d'"
    using assms(1) unfolding requireServiceRequest_def Let_def by (simp split: if_splits option.splits)
  then show ?thesis
    using spendNodeNonce_spent [of c2 signer "header r ''X-Virtroid-Node-Nonce''" ts _ d2 d'] nodeVerify_text assms(2)
    unfolding vouched_def by (metis TrimSpace_idem)
qed


definition sample_crypto :: crypto where
  "sample_crypto = \<lparr>cr_deviceKey = (\<lambda>_. KeyECDSA), cr_nodeKey = (\<lambda>_. True), cr_decodes = (\<lambda>_. True),
     cr_verifies = (\<lambda>key txt s. s = key), cr_bodyHash = (\<lambda>b. CHR ''h'' # b)\<rparr>"

definition sample_service_request :: signed_request where
  "sample_service_request = \<lparr>sr_http = \<lparr>rq_Path = ''/p'', rq_ContentLength = 1, rq_Body = Some ''b''\<rparr>, sr_Method = ''POST'', sr_RequestURI = ''/p'',
     sr_Header = (\<lambda>n. if n = ''X-Virtroid-Node-ID'' then ''svc'' else if n = ''X-Virtroid-Node-Timestamp'' then ''1000000''
       else if n = ''X-Virtroid-Node-Nonce'' then ''x'' else if n = ''X-Virtroid-Node-Body-SHA256'' then ''hb''
       else if n = ''X-Virtroid-Node-Signature'' then ''pk'' else [])\<rparr>"


text \<open>
  The window and the expiry leave a gap. The timestamp is checked when the headers have arrived and the nonce is
  spent once the body has, which may be up to thirty seconds later (\<open>ReadTimeout\<close>). When the five minutes end in
  between, the nonce of an earlier copy of the request is deleted as expired, and the copy is accepted again.
\<close>

lemma service_request_replayed:
  "(let early = sample_ctx\<lparr>db_now := 1000299 * second, go_now := 1000299 * second\<rparr>; late = sample_ctx\<lparr>db_now := 1000301 * second, go_now := 1000301 * second\<rparr>
    in map_sum id (\<lambda>_. ()) (ebind (requireServiceRequest sample_crypto early early sample_service_request ''svc'' ''pk'' sample_db)
         (requireServiceRequest sample_crypto early late sample_service_request ''svc'' ''pk''))) = Inr ()"
  by code_simp

end
