(* ===== verification/Observation.thy ===== *)
theory Observation
  imports Lifecycle
begin

text \<open>
  What nodes report about the runtimes they hold: \<open>UpdateRuntimeObservation\<close> and its parts in
  \<open>internal/store/store.go\<close>. A report names the operation generation it is about. A report for
  another generation, from another host or about a deleted runtime is refused, a report with a
  snapshot is checked against the storage limit of the account and against the snapshot it replaces.
\<close>

section \<open>Reports\<close>

record RuntimeObservation =
  ob_HostID :: string
  ob_Status :: string
  ob_ConnectionStatus :: string
  ob_ContainerName :: "string option"
  ob_ADBPort :: "int option"
  ob_LastError :: "string option"
  ob_BlobStoreKind :: "string option"
  ob_BlobManifestJSON :: "string option"
  ob_BlobLastSnapshotAt :: "time option"
  ob_LoadAverage :: "int option"
  ob_ClearWipeRequested :: bool
  ob_ActivePersonaJSON :: "string option"
  ob_ClearActivePersona :: bool
  ob_ClearBlobManifest :: bool
  ob_CleanupComplete :: bool
  ob_OperationGeneration :: int
  ob_Deleted :: bool

text \<open>\<open>int32(*value)\<close> keeps the low 32 bits.\<close>

definition nullInt :: "int option \<Rightarrow> int option" where
  "nullInt x = map_option (\<lambda>v. (v + 2147483648) mod 4294967296 - 2147483648) x"

text \<open>The rows a report may change.\<close>

definition reported_row :: "string \<Rightarrow> RuntimeObservation \<Rightarrow> runtime \<Rightarrow> bool" where
  "reported_row runtimeID obs r \<longleftrightarrow>
     r_id r = runtimeID \<and> r_host_id r = Some (ob_HostID obs)
     \<and> r_operation_generation r = ob_OperationGeneration obs \<and> r_deleted_at r = None"

definition reported_deleted :: "ctx \<Rightarrow> RuntimeObservation \<Rightarrow> runtime \<Rightarrow> runtime" where
  "reported_deleted c obs r =
     r\<lparr>r_status := ''deleted'', r_desired_state := ''deleted'', r_connection_status := ''offline'',
       r_host_id := None, r_active_persona_json := None, r_blob_store_kind := None,
       r_blob_manifest_json := None, r_blob_host_id := None, r_container_name := None, r_adb_port := None,
       r_viewer_port := None, r_started_at := None, r_wipe_requested := False,
       r_last_error := nullString (ob_LastError obs), r_deleted_at := Some (db_now c), r_updated_at := db_now c\<rparr>"

text \<open>A status that leaves the runtime without a viewer port.\<close>

definition portless_status :: "string \<Rightarrow> string \<Rightarrow> bool" where
  "portless_status status desired \<longleftrightarrow>
     status \<in> set [''stopped'', ''provisioned''] \<or> (status = ''error'' \<and> desired \<noteq> ''running'')"

definition released_host :: "RuntimeObservation \<Rightarrow> string \<Rightarrow> string \<Rightarrow> bool" where
  "released_host obs status desired \<longleftrightarrow>
     desired \<noteq> ''deleted''
     \<and> (status = ''provisioned''
        \<or> (ob_CleanupComplete obs \<and> desired \<noteq> ''running'' \<and> status \<in> set [''stopped'', ''error'']))"

definition reported_blob_host :: "RuntimeObservation \<Rightarrow> runtime \<Rightarrow> string option" where
  "reported_blob_host obs r =
     (let kind = nullString (ob_BlobStoreKind obs); manifest = nullString (ob_BlobManifestJSON obs) in
      if ob_ClearBlobManifest obs then None
      else if sql_filled manifest \<and> sql_store_kind (coalesce2 kind (r_blob_store_kind r)) \<noteq> ''local-disk'' then None
      else if sql_filled manifest then Some (ob_HostID obs)
      else r_blob_host_id r)"

definition reported_started_at :: "ctx \<Rightarrow> string \<Rightarrow> string \<Rightarrow> runtime \<Rightarrow> time option" where
  "reported_started_at c status connection r =
     (if status = ''running'' \<and> connection = ''online'' then Some (coalesce (r_started_at r) (db_now c))
      else if status \<in> set [''stopped'', ''provisioned'', ''deleted''] \<or> (status = ''error'' \<and> r_desired_state r \<noteq> ''running'')
      then None else r_started_at r)"

definition reported :: "ctx \<Rightarrow> RuntimeObservation \<Rightarrow> runtime \<Rightarrow> runtime" where
  "reported c obs r =
     (let status = defaultString (ob_Status obs) ''stopped'';
          connection = defaultString (ob_ConnectionStatus obs) ''offline'';
          clear = ob_ClearBlobManifest obs
      in r\<lparr>r_status := status, r_connection_status := connection,
           r_host_id := (if released_host obs status (r_desired_state r) then None else r_host_id r),
           r_container_name := nullString (ob_ContainerName obs), r_adb_port := nullInt (ob_ADBPort obs),
           r_viewer_port := (if portless_status status (r_desired_state r) then None else r_viewer_port r),
           r_last_error := nullString (ob_LastError obs),
           r_blob_last_snapshot_at := coalesce2 (ob_BlobLastSnapshotAt obs) (r_blob_last_snapshot_at r),
           r_wipe_requested := (if ob_ClearWipeRequested obs then False else r_wipe_requested r),
           r_active_persona_json := (if ob_ClearActivePersona obs then None
             else coalesce2 (nullString (ob_ActivePersonaJSON obs)) (r_active_persona_json r)),
           r_blob_store_kind := (if clear then None
             else coalesce2 (nullString (ob_BlobStoreKind obs)) (r_blob_store_kind r)),
           r_blob_manifest_json := (if clear then None
             else coalesce2 (nullString (ob_BlobManifestJSON obs)) (r_blob_manifest_json r)),
           r_blob_generation_floor := (if clear
             then r_blob_generation_floor r + manifestGenerationSQL (r_blob_manifest_json r)
             else r_blob_generation_floor r),
           r_blob_host_id := reported_blob_host obs r,
           r_started_at := reported_started_at c status connection r,
           r_load_average := coalesce2 (ob_LoadAverage obs) (r_load_average r),
           r_cleanup_pending := (if ob_CleanupComplete obs then False
             else if status = ''stopped'' \<and> r_desired_state r \<noteq> ''running'' then True else r_cleanup_pending r),
           r_updated_at := db_now c\<rparr>)"

definition updateRuntimeObservationRecord :: "ctx \<Rightarrow> string \<Rightarrow> RuntimeObservation \<Rightarrow> unit tx" where
  "updateRuntimeObservationRecord c runtimeID obs d =
     (if \<exists>r \<in> set (runtimes d). reported_row runtimeID obs r
      then Inr ((), d\<lparr>runtimes := update_where (reported_row runtimeID obs) (reported c obs) (runtimes d)\<rparr>)
      else Inl ErrRuntimeObservationStale)"

text \<open>
  The loop over the account's other runtimes is \<open>sumManifestBytes\<close>; the text that it puts before the
  message of an invalid manifest is left out.
\<close>

definition updateRuntimeObservationWithStorageQuota ::
  "ctx \<Rightarrow> string \<Rightarrow> RuntimeObservation \<Rightarrow> storedBlobManifestUsage option \<Rightarrow> int \<Rightarrow> unit tx" where
  "updateRuntimeObservationWithStorageQuota c runtimeID obs incomingManifest incomingManifestBytes d =
     ebind (of_row ErrRuntimeObservationStale (find (reported_row runtimeID obs) (runtimes d))) (\<lambda>r.
     ebind (validateStoredBlobManifestAdvance c (manifestText r) incomingManifest) (\<lambda>_.
     ebind (of_row ErrRuntimeEntitlement
       (find (\<lambda>e. e_account_id e = r_account_id r) (account_entitlements d))) (\<lambda>e.
     ebind (sumManifestBytes c (map manifestText
       (filter (\<lambda>q. r_id q \<noteq> runtimeID) (storedManifests (r_account_id r) d))) 0) (\<lambda>otherRuntimeBytes.
     if e_storage_bytes_limit e \<le> 0 \<or> incomingManifestBytes > e_storage_bytes_limit e - otherRuntimeBytes
     then Inl ErrRuntimeStorageQuota
     else updateRuntimeObservationRecord c runtimeID obs d))))"

definition UpdateRuntimeObservation :: "ctx \<Rightarrow> string \<Rightarrow> RuntimeObservation \<Rightarrow> unit tx" where
  "UpdateRuntimeObservation c runtimeID obs d =
     (if ob_HostID obs = [] then Inl (ErrMsg ''host id is required'')
      else if ob_OperationGeneration obs \<le> 0 then Inl ErrRuntimeObservationStale
      else if ob_Deleted obs
      then ebind (of_row ErrRuntimeObservationStale (find (reported_row runtimeID obs) (runtimes d))) (\<lambda>r.
        Inr ((), deleteAccountIfRuntimeCleanupDoneTX (r_account_id r)
          (d\<lparr>runtimes := update_where (reported_row runtimeID obs) (reported_deleted c obs) (runtimes d)\<rparr>)))
      else let manifestRaw = TrimSpace (valueOrEmpty (ob_BlobManifestJSON obs)) in
        if ob_ClearBlobManifest obs \<and> manifestRaw \<noteq> []
        then Inl (ErrMsg ''blob manifest cannot be set and cleared in the same observation'')
        else if manifestRaw \<noteq> []
        then ebind (parseStoredBlobManifestUsage c manifestRaw) (\<lambda>manifest.
          ebind (case manifest of None \<Rightarrow> Inr 0 | Some m \<Rightarrow> storedBlobManifestBytesAtDepth m 0) (\<lambda>manifestBytes.
          updateRuntimeObservationWithStorageQuota c runtimeID obs manifest manifestBytes d))
        else updateRuntimeObservationRecord c runtimeID obs d)"

section \<open>Reports are fenced\<close>

lemma reported_simps [simp]:
  "r_id (reported c obs r) = r_id r" "r_account_id (reported c obs r) = r_account_id r"
  "r_operation_generation (reported c obs r) = r_operation_generation r"
  "r_desired_state (reported c obs r) = r_desired_state r"
  "r_deleted_at (reported c obs r) = r_deleted_at r"
  "r_blob_manifest_json (reported c obs r) = (if ob_ClearBlobManifest obs then None
     else coalesce2 (nullString (ob_BlobManifestJSON obs)) (r_blob_manifest_json r))"
  "r_blob_generation_floor (reported c obs r) = (if ob_ClearBlobManifest obs
     then r_blob_generation_floor r + manifestGenerationSQL (r_blob_manifest_json r) else r_blob_generation_floor r)"
  by (simp_all add: reported_def Let_def)

lemma reported_deleted_simps [simp]:
  "r_id (reported_deleted c obs r) = r_id r" "r_account_id (reported_deleted c obs r) = r_account_id r"
  "r_operation_generation (reported_deleted c obs r) = r_operation_generation r"
  "r_desired_state (reported_deleted c obs r) = ''deleted''" "r_viewer_port (reported_deleted c obs r) = None"
  "r_deleted_at (reported_deleted c obs r) = Some (db_now c)"
  by (simp_all add: reported_deleted_def)

interpretation report: row_change "reported c obs" for c obs
  by unfold_locales (auto simp: reported_def Let_def)

interpretation deletion_report: row_change "reported_deleted c obs" for c obs
  by unfold_locales simp_all

lemma UpdateRuntimeObservation_cases:
  assumes "UpdateRuntimeObservation c rid obs d = Inr (u, d')"
  obtains (deleted) r where "ob_Deleted obs" and "find (reported_row rid obs) (runtimes d) = Some r"
      and "d' = deleteAccountIfRuntimeCleanupDoneTX (r_account_id r)
             (d\<lparr>runtimes := update_where (reported_row rid obs) (reported_deleted c obs) (runtimes d)\<rparr>)"
    | (snapshot) r e m n k where "\<not> ob_Deleted obs" and "\<not> ob_ClearBlobManifest obs"
      and "find (reported_row rid obs) (runtimes d) = Some r"
      and "parseStoredBlobManifestUsage c (TrimSpace (valueOrEmpty (ob_BlobManifestJSON obs))) = Inr (Some m)"
      and "TrimSpace (valueOrEmpty (ob_BlobManifestJSON obs)) \<noteq> []"
      and "storedBlobManifestBytesAtDepth m 0 = Inr n"
      and "validateStoredBlobManifestAdvance c (manifestText r) (Some m) = Inr ()"
      and "find (\<lambda>e. e_account_id e = r_account_id r) (account_entitlements d) = Some e"
      and "sumManifestBytes c (map manifestText
             (filter (\<lambda>q. r_id q \<noteq> rid) (storedManifests (r_account_id r) d))) 0 = Inr k"
      and "n + k \<le> e_storage_bytes_limit e"
      and "d' = d\<lparr>runtimes := update_where (reported_row rid obs) (reported c obs) (runtimes d)\<rparr>"
    | (plain) r where "\<not> ob_Deleted obs" and "TrimSpace (valueOrEmpty (ob_BlobManifestJSON obs)) = []"
      and "r \<in> set (runtimes d)" and "reported_row rid obs r"
      and "d' = d\<lparr>runtimes := update_where (reported_row rid obs) (reported c obs) (runtimes d)\<rparr>"
proof (cases "ob_Deleted obs")
  case True
  with assms show ?thesis
    by (auto simp: UpdateRuntimeObservation_def res_simps split: if_splits intro: deleted)
next
  case nd: False
  show ?thesis
  proof (cases "TrimSpace (valueOrEmpty (ob_BlobManifestJSON obs)) = []")
    case True
    with nd assms show ?thesis
      by (auto simp: UpdateRuntimeObservation_def Let_def updateRuntimeObservationRecord_def split: if_splits intro: plain)
  next
    case False
    with nd assms obtain x where x: "parseStoredBlobManifestUsage c (TrimSpace (valueOrEmpty (ob_BlobManifestJSON obs))) = Inr x"
      and nc: "\<not> ob_ClearBlobManifest obs" and rest: "ebind (case x of None \<Rightarrow> Inr 0 | Some m \<Rightarrow> storedBlobManifestBytesAtDepth m 0)
        (\<lambda>manifestBytes. updateRuntimeObservationWithStorageQuota c rid obs x manifestBytes d) = Inr (u, d')"
      by (auto simp: UpdateRuntimeObservation_def Let_def res_simps split: if_splits)
    from x False obtain m where m: "x = Some m" using parse_None_iff by (cases x) auto
    from rest m show ?thesis
      using snapshot [OF nd nc _ x [unfolded m] False]
      by (auto simp: updateRuntimeObservationWithStorageQuota_def updateRuntimeObservationRecord_def res_simps split: if_splits)
  qed
qed

section \<open>Storage limits\<close>

lemma sumManifestBytes_ok:
  assumes "\<forall>raw \<in> set raws. \<exists>b. storedBlobManifestBytes c raw = Inr b"
    and "tot + sum_list (map (\<lambda>raw. projr (storedBlobManifestBytes c raw)) raws) \<le> MaxInt64"
  shows "sumManifestBytes c raws tot = Inr (tot + sum_list (map (\<lambda>raw. projr (storedBlobManifestBytes c raw)) raws))"
  using assms
proof (induction c raws tot rule: sumManifestBytes.induct)
  case (2 c raw raws tot)
  from 2(2) obtain b where b: "storedBlobManifestBytes c raw = Inr b" by auto
  have "0 \<le> sum_list (map (\<lambda>raw. projr (storedBlobManifestBytes c raw)) raws)"
  proof (rule sum_list_nonneg)
    fix x assume "x \<in> set (map (\<lambda>raw. projr (storedBlobManifestBytes c raw)) raws)"
    then show "0 \<le> x" using 2(2) by (auto dest!: bspec dest: storedBlobManifestBytes_bounds(1))
  qed
  with 2(1) [of b] 2(2,3) b show ?case by (simp add: add.assoc)
qed simp

lemma sum_list_split:
  fixes f :: "'a \<Rightarrow> int"
  shows "sum_list (map f xs) = sum_list (map f (filter P xs)) + sum_list (map f (filter (\<lambda>x. \<not> P x) xs))"
  by (induction xs) auto

lemma filter_key_one:
  assumes "distinct (map key rs)" and "\<And>q. q \<in> set rs \<Longrightarrow> key q = k \<Longrightarrow> f q = (v :: int)" and "0 \<le> v"
  shows "sum_list (map f (filter (\<lambda>q. Q q \<and> key q = k) rs)) \<le> v"
  using assms(1,2)
proof (induction rs)
  case (Cons x rs)
  show ?case
  proof (cases "Q x \<and> key x = k")
    case True
    with Cons(2) have "filter (\<lambda>q. Q q \<and> key q = k) rs = []" by (auto simp: filter_empty_conv image_iff)
    with True Cons(3) show ?thesis by simp
  next
    case False
    with Cons show ?thesis by auto
  qed
qed (simp add: assms(3))

lemma nullString_text:
  "TrimSpace (valueOrEmpty x) \<noteq> [] \<Longrightarrow> nullString x = Some (TrimSpace (valueOrEmpty x))"
  by (cases x) (simp_all add: nullString_def valueOrEmpty_def)

lemma stored_bytes_trim: "storedBlobManifestBytes c (TrimSpace raw) = storedBlobManifestBytes c raw"
  by (simp add: storedBlobManifestBytes_def parseStoredBlobManifestUsage_def)

definition rowBytes :: "ctx \<Rightarrow> runtime \<Rightarrow> int" where
  "rowBytes c r = projr (storedBlobManifestBytes c (manifestText r))"

text \<open>
  C22. A snapshot is only recorded within the storage limit of its account: after a report with a snapshot
  is accepted, the manifests of the account can all be read and add up to no more than its limit.
\<close>

theorem UpdateRuntimeObservation_quota:
  assumes "UpdateRuntimeObservation c rid obs d = Inr (u, d')" and "\<not> ob_Deleted obs"
    and "TrimSpace (valueOrEmpty (ob_BlobManifestJSON obs)) \<noteq> []"
    and "distinct (map r_id (runtimes d))" and "\<forall>e \<in> set (account_entitlements d). e_storage_bytes_limit e \<le> MaxInt64"
    and "\<forall>r \<in> set (runtimes d). TrimSpace (r_account_id r) = r_account_id r"
  shows "\<exists>r \<in> set (runtimes d). r_id r = rid \<and> (\<exists>e \<in> set (account_entitlements d'). e_account_id e = r_account_id r
    \<and> (\<exists>used. accountStorageBytesUsed c (r_account_id r) d' = Inr used \<and> used \<le> e_storage_bytes_limit e))"
  using assms(1)
proof (cases rule: UpdateRuntimeObservation_cases)
  case (snapshot r e m n k)
  let ?raw = "TrimSpace (valueOrEmpty (ob_BlobManifestJSON obs))" and ?B = "rowBytes c" and ?a = "r_account_id r"
  let ?stored = "storedManifests ?a d'"
  have r: "r \<in> set (runtimes d)" "r_id r = rid" "reported_row rid obs r"
    using find_SomeD [OF snapshot(3)] by (auto simp: reported_row_def)
  have e: "e \<in> set (account_entitlements d)" "e_account_id e = ?a" using find_SomeD [OF snapshot(8)] by auto
  have bytes: "storedBlobManifestBytes c ?raw = Inr n"
    using snapshot(4,6) by (simp add: storedBlobManifestBytes_def)
  have d': "runtimes d' = update_where (reported_row rid obs) (reported c obs) (runtimes d)" using snapshot(11) by simp
  have dist: "distinct (map r_id (runtimes d'))" unfolding d' using assms(4) by (simp add: report.ids)
  have own: "storedBlobManifestBytes c (manifestText q) = Inr n" if "q \<in> set (runtimes d')" "r_id q = rid" for q
  proof -
    have "\<forall>q \<in> set (runtimes d'). r_id q = rid \<longrightarrow> r_blob_manifest_json q = Some ?raw"
      unfolding d' by (rule updated_row [OF assms(4) snapshot(3) r(2)])
        (simp_all add: snapshot(2) nullString_text [OF assms(3)])
    with that bytes show ?thesis by (simp add: manifestText_def)
  qed
  have other: "filter (\<lambda>q. r_id q \<noteq> rid) ?stored = filter (\<lambda>q. r_id q \<noteq> rid) (storedManifests ?a d)"
    using arg_cong [OF other_rows_update [of "reported_row rid obs" rid "reported c obs" "runtimes d"],
      of "filter (\<lambda>r. r_account_id r = ?a \<and> r_deleted_at r = None \<and> sql_filled (r_blob_manifest_json r))"]
    by (simp add: storedManifests_def d' reported_row_def conj_commute conj_left_commute)
  note K = sumManifestBytes_sum [OF snapshot(9)]
  have "0 \<le> n" using storedBlobManifestBytes_bounds(1) [OF bytes] .
  have "sum_list (map ?B (filter (\<lambda>q. r_id q = rid) ?stored)) \<le> n"
    unfolding storedManifests_def filter_filter
    using filter_key_one [OF dist, of rid ?B n "\<lambda>q. r_account_id q = ?a \<and> r_deleted_at q = None
      \<and> sql_filled (r_blob_manifest_json q)"] own \<open>0 \<le> n\<close> by (simp add: rowBytes_def)
  moreover have "sum_list (map ?B (filter (\<lambda>q. r_id q \<noteq> rid) ?stored)) = k"
    using K by (simp add: other rowBytes_def [abs_def] o_def)
  ultimately have tot: "sum_list (map ?B ?stored) \<le> n + k"
    using sum_list_split [of ?B ?stored "\<lambda>q. r_id q = rid"] by simp
  have ok: "\<exists>b. storedBlobManifestBytes c (manifestText q) = Inr b" if "q \<in> set ?stored" for q
  proof (cases "r_id q = rid")
    case True
    then show ?thesis using own that by (auto simp: storedManifests_def)
  next
    case False
    with that have "q \<in> set (filter (\<lambda>q. r_id q \<noteq> rid) (storedManifests ?a d))" unfolding other [symmetric] by simp
    then show ?thesis using K by auto
  qed
  have le: "n + k \<le> e_storage_bytes_limit e" "e_storage_bytes_limit e \<le> MaxInt64" using snapshot(10) assms(5) e by auto
  have "accountStorageBytesUsed c ?a d' = Inr (sum_list (map ?B ?stored))"
    unfolding accountStorageBytesUsed_def using sumManifestBytes_ok [of "map manifestText ?stored" c 0] ok tot le assms(6) r(1)
    by (simp add: rowBytes_def [abs_def] o_def)
  then show ?thesis using r e tot le snapshot(11) by (intro bexI [of _ r]) auto
qed (use assms in auto)

section \<open>Snapshots only move forward\<close>

text \<open>
  The generation of the snapshot a runtime has, counted over all snapshots it ever had: the floor holds the
  generations of the snapshots that were cleared.
\<close>

definition storedSnapshot :: "ctx \<Rightarrow> runtime \<Rightarrow> storedBlobManifestUsage option" where
  "storedSnapshot c r = (case parseStoredBlobManifestUsage c (manifestText r) of Inr x \<Rightarrow> x | Inl _ \<Rightarrow> None)"

definition snapshotGeneration :: "ctx \<Rightarrow> runtime \<Rightarrow> int" where
  "snapshotGeneration c r = r_blob_generation_floor r
     + (case storedSnapshot c r of None \<Rightarrow> 0 | Some m \<Rightarrow> m_generation m)"

lemma digits_value_nonneg: "0 \<le> digits_value s"
proof -
  have "0 \<le> acc \<Longrightarrow> 0 \<le> foldl (\<lambda>acc ch. acc * 10 + int (digit_value ch)) acc s" for acc :: int
    by (induction s arbitrary: acc) auto
  then show ?thesis by (simp add: digits_value_def)
qed

lemma match_generations_nonneg: "\<forall>g \<in> set (match_generations s). 0 \<le> g"
  by (induction s rule: match_generations.induct)
    (auto simp: match_generation_def Let_def digits_value_nonneg split: option.splits if_splits)

lemma manifestGenerationSQL_nonneg: "0 \<le> manifestGenerationSQL raw"
proof -
  have "0 \<le> g \<Longrightarrow> 0 \<le> foldl max g gs" for g :: int and gs by (induction gs arbitrary: g) auto
  then show ?thesis using match_generations_nonneg [of "coalesce raw []"]
    by (auto simp: manifestGenerationSQL_def split: list.splits)
qed

lemma advance_generation:
  assumes "validateStoredBlobManifestAdvance c (manifestText r) (Some m) = Inr ()"
  shows "(case storedSnapshot c r of None \<Rightarrow> m_generation m = 1
    | Some cur \<Rightarrow> if m_snapshot_id m = m_snapshot_id cur then m_generation m = m_generation cur
        else m_generation m = m_generation cur + 1)"
proof (cases "parseStoredBlobManifestUsage c (manifestText r)")
  case (Inr x)
  with assms show ?thesis
    by (cases x) (auto simp: validateStoredBlobManifestAdvance_def storedSnapshot_def split: if_splits)
qed (use assms in \<open>simp add: validateStoredBlobManifestAdvance_def split: if_splits\<close>)

lemma parse_trim: "parseStoredBlobManifestUsage c (TrimSpace raw) = parseStoredBlobManifestUsage c raw"
  by (simp add: parseStoredBlobManifestUsage_def)

lemma recorded_snapshot:
  assumes "\<not> ob_ClearBlobManifest obs" and "TrimSpace (valueOrEmpty (ob_BlobManifestJSON obs)) \<noteq> []"
    and "parseStoredBlobManifestUsage c (TrimSpace (valueOrEmpty (ob_BlobManifestJSON obs))) = Inr (Some m)"
  shows "storedSnapshot c (reported c' obs r) = Some m"
  using assms by (simp add: storedSnapshot_def manifestText_def nullString_text)

lemma unreported_snapshot:
  assumes "TrimSpace (valueOrEmpty (ob_BlobManifestJSON obs)) = []"
  shows "storedSnapshot c (reported c' obs r) = (if ob_ClearBlobManifest obs then None else storedSnapshot c r)"
  using assms by (cases "ob_BlobManifestJSON obs")
    (auto simp: storedSnapshot_def manifestText_def nullString_def valueOrEmpty_def parseStoredBlobManifestUsage_def)

definition moves_forward :: "ctx \<Rightarrow> runtime \<Rightarrow> runtime \<Rightarrow> bool" where
  "moves_forward c r r' \<longleftrightarrow> snapshotGeneration c r \<le> snapshotGeneration c r'
     \<and> (\<forall>m m'. storedSnapshot c r = Some m \<and> storedSnapshot c r' = Some m' \<and> m_snapshot_id m' \<noteq> m_snapshot_id m
          \<longrightarrow> snapshotGeneration c r < snapshotGeneration c r')"

lemma advance_moves_forward:
  assumes "\<not> ob_ClearBlobManifest obs" and "TrimSpace (valueOrEmpty (ob_BlobManifestJSON obs)) \<noteq> []"
    and "parseStoredBlobManifestUsage c (TrimSpace (valueOrEmpty (ob_BlobManifestJSON obs))) = Inr (Some m)"
    and "validateStoredBlobManifestAdvance c (manifestText r) (Some m) = Inr ()"
  shows "moves_forward c r (reported c obs r)"
  using advance_generation [OF assms(4)] assms(1)
  by (auto simp: moves_forward_def snapshotGeneration_def recorded_snapshot [OF assms(1-3)] split: option.splits if_splits)

lemma plain_moves_forward:
  assumes "TrimSpace (valueOrEmpty (ob_BlobManifestJSON obs)) = []"
    and "\<forall>m. storedSnapshot c r = Some m \<longrightarrow> m_generation m \<le> manifestGenerationSQL (r_blob_manifest_json r)"
  shows "moves_forward c r (reported c obs r)"
  using assms(2) manifestGenerationSQL_nonneg [of "r_blob_manifest_json r"]
  by (auto simp: moves_forward_def snapshotGeneration_def unreported_snapshot [OF assms(1)] split: option.splits if_splits)

lemma moves_forward_refl: "moves_forward c r r"
  by (simp add: moves_forward_def)

lemma row_after_update:
  assumes "distinct (map key rs)" and "\<And>q. key (f q) = key q"
    and "r \<in> set rs" and "r' \<in> set (update_where P f rs)" and "key r' = key r"
  shows "r' = (if P r then f r else r)"
proof -
  obtain q where q: "q \<in> set rs" "r' = (if P q then f q else q)" using assms(4) by (auto simp: set_update_where)
  then have "key q = key r" using assms(2,5) by (metis (full_types))
  from key_eq_row [OF assms(1) q(1) assms(3) this] q(2) show ?thesis by (simp only:)
qed

lemma cleanup_done_subset: "set (runtimes (deleteAccountIfRuntimeCleanupDoneTX a d)) \<subseteq> set (runtimes d)"
  by (rule cleanup_done_cases [of a d]) auto


definition sample_report :: RuntimeObservation where
  "sample_report = \<lparr>ob_HostID = ''h1'', ob_Status = ''running'', ob_ConnectionStatus = ''online'',
     ob_ContainerName = Some ''c1'', ob_ADBPort = Some 5555, ob_LastError = None, ob_BlobStoreKind = Some ''local-disk'',
     ob_BlobManifestJSON = Some ''m2'', ob_BlobLastSnapshotAt = None, ob_LoadAverage = None,
     ob_ClearWipeRequested = False, ob_ActivePersonaJSON = None, ob_ClearActivePersona = False,
     ob_ClearBlobManifest = False, ob_CleanupComplete = False, ob_OperationGeneration = 2, ob_Deleted = False\<rparr>"

text \<open>A runtime with a snapshot of generation 1, in a manifest text that both readers understand.\<close>

definition sample_manifest :: string where
  "sample_manifest = generation_key @ '':1''"

definition sample_snapshot_ctx :: ctx where
  "sample_snapshot_ctx = sample_ctx\<lparr>unmarshal := (\<lambda>raw. if raw = sample_manifest
     then Some (StoredBlobManifestUsage 3 ''snap-1'' 1 4096 [4096] None) else unmarshal sample_ctx raw)\<rparr>"

definition sample_snapshot_db :: db where
  "sample_snapshot_db = sample_live\<lparr>runtimes := [sample_running\<lparr>r_blob_manifest_json := Some sample_manifest\<rparr>]\<rparr>"

lemma sample_snapshot_reported:
  "\<exists>d'. UpdateRuntimeObservation sample_snapshot_ctx ''r1'' sample_report sample_snapshot_db = Inr ((), d')"
proof -
  have "map_sum id (\<lambda>_. ()) (UpdateRuntimeObservation sample_snapshot_ctx ''r1'' sample_report sample_snapshot_db) = Inr ()"
    by code_simp
  then show ?thesis by (auto dest: sample_run)
qed

theorem UpdateRuntimeObservation_quota_witness:
  "\<exists>d' used. UpdateRuntimeObservation sample_snapshot_ctx ''r1'' sample_report sample_snapshot_db = Inr ((), d')
     \<and> accountStorageBytesUsed sample_snapshot_ctx ''a1'' d' = Inr used"
proof -
  obtain d' where d': "UpdateRuntimeObservation sample_snapshot_ctx ''r1'' sample_report sample_snapshot_db = Inr ((), d')"
    using sample_snapshot_reported by blast
  have m: "TrimSpace (valueOrEmpty (ob_BlobManifestJSON sample_report)) \<noteq> []" by code_simp
  have e: "\<forall>e \<in> set (account_entitlements sample_snapshot_db). e_storage_bytes_limit e \<le> MaxInt64" by code_simp
  have t: "\<forall>r \<in> set (runtimes sample_snapshot_db). TrimSpace (r_account_id r) = r_account_id r" by code_simp
  have "\<not> ob_Deleted sample_report" "distinct (map r_id (runtimes sample_snapshot_db))"
    by (simp_all add: sample_report_def sample_snapshot_db_def)
  from UpdateRuntimeObservation_quota [OF d' this(1) m this(2) e t] d' show ?thesis
    by (auto simp: sample_snapshot_db_def sample_running_def sample_runtime_def)
qed


end
