(* ===== verification/Addresses.thy ===== *)
theory Addresses
  imports Manifest
begin

text \<open>
  IP addresses as Go's \<open>net\<close> package reads and writes them: \<open>ParseIP\<close>, \<open>IsGlobalUnicast\<close> and \<open>String\<close>. An address
  is its eight 16-bit groups; an IPv4 address is the IPv4-mapped IPv6 address, as in Go's 16-byte form.
\<close>

type_synonym ip = "nat list"

section \<open>Digits\<close>

definition hex_value :: "char \<Rightarrow> nat option" where
  "hex_value ch =
     (let n = (of_char ch :: nat) in
      if 48 \<le> n \<and> n \<le> 57 then Some (n - 48)
      else if 97 \<le> n \<and> n \<le> 102 then Some (n - 87)
      else if 65 \<le> n \<and> n \<le> 70 then Some (n - 55)
      else None)"

definition is_hex :: "char \<Rightarrow> bool" where
  "is_hex ch \<longleftrightarrow> hex_value ch \<noteq> None"

definition hex_number :: "string \<Rightarrow> nat" where
  "hex_number = foldl (\<lambda>acc ch. acc * 16 + (case hex_value ch of None \<Rightarrow> 0 | Some v \<Rightarrow> v)) 0"

definition digit_char :: "nat \<Rightarrow> char" where
  "digit_char v = (if v < 10 then char_of (48 + v) else char_of (87 + v))"

text \<open>A number in base \<open>b\<close> (10 or 16) without leading zeros.\<close>

fun digits_in :: "nat \<Rightarrow> nat \<Rightarrow> string" where
  "digits_in b n = (if n < b \<or> b < 2 then [digit_char n] else digits_in b (n div b) @ [digit_char (n mod b)])"

declare digits_in.simps [simp del]

section \<open>Parsing\<close>

fun split_on :: "char \<Rightarrow> string \<Rightarrow> string list" where
  "split_on c [] = [[]]"
| "split_on c (x # xs) =
     (if x = c then [] # split_on c xs
      else case split_on c xs of [] \<Rightarrow> [[x]] | p # ps \<Rightarrow> (x # p) # ps)"

definition v4_field :: "string \<Rightarrow> nat option" where
  "v4_field p =
     (if p \<noteq> [] \<and> list_all is_digit p \<and> (length p = 1 \<or> hd p \<noteq> CHR ''0'') \<and> digits_value p \<le> 255
      then Some (nat (digits_value p)) else None)"

definition parseIPv4 :: "string \<Rightarrow> (nat \<times> nat) option" where
  "parseIPv4 s =
     (case map v4_field (split_on (CHR ''.'') s) of
        [Some a, Some b, Some c, Some d] \<Rightarrow> Some (a * 256 + b, c * 256 + d)
      | _ \<Rightarrow> None)"

text \<open>
  The loop over the groups of an IPv6 address: the groups read so far, where the ellipsis \<open>::\<close> stood, and the text left.
  There are at most eight groups, so the loop runs at most eight times.
\<close>

fun v6_groups :: "nat \<Rightarrow> string \<Rightarrow> nat list \<Rightarrow> nat option \<Rightarrow> (nat list \<times> nat option \<times> string) option" where
  "v6_groups 0 s gs ellipsis = Some (gs, ellipsis, s)"
| "v6_groups (Suc n) s gs ellipsis =
     (let h = takeWhile is_hex s; gs' = gs @ [hex_number h] in
      if h = [] \<or> length h > 4 then None
      else case drop (length h) s of
          [] \<Rightarrow> Some (gs', ellipsis, [])
        | ch # rest \<Rightarrow>
            if ch = CHR ''.''
            then if (ellipsis = None \<and> length gs \<noteq> 6) \<or> length gs > 6 then None
                 else (case parseIPv4 s of None \<Rightarrow> None | Some (a, b) \<Rightarrow> Some (gs @ [a, b], ellipsis, []))
            else if ch \<noteq> CHR '':'' \<or> rest = [] then None
            else if hd rest = CHR '':''
            then if ellipsis \<noteq> None then None
                 else if tl rest = [] then Some (gs', Some (length gs'), [])
                 else v6_groups n (tl rest) gs' (Some (length gs'))
            else v6_groups n rest gs' ellipsis)"

definition parseIPv6 :: "string \<Rightarrow> ip option" where
  "parseIPv6 s0 =
     (let starts = take 2 s0 = ''::''; s = (if starts then drop 2 s0 else s0) in
      if starts \<and> s = [] then Some (replicate 8 0)
      else case v6_groups 8 s [] (if starts then Some 0 else None) of
          None \<Rightarrow> None
        | Some (gs, ellipsis, rest) \<Rightarrow>
            if rest \<noteq> [] then None
            else if length gs < 8
            then (case ellipsis of None \<Rightarrow> None
                  | Some k \<Rightarrow> Some (take k gs @ replicate (8 - length gs) 0 @ drop k gs))
            else if ellipsis \<noteq> None then None
            else Some gs)"

definition v4_mapped :: "nat \<times> nat \<Rightarrow> ip" where
  "v4_mapped ab = [0, 0, 0, 0, 0, 65535, fst ab, snd ab]"

text \<open>An address with a zone (\<open>%eth0\<close>) is no IP for \<open>ParseIP\<close>.\<close>

definition ParseIP :: "string \<Rightarrow> ip option" where
  "ParseIP s =
     (case find (\<lambda>ch. ch = CHR ''.'' \<or> ch = CHR '':'' \<or> ch = CHR ''%'') s of
        None \<Rightarrow> None
      | Some ch \<Rightarrow>
          if ch = CHR ''.'' then map_option v4_mapped (parseIPv4 s)
          else if ch = CHR '':'' \<and> CHR ''%'' \<notin> set s then parseIPv6 s
          else None)"

section \<open>Kinds of addresses\<close>

definition is_v4 :: "ip \<Rightarrow> bool" where
  "is_v4 a \<longleftrightarrow> take 6 a = [0, 0, 0, 0, 0, 65535]"

definition IsUnspecified :: "ip \<Rightarrow> bool" where
  "IsUnspecified a \<longleftrightarrow> a = replicate 8 0 \<or> a = v4_mapped (0, 0)"

definition IsLoopback :: "ip \<Rightarrow> bool" where
  "IsLoopback a \<longleftrightarrow> (if is_v4 a then a ! 6 div 256 = 127 else a = [0, 0, 0, 0, 0, 0, 0, 1])"

definition IsMulticast :: "ip \<Rightarrow> bool" where
  "IsMulticast a \<longleftrightarrow> (if is_v4 a then a ! 6 div 4096 = 14 else a ! 0 div 256 = 255)"

definition IsLinkLocalUnicast :: "ip \<Rightarrow> bool" where
  "IsLinkLocalUnicast a \<longleftrightarrow> (if is_v4 a then a ! 6 = 169 * 256 + 254 else a ! 0 div 64 = 1018)"

definition IsGlobalUnicast :: "ip \<Rightarrow> bool" where
  "IsGlobalUnicast a \<longleftrightarrow>
     a \<noteq> v4_mapped (65535, 65535) \<and> \<not> IsUnspecified a \<and> \<not> IsLoopback a \<and> \<not> IsMulticast a
     \<and> \<not> IsLinkLocalUnicast a"

section \<open>Printing\<close>

fun join_with :: "string \<Rightarrow> string list \<Rightarrow> string" where
  "join_with sep [] = []"
| "join_with sep [x] = x"
| "join_with sep (x # y # xs) = x @ sep @ join_with sep (y # xs)"

text \<open>The first of the longest runs of at least two zero groups, as its start and end.\<close>

definition zero_run :: "ip \<Rightarrow> nat \<times> nat" where
  "zero_run a =
     foldl (\<lambda>(s, e) i. let l = length (takeWhile (\<lambda>g. g = 0) (drop i a)) in
              if 2 \<le> l \<and> e - s < l then (i, i + l) else (s, e)) (0, 0) [0..<8]"

definition v4_text :: "nat \<Rightarrow> nat \<Rightarrow> string" where
  "v4_text x y = join_with ''.'' (map (digits_in 10) [x div 256, x mod 256, y div 256, y mod 256])"

definition v6_text :: "ip \<Rightarrow> string" where
  "v6_text a =
     (let (s, e) = zero_run a; hex = map (digits_in 16) in
      if s = e then join_with '':'' (hex a)
      else join_with '':'' (hex (take s a)) @ ''::'' @ join_with '':'' (hex (drop e a)))"

definition IP_String :: "ip \<Rightarrow> string" where
  "IP_String a = (if is_v4 a then v4_text (a ! 6) (a ! 7) else v6_text a)"

end
