(* ===== verification/Provisioning.thy ===== *)
theory Provisioning
  imports NodeRegistry Addresses
begin

text \<open>
  Dedicated runtime VMs (\<open>internal/store/provisioning.go\<close>): the control plane decides which VMs should exist, one per
  account and some warm spares, the provisioner service reports what it did about each. A VM's row is never removed;
  \<open>desired = 'absent'\<close> asks for its deletion and \<open>state = 'deleted'\<close> records it.

  The random ids of new VMs (\<open>newProvisionedVMID\<close>) are parameters. The advisory lock serialises the operations that
  count VMs, so each of them is one step.
\<close>

section \<open>Policy, requests and reports\<close>

definition ProvisionerOperatorID :: string where
  "ProvisionerOperatorID = ''aleph-provisioner''"

definition maxProvisionerFailureRunes :: nat where
  "maxProvisionerFailureRunes = 1024"

definition maxProvisionerRefusalRunes :: nat where
  "maxProvisionerRefusalRunes = 512"

definition spareNodeQuietAfter :: duration where
  "spareNodeQuietAfter = 5 * minute"

text \<open>\<open>UpSince\<close> is \<open>None\<close> for the zero time.\<close>

record ProvisioningPolicy =
  pp_Regions :: "string list"
  pp_MaxVMs :: int
  pp_TrialMaxVMs :: int
  pp_WarmSpares :: int
  pp_SetupTimeout :: duration
  pp_RetireAfter :: duration
  pp_NodeSilentAfter :: duration
  pp_UpSince :: "time option"

text \<open>\<open>AllowTrialVM\<close> is a callback that is asked at most once: \<open>None\<close> when there is none, else its answer.\<close>

record VMRequest =
  vq_CleanupRuntimeID :: string
  vq_AllowTrialVM :: "bool option"

record ProvisionerReport =
  pr_State :: string
  pr_ItemHash :: string
  pr_CRNHash :: string
  pr_PublicIP :: string
  pr_NodePublicKey :: string
  pr_Failure :: string
  pr_Progress :: string
  pr_Refusal :: string

record ProvisioningSummary =
  ps_TimedOut :: nat
  ps_AccountsGone :: nat
  ps_Retired :: nat
  ps_NodeSilent :: nat
  ps_NodeSilentHeld :: nat
  ps_SparesCreated :: nat
  ps_RuntimesReset :: nat

definition ValidRegion :: "string \<Rightarrow> bool" where
  "ValidRegion region \<longleftrightarrow>
     region = [] \<or>
     (length region \<le> 32 \<and> hd region \<noteq> CHR ''-''
      \<and> list_all (\<lambda>ch. let n = (of_char ch :: nat) in
           (97 \<le> n \<and> n \<le> 122) \<or> (48 \<le> n \<and> n \<le> 57) \<or> ch = CHR ''-'') region)"

definition RegionIsProvisioned :: "ProvisioningPolicy \<Rightarrow> string \<Rightarrow> bool" where
  "RegionIsProvisioned p region0 \<longleftrightarrow>
     (let region = ToLower (TrimSpace region0) in
      region \<noteq> [] \<and> pp_MaxVMs p > 0
      \<and> list_ex (\<lambda>candidate. EqualFold (TrimSpace candidate) region) (pp_Regions p))"

definition AccountProvisionedRegion :: "string \<Rightarrow> ProvisioningPolicy \<Rightarrow> db \<Rightarrow> string res" where
  "AccountProvisionedRegion accountID policy d =
     ebind (of_row ErrAccountNotFound
              (find (\<lambda>a. a_id a = TrimSpace accountID \<and> a_deleted_at a = None) (accounts d))) (\<lambda>a.
       Inr (if RegionIsProvisioned policy (a_runtime_region a) then a_runtime_region a else []))"

section \<open>Queries\<close>

definition live_vm :: "provisioned_vm \<Rightarrow> bool" where
  "live_vm v \<longleftrightarrow> p_state v \<noteq> ''deleted''"

definition wanted_vm :: "provisioned_vm \<Rightarrow> bool" where
  "wanted_vm v \<longleftrightarrow> p_desired v = ''present''"

definition live_count :: "db \<Rightarrow> int" where
  "live_count d = int (count_where live_vm (provisioned_vms d))"

text \<open>\<open>trialVMsSQL\<close>: the live VMs of accounts whose entitlement is a trial or is gone.\<close>

definition entitlement_source :: "string \<Rightarrow> db \<Rightarrow> string option" where
  "entitlement_source accountID d =
     map_option e_source (find (\<lambda>e. e_account_id e = accountID) (account_entitlements d))"

definition trial_vm :: "db \<Rightarrow> provisioned_vm \<Rightarrow> bool" where
  "trial_vm d v \<longleftrightarrow> live_vm v \<and>
     (case p_account_id v of None \<Rightarrow> False
      | Some a \<Rightarrow> coalesce (entitlement_source a d) ''trial'' = ''trial'')"

definition trial_count :: "db \<Rightarrow> int" where
  "trial_count d = int (count_where (trial_vm d) (provisioned_vms d))"

text \<open>\<open>provisionedVMLastSeenSQL\<close>.\<close>

definition vm_last_seen :: "db \<Rightarrow> provisioned_vm \<Rightarrow> time" where
  "vm_last_seen d v =
     (case find (\<lambda>h. h_id h = p_id v) (hosts d) of
        Some h \<Rightarrow> h_last_heartbeat_at h
      | None \<Rightarrow> coalesce (p_ready_at v) (p_state_changed_at v))"

definition find_vm :: "string \<Rightarrow> db \<Rightarrow> provisioned_vm option" where
  "find_vm i d = find (\<lambda>v. p_id v = i) (provisioned_vms d)"

definition ProvisionedVM :: "string \<Rightarrow> db \<Rightarrow> provisioned_vm res" where
  "ProvisionedVM i d = of_row ErrProvisionedVMNotFound (find_vm (TrimSpace i) d)"

definition LiveProvisionedVM :: "string \<Rightarrow> db \<Rightarrow> provisioned_vm option" where
  "LiveProvisionedVM nodeID d =
     find (\<lambda>v. p_id v = TrimSpace nodeID \<and> live_vm v) (provisioned_vms d)"

definition ListProvisionedVMs :: "bool \<Rightarrow> db \<Rightarrow> provisioned_vm list" where
  "ListProvisionedVMs includeDeleted d =
     rev (sort_key p_requested_at (filter (\<lambda>v. includeDeleted \<or> live_vm v) (provisioned_vms d)))"

text \<open>The provisioner's work: each live VM, with its node's last heartbeat.\<close>

definition ProvisionerWork :: "db \<Rightarrow> (provisioned_vm \<times> time option) list" where
  "ProvisionerWork d =
     map (\<lambda>v. (v, map_option h_last_heartbeat_at (find (\<lambda>h. h_id h = p_id v) (hosts d))))
       (sort_key p_requested_at (filter live_vm (provisioned_vms d)))"

section \<open>Giving an account its VM\<close>

text \<open>\<open>INSERT INTO provisioned_vms (id, account_id, region)\<close>, with the table's key and its unique index.\<close>

definition new_vm :: "ctx \<Rightarrow> string \<Rightarrow> string option \<Rightarrow> string \<Rightarrow> provisioned_vm" where
  "new_vm c i accountID region =
     \<lparr>p_id = i, p_account_id = accountID, p_region = region, p_state = ''requested'', p_desired = ''present'',
      p_item_hash = [], p_crn_hash = [], p_public_ip = [], p_node_public_key = [], p_failure = [],
      p_retire_reason = [], p_progress = [], p_refusal = [], p_requested_at = db_now c,
      p_state_changed_at = db_now c, p_ready_at = None, p_last_used_at = db_now c, p_deleted_at = None\<rparr>"

definition insertVM :: "ctx \<Rightarrow> string \<Rightarrow> string option \<Rightarrow> string \<Rightarrow> provisioned_vm tx" where
  "insertVM c i accountID region d =
     (if \<exists>v \<in> set (provisioned_vms d). p_id v = i then Inl (ErrConstraint ''provisioned_vms_pkey'')
      else if accountID \<noteq> None \<and> (\<exists>v \<in> set (provisioned_vms d). p_account_id v = accountID \<and> wanted_vm v)
      then Inl (ErrConstraint ''idx_provisioned_vms_one_per_account'')
      else Inr (new_vm c i accountID region,
                d\<lparr>provisioned_vms := provisioned_vms d @ [new_vm c i accountID region]\<rparr>))"

text \<open>Whether a wipe or deletion removes stored data.\<close>

definition removesData :: "string \<Rightarrow> VMRequest \<Rightarrow> db \<Rightarrow> bool" where
  "removesData accountID request d \<longleftrightarrow>
     vq_CleanupRuntimeID request \<noteq> [] \<and>
     (\<exists>r \<in> set (runtimes d). r_id r = vq_CleanupRuntimeID request \<and> r_account_id r = accountID
        \<and> r_deleted_at r = None \<and> sql_filled (r_blob_manifest_json r))"

definition trialLimit :: "string \<Rightarrow> ProvisioningPolicy \<Rightarrow> VMRequest \<Rightarrow> db \<Rightarrow> int" where
  "trialLimit accountID policy request d =
     (if removesData accountID request d then max (2 * pp_TrialMaxVMs policy) 1 else pp_TrialMaxVMs policy)"

definition checkTrialVMLimitsTX :: "string \<Rightarrow> ProvisioningPolicy \<Rightarrow> VMRequest \<Rightarrow> db \<Rightarrow> unit res" where
  "checkTrialVMLimitsTX accountID policy request d =
     (if entitlement_source accountID d \<notin> {None, Some ''trial''} then Inr ()
      else if trial_count d \<ge> trialLimit accountID policy request d then Inl ErrTrialVMCapacity
      else if \<not> removesData accountID request d \<and> vq_AllowTrialVM request = Some False then Inl ErrTrialVMRate
      else Inr ())"

definition claimable :: "ctx \<Rightarrow> string \<Rightarrow> db \<Rightarrow> provisioned_vm \<Rightarrow> bool" where
  "claimable c region d v \<longleftrightarrow>
     p_account_id v = None \<and> wanted_vm v \<and> live_vm v \<and> p_region v = region
     \<and> \<not> (p_state v = ''ready'' \<and> vm_last_seen d v < db_now c - spareNodeQuietAfter)"

text \<open>\<open>ORDER BY (state = 'ready') DESC, requested_at\<close>.\<close>

definition sooner :: "provisioned_vm \<Rightarrow> provisioned_vm \<Rightarrow> bool" where
  "sooner v w \<longleftrightarrow>
     (p_state v = ''ready'' \<and> p_state w \<noteq> ''ready'')
     \<or> ((p_state v = ''ready'') = (p_state w = ''ready'') \<and> p_requested_at v < p_requested_at w)"

definition touch_row :: "ctx \<Rightarrow> provisioned_vm \<Rightarrow> provisioned_vm" where
  "touch_row c v = v\<lparr>p_last_used_at := db_now c\<rparr>"

definition claim_row :: "ctx \<Rightarrow> string \<Rightarrow> provisioned_vm \<Rightarrow> provisioned_vm" where
  "claim_row c accountID v = v\<lparr>p_account_id := Some accountID, p_last_used_at := db_now c\<rparr>"

text \<open>\<open>%q\<close> of a text of printable characters other than quotes and backslashes.\<close>

definition quoted :: "string \<Rightarrow> string" where
  "quoted s = CHR 0x22 # s @ [CHR 0x22]"

definition EnsureAccountVM ::
  "ctx \<Rightarrow> string \<Rightarrow> string \<Rightarrow> string \<Rightarrow> ProvisioningPolicy \<Rightarrow> VMRequest \<Rightarrow> provisioned_vm tx" where
  "EnsureAccountVM c newID accountID0 region0 policy request d =
     (let accountID = TrimSpace accountID0; region = ToLower (TrimSpace region0);
          mine = (\<lambda>v. p_account_id v = Some accountID \<and> wanted_vm v)
      in if \<not> RegionIsProvisioned policy region then Inl (ErrMsg (''region '' @ quoted region @ '' is not provisioned''))
         else case find mine (provisioned_vms d) of
           Some v \<Rightarrow> Inr (touch_row c v, d\<lparr>provisioned_vms := update_where mine (touch_row c) (provisioned_vms d)\<rparr>)
         | None \<Rightarrow>
             ebind (checkTrialVMLimitsTX accountID policy request d) (\<lambda>_.
             case best_by sooner (filter (claimable c region d) (provisioned_vms d)) of
               Some v \<Rightarrow> Inr (claim_row c accountID v,
                          d\<lparr>provisioned_vms := update_where (\<lambda>w. p_id w = p_id v) (claim_row c accountID)
                              (provisioned_vms d)\<rparr>)
             | None \<Rightarrow>
                 if live_count d \<ge> pp_MaxVMs policy then Inl ErrProvisioningCapacity
                 else insertVM c newID (Some accountID) region d))"

section \<open>Retiring a VM\<close>

definition retire_row :: "string \<Rightarrow> provisioned_vm \<Rightarrow> provisioned_vm" where
  "retire_row reason v =
     v\<lparr>p_desired := ''absent'', p_retire_reason := (if wanted_vm v then reason else p_retire_reason v)\<rparr>"

definition RetireProvisionedVM :: "string \<Rightarrow> string \<Rightarrow> provisioned_vm tx" where
  "RetireProvisionedVM i0 reason0 d =
     (let i = TrimSpace i0; reason = boundedRegistryText reason0 256 in
      ebind (of_row ErrProvisionedVMNotFound (find_vm i d)) (\<lambda>v.
        Inr (retire_row reason v,
             d\<lparr>provisioned_vms := update_where (\<lambda>w. p_id w = i) (retire_row reason) (provisioned_vms d)\<rparr>)))"

section \<open>The provisioner's reports\<close>

definition validItemHash :: "string \<Rightarrow> bool" where
  "validItemHash value \<longleftrightarrow> (let v = TrimSpace value in length v = 64 \<and> list_all is_hex v)"

text \<open>
  A report is several transactions: the revocation or the approval of the VM's node, the removal of its host, and the
  update of its row. What an earlier one did stays when a later one fails, so a report gives a result and a database.
\<close>

definition committed :: "'a res tx \<Rightarrow> db \<Rightarrow> 'a res \<times> db" where
  "committed t d = (case t d of Inl e \<Rightarrow> (Inl e, d) | Inr (r, d') \<Rightarrow> (r, d'))"

definition revokeVMNode :: "ctx \<Rightarrow> string \<Rightarrow> db \<Rightarrow> unit res \<times> db" where
  "revokeVMNode c i d =
     (let (r, d') = committed (RevokeNode c \<lparr>rn_NodeID = i, rn_Actor = ''provisioner'',
            rn_Reason = ''provisioned runtime VM deleted''\<rparr>) d
      in (case r of Inr _ \<Rightarrow> Inr ()
          | Inl e \<Rightarrow> if e = ErrApprovedNodeNotFound \<or> e = ErrApprovedNodeRevoked then Inr () else Inl e, d'))"

definition removeVMHost :: "string \<Rightarrow> db \<Rightarrow> db" where
  "removeVMHost i d =
     (if \<exists>r \<in> set (runtimes d). r_host_id r = Some i \<and> r_deleted_at r = None then d
      else d\<lparr>hosts := delete_where (\<lambda>h. h_id h = i) (hosts d),
             security_notice_deliveries := delete_where
               (\<lambda>n. nd_origin n = i \<and> (\<exists>h \<in> set (hosts d). h_id h = i)) (security_notice_deliveries d)\<rparr>)"

definition approveVMNode :: "ctx \<Rightarrow> string \<Rightarrow> string \<Rightarrow> db \<Rightarrow> unit res \<times> db" where
  "approveVMNode c i key d =
     (let (r, d') = committed (ApproveNode c \<lparr>an_NodeID = i, an_OperatorID = ProvisionerOperatorID,
            an_OperatorName = ''Aleph Cloud provisioner'', an_PublicKey = key, an_Actor = ''provisioner'',
            an_Reason = ''provisioned runtime VM '' @ i\<rparr>) d
      in (map_sum id (\<lambda>_. ()) r, d'))"

definition reportEffects ::
  "ctx \<Rightarrow> string \<Rightarrow> provisioned_vm \<Rightarrow> ProvisionerReport \<Rightarrow> db \<Rightarrow> (string \<times> string) res \<times> db" where
  "reportEffects c i current report d =
     (let state = TrimSpace (pr_State report); same = (Inr (pr_PublicIP report, []), d) in
      if state = [] then same
      else if state = ''deleted''
      then let (r, d1) = (if p_node_public_key current \<noteq> [] then revokeVMNode c i d else (Inr (), d)) in
           (case r of Inl e \<Rightarrow> (Inl e, d1) | Inr _ \<Rightarrow> (Inr (pr_PublicIP report, []), removeVMHost i d1))
      else if state = ''creating''
      then if \<not> validItemHash (pr_ItemHash report)
           then (Inl (ErrMsg ''item_hash must be a 64-character hex item hash''), d)
           else if pr_CRNHash report \<noteq> [] \<and> \<not> validItemHash (pr_CRNHash report)
           then (Inl (ErrMsg ''crn_hash must be a 64-character hex node hash''), d)
           else same
      else if state = ''unlocking''
      then (case ParseIP (TrimSpace (pr_PublicIP report)) of
              None \<Rightarrow> (Inl (ErrMsg ''public_ip must be a global unicast IP address''), d)
            | Some ip \<Rightarrow>
                if \<not> IsGlobalUnicast ip then (Inl (ErrMsg ''public_ip must be a global unicast IP address''), d)
                else (case normalizePublicKey c (pr_NodePublicKey report) of
                        None \<Rightarrow> (Inl (ErrMsg ''node_public_key''), d)
                      | Some (nodePublicKey, _) \<Rightarrow>
                          if p_node_public_key current \<noteq> [] \<and> p_node_public_key current \<noteq> nodePublicKey
                          then (Inl (ErrMsg ''a provisioned VM's node key cannot change''), d)
                          else if p_desired current \<noteq> ''present'' then (Inl ErrProvisionedVMTransition, d)
                          else let (r, d1) = approveVMNode c i nodePublicKey d
                               in (map_sum id (\<lambda>_. (IP_String ip, nodePublicKey)) r, d1)))
      else if state = ''requested''
      then if TrimSpace (pr_Refusal report) = [] then (Inl ErrProvisionedVMTransition, d) else same
      else if state = ''booting'' then same
      else (Inl ErrProvisionedVMTransition, d))"

definition allowedFrom :: "string \<Rightarrow> string list option" where
  "allowedFrom state =
     (if state = ''requested'' then Some [''requested'', ''creating'']
      else if state = ''creating'' then Some [''requested'', ''creating'']
      else if state = ''unlocking'' then Some [''creating'', ''unlocking'']
      else if state = ''booting'' then Some [''unlocking'', ''booting'']
      else None)"

definition containsString :: "string list \<Rightarrow> string \<Rightarrow> bool" where
  "containsString values target \<longleftrightarrow> list_ex (\<lambda>v. v = target) values"

text \<open>The update of the row: \<open>$2 = state\<close>, \<open>$5 = public_ip\<close>, \<open>$6 = nodePublicKey\<close> and so on.\<close>

definition report_row ::
  "ctx \<Rightarrow> ProvisionerReport \<Rightarrow> string \<Rightarrow> string \<Rightarrow> provisioned_vm \<Rightarrow> provisioned_vm" where
  "report_row c report publicIP nodePublicKey v =
     (let state = TrimSpace (pr_State report);
          itemHash = ToLower (TrimSpace (pr_ItemHash report));
          crnHash = ToLower (TrimSpace (pr_CRNHash report));
          failure = boundedRegistryText (pr_Failure report) maxProvisionerFailureRunes;
          progress = boundedRegistryText (pr_Progress report) 256;
          refusal = boundedRegistryText (pr_Refusal report) maxProvisionerRefusalRunes
      in v\<lparr>p_state := (if state = [] then p_state v else state),
           p_state_changed_at := (if state = [] \<or> state = p_state v then p_state_changed_at v else db_now c),
           p_item_hash := (if state = ''requested'' then [] else if itemHash = [] then p_item_hash v else itemHash),
           p_crn_hash := (if state = ''requested'' then [] else if crnHash = [] then p_crn_hash v else crnHash),
           p_public_ip := (if publicIP = [] then p_public_ip v else publicIP),
           p_node_public_key := (if nodePublicKey = [] then p_node_public_key v else nodePublicKey),
           p_failure := (if failure = [] then p_failure v else failure),
           p_desired := (if failure = [] then p_desired v else ''absent''),
           p_retire_reason := (if failure \<noteq> [] \<and> wanted_vm v then ''failed'' else p_retire_reason v),
           p_deleted_at := (if state = ''deleted'' then Some (db_now c) else p_deleted_at v),
           p_progress := (if progress \<noteq> [] then progress
                          else if state \<noteq> [] \<and> state \<noteq> p_state v then [] else p_progress v),
           p_refusal := (if refusal \<noteq> [] \<and> (state = ''requested'' \<or> (state = [] \<and> p_state v = ''requested''))
                         then refusal else if state \<noteq> [] then [] else p_refusal v)\<rparr>)"

definition ApplyProvisionerReport ::
  "ctx \<Rightarrow> string \<Rightarrow> ProvisionerReport \<Rightarrow> db \<Rightarrow> provisioned_vm res \<times> db" where
  "ApplyProvisionerReport c i0 report d =
     (let i = TrimSpace i0 in
      case ProvisionedVM i d of
        Inl e \<Rightarrow> (Inl e, d)
      | Inr current \<Rightarrow>
          if p_state current = ''deleted'' then (Inr current, d)
          else (case reportEffects c i current report d of
              (Inl e, d1) \<Rightarrow> (Inl e, d1)
            | (Inr (publicIP, nodePublicKey), d1) \<Rightarrow>
                if (case allowedFrom (TrimSpace (pr_State report)) of None \<Rightarrow> False
                    | Some from \<Rightarrow> \<not> containsString from (p_state current))
                then (Inl ErrProvisionedVMTransition, d1)
                else let named = (\<lambda>v. p_id v = i \<and> live_vm v); f = report_row c report publicIP nodePublicKey in
                     (case find named (provisioned_vms d1) of
                        None \<Rightarrow> (ProvisionedVM i d1, d1)
                      | Some v \<Rightarrow> (Inr (f v), d1\<lparr>provisioned_vms := update_where named f (provisioned_vms d1)\<rparr>))))"

definition ready_row :: "ctx \<Rightarrow> provisioned_vm \<Rightarrow> provisioned_vm" where
  "ready_row c v = v\<lparr>p_state := ''ready'', p_state_changed_at := db_now c,
     p_ready_at := Some (coalesce (p_ready_at v) (db_now c))\<rparr>"

definition MarkProvisionedVMReady :: "ctx \<Rightarrow> string \<Rightarrow> db \<Rightarrow> db" where
  "MarkProvisionedVMReady c nodeID d =
     d\<lparr>provisioned_vms := update_where
        (\<lambda>v. p_id v = TrimSpace nodeID \<and> (p_state v = ''unlocking'' \<or> p_state v = ''booting''))
        (ready_row c) (provisioned_vms d)\<rparr>"

section \<open>Applying the policy\<close>

definition update_vms :: "(provisioned_vm \<Rightarrow> bool) \<Rightarrow> (provisioned_vm \<Rightarrow> provisioned_vm) \<Rightarrow> db \<Rightarrow> db" where
  "update_vms P f d = d\<lparr>provisioned_vms := update_where P f (provisioned_vms d)\<rparr>"

definition overdue :: "ctx \<Rightarrow> ProvisioningPolicy \<Rightarrow> provisioned_vm \<Rightarrow> bool" where
  "overdue c policy v \<longleftrightarrow> wanted_vm v
     \<and> p_state v \<in> {''requested'', ''creating'', ''unlocking'', ''booting''}
     \<and> p_requested_at v < db_now c - max (pp_SetupTimeout policy) minute"

definition timed_out_row :: "provisioned_vm \<Rightarrow> provisioned_vm" where
  "timed_out_row v = v\<lparr>p_desired := ''absent'', p_retire_reason := ''setup-timeout'',
     p_failure := (if p_failure v \<noteq> [] then p_failure v else if p_refusal v \<noteq> [] then p_refusal v
                   else ''setup did not finish in time'')\<rparr>"

definition holds_runtime :: "db \<Rightarrow> provisioned_vm \<Rightarrow> bool" where
  "holds_runtime d v \<longleftrightarrow> (\<exists>r \<in> set (runtimes d). r_deleted_at r = None
     \<and> (r_host_id r = Some (p_id v) \<or> r_blob_host_id r = Some (p_id v)))"

definition owner_gone :: "db \<Rightarrow> provisioned_vm \<Rightarrow> bool" where
  "owner_gone d v \<longleftrightarrow> wanted_vm v \<and>
     (case p_account_id v of None \<Rightarrow> False
      | Some i \<Rightarrow> \<not> (\<exists>a \<in> set (accounts d). a_id a = i \<and> a_deleted_at a = None))"

definition unused :: "ctx \<Rightarrow> ProvisioningPolicy \<Rightarrow> db \<Rightarrow> provisioned_vm \<Rightarrow> bool" where
  "unused c policy d v \<longleftrightarrow> wanted_vm v \<and> p_account_id v \<noteq> None \<and> p_state v = ''ready''
     \<and> p_last_used_at v < db_now c - pp_RetireAfter policy \<and> \<not> holds_runtime d v"

definition absent_row :: "string \<Rightarrow> provisioned_vm \<Rightarrow> provisioned_vm" where
  "absent_row reason v = v\<lparr>p_desired := ''absent'', p_retire_reason := reason\<rparr>"

definition silent_row :: "provisioned_vm \<Rightarrow> provisioned_vm" where
  "silent_row v = v\<lparr>p_desired := ''absent'', p_retire_reason := ''node-silent'',
     p_failure := (if p_failure v = [] then ''its node stopped reporting'' else p_failure v)\<rparr>"

definition silent :: "ctx \<Rightarrow> ProvisioningPolicy \<Rightarrow> db \<Rightarrow> provisioned_vm \<Rightarrow> bool" where
  "silent c policy d v \<longleftrightarrow> wanted_vm v \<and> p_state v = ''ready''
     \<and> vm_last_seen d v < db_now c - pp_NodeSilentAfter policy"

text \<open>The rule is off, or the control plane has not been up long enough to have heard.\<close>

definition silence_ignored :: "ctx \<Rightarrow> ProvisioningPolicy \<Rightarrow> bool" where
  "silence_ignored c policy \<longleftrightarrow> pp_NodeSilentAfter policy \<le> 0
     \<or> (case pp_UpSince policy of None \<Rightarrow> True | Some t \<Rightarrow> go_now c - t < pp_NodeSilentAfter policy)"

definition retireSilentNodeVMsTX ::
  "ctx \<Rightarrow> ProvisioningPolicy \<Rightarrow> ProvisioningSummary \<times> db \<Rightarrow> ProvisioningSummary \<times> db" where
  "retireSilentNodeVMsTX c policy sd =
     (let (summary, d) = sd in
      if silence_ignored c policy then (summary, d)
      else let quiet = map p_id (filter (silent c policy d) (provisioned_vms d));
               ready = count_where (\<lambda>v. wanted_vm v \<and> p_state v = ''ready'') (provisioned_vms d);
               hit = (\<lambda>v. p_id v \<in> set quiet \<and> wanted_vm v \<and> p_state v = ''ready'')
           in if quiet = [] then (summary, d)
              else if length quiet \<ge> 3 \<and> length quiet * 2 > ready
              then (summary\<lparr>ps_NodeSilentHeld := length quiet\<rparr>, d)
              else (summary\<lparr>ps_NodeSilent := count_where hit (provisioned_vms d)\<rparr>, update_vms hit silent_row d))"

text \<open>
  A deleted VM took the snapshots on its disk with it. The runtimes that lived there forget them and may start again on
  the account's next VM; a snapshot in a remote store is kept.
\<close>

definition vm_deleted :: "db \<Rightarrow> string \<Rightarrow> bool" where
  "vm_deleted d i \<longleftrightarrow> (\<exists>v \<in> set (provisioned_vms d). p_id v = i \<and> p_state v = ''deleted'')"

definition on_deleted_vm :: "db \<Rightarrow> runtime \<Rightarrow> bool" where
  "on_deleted_vm d r \<longleftrightarrow> r_deleted_at r = None
     \<and> ((case r_host_id r of None \<Rightarrow> False | Some i \<Rightarrow> vm_deleted d i)
        \<or> (case r_blob_host_id r of None \<Rightarrow> False | Some i \<Rightarrow> vm_deleted d i))"

definition remote_snapshot :: "runtime \<Rightarrow> bool" where
  "remote_snapshot r \<longleftrightarrow> sql_filled (r_blob_manifest_json r) \<and> sql_store_kind (r_blob_store_kind r) \<noteq> ''local-disk''"

definition reset_row :: "ctx \<Rightarrow> runtime \<Rightarrow> runtime" where
  "reset_row c r =
     (let remote = remote_snapshot r; gone = (r_desired_state r = ''deleted'') in
      r\<lparr>r_host_id := None, r_blob_host_id := None,
        r_blob_manifest_json := (if remote then r_blob_manifest_json r else None),
        r_blob_generation_floor := (if remote then r_blob_generation_floor r
          else r_blob_generation_floor r + manifestGenerationSQL (r_blob_manifest_json r)),
        r_blob_last_snapshot_at := (if remote then r_blob_last_snapshot_at r else None),
        r_cleanup_pending := False, r_container_name := None, r_adb_port := None,
        r_viewer_port := (if gone \<and> \<not> remote then None else r_viewer_port r),
        r_started_at := None, r_connection_status := ''offline'',
        r_status := (if gone \<and> remote then ''deleting'' else if gone then ''deleted'' else ''stopped''),
        r_desired_state := (if gone then ''deleted'' else ''stopped''),
        r_deleted_at := (if gone \<and> \<not> remote then Some (db_now c) else None),
        r_operation_generation := r_operation_generation r + 1, r_updated_at := db_now c\<rparr>)"

definition lostRuntimeDataMessage :: string where
  "lostRuntimeDataMessage = ''This runtime's private server was replaced, and the data stored on it could not be kept. It starts fresh next time.''"

definition insertRuntimeLog :: "ctx \<Rightarrow> string \<Rightarrow> string \<Rightarrow> string \<Rightarrow> string \<Rightarrow> db \<Rightarrow> db" where
  "insertRuntimeLog c source level message i d =
     d\<lparr>runtime_logs := runtime_logs d @ [\<lparr>g_id = runtime_log_seq d, g_runtime_id = i, g_source = source,
          g_level = level, g_message = message, g_repeat_count = 1, g_created_at = db_now c,
          g_last_seen_at = None\<rparr>],
        runtime_log_seq := runtime_log_seq d + 1\<rparr>"

definition resetRuntimesOfDeletedVMs :: "ctx \<Rightarrow> ProvisioningSummary \<times> db \<Rightarrow> ProvisioningSummary \<times> db" where
  "resetRuntimesOfDeletedVMs c sd =
     (let (summary, d) = sd;
          affected = filter (on_deleted_vm d) (runtimes d);
          lost = map r_id (filter (\<lambda>r. r_desired_state r \<noteq> ''deleted'' \<and> \<not> remote_snapshot r) affected);
          d1 = d\<lparr>runtimes := update_where (on_deleted_vm d) (reset_row c) (runtimes d)\<rparr>
      in (summary\<lparr>ps_RuntimesReset := length affected\<rparr>,
          fold (insertRuntimeLog c ''control-plane'' ''warn'' lostRuntimeDataMessage) lost d1))"

text \<open>
  The loop that tops up one region's spares: the spares and live VMs it counts, how many it has made (which numbers the
  random ids), and the database.
\<close>

definition spare_count :: "string \<Rightarrow> db \<Rightarrow> int" where
  "spare_count region d = int (count_where
     (\<lambda>v. p_account_id v = None \<and> wanted_vm v \<and> live_vm v \<and> p_region v = region) (provisioned_vms d))"

function topUpSpares ::
  "ctx \<Rightarrow> (nat \<Rightarrow> string) \<Rightarrow> ProvisioningPolicy \<Rightarrow> string \<Rightarrow> int \<Rightarrow> int \<times> nat \<times> db \<Rightarrow> (int \<times> nat \<times> db) res" where
  "topUpSpares c newID policy region spares (live, created, d) =
     (if spares < pp_WarmSpares policy \<and> live < pp_MaxVMs policy
      then case insertVM c (newID created) None region d of
             Inl e \<Rightarrow> Inl e
           | Inr (_, d') \<Rightarrow> topUpSpares c newID policy region (spares + 1) (live + 1, created + 1, d')
      else Inr (live, created, d))"
  by pat_completeness auto
termination
  by (relation "measure (\<lambda>(c, newID, policy, region, spares, s). nat (pp_WarmSpares policy - spares))") auto

declare topUpSpares.simps [simp del]

definition topUpRegion ::
  "ctx \<Rightarrow> (nat \<Rightarrow> string) \<Rightarrow> ProvisioningPolicy \<Rightarrow> string \<Rightarrow> int \<times> nat \<times> db \<Rightarrow> (int \<times> nat \<times> db) res" where
  "topUpRegion c newID policy region0 s =
     (let region = ToLower (TrimSpace region0) in
      if \<not> ValidRegion region \<or> region = [] then Inr s
      else topUpSpares c newID policy region (spare_count region (snd (snd s))) s)"

definition topUpFleet ::
  "ctx \<Rightarrow> (nat \<Rightarrow> string) \<Rightarrow> ProvisioningPolicy \<Rightarrow> ProvisioningSummary \<times> db \<Rightarrow> (ProvisioningSummary \<times> db) res" where
  "topUpFleet c newID policy sd =
     (let (summary, d) = sd in
      if pp_MaxVMs policy > 0 \<and> pp_WarmSpares policy > 0
      then ebind (efold (topUpRegion c newID policy) (pp_Regions policy) (live_count d, ps_SparesCreated summary, d))
             (\<lambda>(live, created, d'). Inr (summary\<lparr>ps_SparesCreated := created\<rparr>, d'))
      else Inr (summary, d))"

text \<open>The updates of the policy up to the silent nodes.\<close>

definition retireByPolicy :: "ctx \<Rightarrow> ProvisioningPolicy \<Rightarrow> db \<Rightarrow> ProvisioningSummary \<times> db" where
  "retireByPolicy c policy d =
     (let timedOut = count_where (overdue c policy) (provisioned_vms d);
          d1 = update_vms (overdue c policy) timed_out_row d;
          d2 = update_vms (\<lambda>v. live_vm v \<and> wanted_vm v \<and> holds_runtime d1 v) (touch_row c) d1;
          accountsGone = count_where (owner_gone d2) (provisioned_vms d2);
          d3 = update_vms (owner_gone d2) (absent_row ''account-deleted'') d2;
          retire = pp_RetireAfter policy > 0;
          retired = (if retire then count_where (unused c policy d3) (provisioned_vms d3) else 0);
          d4 = (if retire then update_vms (unused c policy d3) (absent_row ''unused'') d3 else d3)
      in (\<lparr>ps_TimedOut = timedOut, ps_AccountsGone = accountsGone, ps_Retired = retired, ps_NodeSilent = 0,
           ps_NodeSilentHeld = 0, ps_SparesCreated = 0, ps_RuntimesReset = 0\<rparr>, d4))"

definition ReconcileProvisionedVMs ::
  "ctx \<Rightarrow> (nat \<Rightarrow> string) \<Rightarrow> ProvisioningPolicy \<Rightarrow> ProvisioningSummary tx" where
  "ReconcileProvisionedVMs c newID policy d =
     topUpFleet c newID policy
       (resetRuntimesOfDeletedVMs c (retireSilentNodeVMsTX c policy (retireByPolicy c policy d)))"

section \<open>Attestations of hosts\<close>

definition SetHostSNPAttestation :: "string \<Rightarrow> string \<Rightarrow> db \<Rightarrow> db" where
  "SetHostSNPAttestation hostID attestation d =
     d\<lparr>hosts := update_where (\<lambda>h. h_id h = TrimSpace hostID \<and> h_snp_attestation h \<noteq> attestation)
        (\<lambda>h. h\<lparr>h_snp_attestation := attestation\<rparr>) (hosts d)\<rparr>"

definition HostSNPAttestation :: "string \<Rightarrow> db \<Rightarrow> string" where
  "HostSNPAttestation hostID d =
     (case find (\<lambda>h. h_id h = TrimSpace hostID) (hosts d) of None \<Rightarrow> [] | Some h \<Rightarrow> h_snp_attestation h)"

section \<open>The fleet's invariant\<close>

text \<open>
  What the columns of a VM may hold together, and how a VM may change: it keeps its id, region and age, its account
  once it has one, and its node key once it has one; what is to be deleted stays so, and what is deleted stays deleted.
\<close>

definition vm_typed :: "provisioned_vm \<Rightarrow> bool" where
  "vm_typed v \<longleftrightarrow>
     p_state v \<in> {''requested'', ''creating'', ''unlocking'', ''booting'', ''ready'', ''deleted''}
     \<and> p_desired v \<in> {''present'', ''absent''}
     \<and> (p_deleted_at v \<noteq> None \<longleftrightarrow> p_state v = ''deleted'')
     \<and> (p_refusal v \<noteq> [] \<longrightarrow> p_state v = ''requested'')
     \<and> (p_state v = ''ready'' \<longrightarrow> p_ready_at v \<noteq> None)
     \<and> (p_state v \<in> {''creating'', ''unlocking'', ''booting'', ''ready''} \<longrightarrow> p_item_hash v \<noteq> [])
     \<and> (p_state v \<in> {''unlocking'', ''booting'', ''ready''} \<longrightarrow> p_node_public_key v \<noteq> [])"

definition evolves :: "provisioned_vm \<Rightarrow> provisioned_vm \<Rightarrow> bool" where
  "evolves v w \<longleftrightarrow>
     p_id w = p_id v \<and> p_region w = p_region v \<and> p_requested_at w = p_requested_at v
     \<and> (p_account_id v \<noteq> None \<longrightarrow> p_account_id w = p_account_id v)
     \<and> (p_desired v \<noteq> ''present'' \<longrightarrow> p_desired w \<noteq> ''present'')
     \<and> (p_state v = ''deleted'' \<longrightarrow> p_state w = ''deleted'')
     \<and> (p_node_public_key v \<noteq> [] \<longrightarrow> p_node_public_key w = p_node_public_key v)"

lemma evolves_refl [simp, intro]: "evolves v v"
  by (simp add: evolves_def)

lemma evolves_trans: "evolves u v \<Longrightarrow> evolves v w \<Longrightarrow> evolves u w"
  unfolding evolves_def by auto

definition owned_wanted :: "provisioned_vm \<Rightarrow> bool" where
  "owned_wanted v \<longleftrightarrow> p_account_id v \<noteq> None \<and> wanted_vm v"

definition fleet_wf :: "provisioned_vm list \<Rightarrow> bool" where
  "fleet_wf vs \<longleftrightarrow> distinct (map p_id vs) \<and> (\<forall>v \<in> set vs. vm_typed v) \<and> unique_where owned_wanted p_account_id vs"

lemma fleet_wfD:
  assumes "fleet_wf vs"
  shows "distinct (map p_id vs)" "v \<in> set vs \<Longrightarrow> vm_typed v" "unique_where owned_wanted p_account_id vs"
  using assms by (simp_all add: fleet_wf_def)

text \<open>Every row of a fleet has a successor in the next one.\<close>

definition fleet_evolves :: "provisioned_vm list \<Rightarrow> provisioned_vm list \<Rightarrow> bool" where
  "fleet_evolves vs ws \<longleftrightarrow> (\<forall>v \<in> set vs. \<exists>w \<in> set ws. evolves v w)"

lemma fleet_evolves_refl [simp, intro]: "fleet_evolves vs vs"
  unfolding fleet_evolves_def by blast

lemma fleet_evolves_trans: "fleet_evolves us vs \<Longrightarrow> fleet_evolves vs ws \<Longrightarrow> fleet_evolves us ws"
  unfolding fleet_evolves_def using evolves_trans by blast

lemma fleet_evolves_append [intro]: "fleet_evolves vs (vs @ ws)"
  unfolding fleet_evolves_def by auto

text \<open>The contract of a statement that updates rows of the fleet.\<close>

locale vm_change =
  fixes P :: "provisioned_vm \<Rightarrow> bool" and f :: "provisioned_vm \<Rightarrow> provisioned_vm"
  assumes history: "P v \<Longrightarrow> evolves v (f v)"
    and types: "P v \<Longrightarrow> vm_typed v \<Longrightarrow> vm_typed (f v)"
    and owner: "P v \<Longrightarrow> p_account_id (f v) = p_account_id v"
begin

lemma row_id: "P v \<Longrightarrow> p_id (f v) = p_id v"
  using history [of v] by (simp add: evolves_def)

lemma fleet_ids: "map p_id (update_where P f vs) = map p_id vs"
  by (rule map_update_where) (rule row_id)

lemma fleet_kept:
  assumes "fleet_wf vs"
  shows "fleet_wf (update_where P f vs)"
  unfolding fleet_wf_def
proof (intro conjI)
  show "distinct (map p_id (update_where P f vs))" using assms by (simp add: fleet_ids fleet_wf_def)
  show "\<forall>v \<in> set (update_where P f vs). vm_typed v"
    unfolding ball_update_where using types fleet_wfD(2) [OF assms] by auto
  show "unique_where owned_wanted p_account_id (update_where P f vs)"
    by (rule unique_where_update [OF fleet_wfD(3) [OF assms]])
      (use owner history in \<open>auto simp: owned_wanted_def wanted_vm_def evolves_def\<close>)
qed

lemma fleet_history: "fleet_evolves vs (update_where P f vs)"
  unfolding fleet_evolves_def
proof
  fix v assume v: "v \<in> set vs"
  show "\<exists>w \<in> set (update_where P f vs). evolves v w"
    by (rule bexI [of _ "if P v then f v else v"]) (use v history in \<open>auto simp: set_update_where\<close>)
qed

lemma fleet_live: "count_where live_vm (update_where P f vs) \<le> count_where live_vm vs"
  by (rule count_where_update_le) (use history in \<open>auto simp: live_vm_def evolves_def\<close>)

end

interpretation touch: vm_change P "touch_row c" for P c
  by unfold_locales (simp_all add: touch_row_def evolves_def vm_typed_def)

interpretation retire: vm_change P "retire_row reason" for P reason
  by unfold_locales (simp_all add: retire_row_def evolves_def vm_typed_def)

interpretation time_out: vm_change P timed_out_row for P
  by unfold_locales (simp_all add: timed_out_row_def evolves_def vm_typed_def)

interpretation absent: vm_change P "absent_row reason" for P reason
  by unfold_locales (simp_all add: absent_row_def evolves_def vm_typed_def)

interpretation silenced: vm_change P silent_row for P
  by unfold_locales (simp_all add: silent_row_def evolves_def vm_typed_def)

interpretation readied: vm_change "\<lambda>v. p_id v = i \<and> (p_state v = ''unlocking'' \<or> p_state v = ''booting'')" "ready_row c" for i c
proof unfold_locales
  fix v :: provisioned_vm assume v: "p_id v = i \<and> (p_state v = ''unlocking'' \<or> p_state v = ''booting'')"
  then have "p_state v \<noteq> ''deleted''" by auto
  then show "evolves v (ready_row c v)" by (simp add: evolves_def ready_row_def)
  show "vm_typed (ready_row c v)" if t: "vm_typed v"
  proof -
    from v t have "p_deleted_at v = None" "p_refusal v = []" "p_item_hash v \<noteq> []" "p_node_public_key v \<noteq> []"
      by (elim conjE disjE; simp add: vm_typed_def)+
    with t show ?thesis by (simp add: vm_typed_def ready_row_def)
  qed
qed (simp add: ready_row_def)

text \<open>A report that is applied to a row: its state may follow the row's, and its key is the row's if it has one.\<close>

definition reportable :: "ProvisionerReport \<Rightarrow> string \<Rightarrow> provisioned_vm \<Rightarrow> bool" where
  "reportable report key v \<longleftrightarrow>
     (let state = TrimSpace (pr_State report) in
      state \<in> {[], ''requested'', ''creating'', ''unlocking'', ''booting'', ''deleted''}
      \<and> (case allowedFrom state of None \<Rightarrow> True | Some from \<Rightarrow> p_state v \<in> set from)
      \<and> (if state = ''unlocking'' then key \<noteq> [] \<and> p_node_public_key v \<in> {[], key} else key = [])
      \<and> (state = ''creating'' \<longrightarrow> TrimSpace (pr_ItemHash report) \<noteq> []))"

lemma ToLower_Nil [simp]: "ToLower s = [] \<longleftrightarrow> s = []"
  by (simp add: ToLower_def)

lemma report_row_fields:
  "p_id (report_row c report ip key v) = p_id v"
  "p_region (report_row c report ip key v) = p_region v"
  "p_requested_at (report_row c report ip key v) = p_requested_at v"
  "p_account_id (report_row c report ip key v) = p_account_id v"
  "p_ready_at (report_row c report ip key v) = p_ready_at v"
  "p_state (report_row c report ip key v) =
     (if TrimSpace (pr_State report) = [] then p_state v else TrimSpace (pr_State report))"
  "p_desired (report_row c report ip key v) =
     (if boundedRegistryText (pr_Failure report) maxProvisionerFailureRunes = [] then p_desired v else ''absent'')"
  "p_node_public_key (report_row c report ip key v) = (if key = [] then p_node_public_key v else key)"
  "p_deleted_at (report_row c report ip key v) =
     (if TrimSpace (pr_State report) = ''deleted'' then Some (db_now c) else p_deleted_at v)"
  "p_item_hash (report_row c report ip key v) =
     (if TrimSpace (pr_State report) = ''requested'' then []
      else if TrimSpace (pr_ItemHash report) = [] then p_item_hash v else ToLower (TrimSpace (pr_ItemHash report)))"
  by (simp_all add: report_row_def Let_def)

lemma report_row_refusal:
  "TrimSpace (pr_State report) = [] \<Longrightarrow>
     p_refusal (report_row c report ip key v) \<noteq> [] \<longrightarrow> p_state v = ''requested'' \<or> p_refusal v \<noteq> []"
  "TrimSpace (pr_State report) \<noteq> [] \<Longrightarrow> TrimSpace (pr_State report) \<noteq> ''requested'' \<Longrightarrow>
     p_refusal (report_row c report ip key v) = []"
  by (simp_all add: report_row_def Let_def)

lemma reportable_cases:
  assumes "reportable report key v"
  obtains (remark) "TrimSpace (pr_State report) = []" "key = []"
  | (requested) "TrimSpace (pr_State report) = ''requested''" "key = []" "p_state v \<in> {''requested'', ''creating''}"
  | (creating) "TrimSpace (pr_State report) = ''creating''" "key = []" "p_state v \<in> {''requested'', ''creating''}"
      "TrimSpace (pr_ItemHash report) \<noteq> []"
  | (unlocking) "TrimSpace (pr_State report) = ''unlocking''" "key \<noteq> []" "p_state v \<in> {''creating'', ''unlocking''}"
      "p_node_public_key v \<in> {[], key}"
  | (booting) "TrimSpace (pr_State report) = ''booting''" "key = []" "p_state v \<in> {''unlocking'', ''booting''}"
  | (deleted) "TrimSpace (pr_State report) = ''deleted''" "key = []"
proof -
  obtain st where st: "TrimSpace (pr_State report) = st" by blast
  obtain it where it: "TrimSpace (pr_ItemHash report) = it" by blast
  note r = assms [unfolded reportable_def Let_def st it]
  from r [THEN conjunct1] consider "st = []" | "st = ''requested''" | "st = ''creating''" | "st = ''unlocking''"
    | "st = ''booting''" | "st = ''deleted''"
    unfolding insert_iff empty_iff by argo
  then show thesis
  proof cases
    case 1
    with r have q: "key = []"
      by (simp_all add: allowedFrom_def)
    show thesis by (rule remark) (use 1 q st it in simp_all)
  next
    case 2
    with r have q: "key = []" "p_state v \<in> {''requested'', ''creating''}"
      by (simp_all add: allowedFrom_def)
    show thesis by (rule requested) (use 2 q st it in simp_all)
  next
    case 3
    with r have q: "key = []" "p_state v \<in> {''requested'', ''creating''}" "it \<noteq> []"
      by (simp_all add: allowedFrom_def)
    show thesis by (rule creating) (use 3 q st it in simp_all)
  next
    case 4
    with r have q: "key \<noteq> []" "p_state v \<in> {''creating'', ''unlocking''}" "p_node_public_key v \<in> {[], key}"
      by (simp_all add: allowedFrom_def)
    show thesis by (rule unlocking) (use 4 q st it in simp_all)
  next
    case 5
    with r have q: "key = []" "p_state v \<in> {''unlocking'', ''booting''}"
      by (simp_all add: allowedFrom_def)
    show thesis by (rule booting) (use 5 q st it in simp_all)
  next
    case 6
    with r have q: "key = []"
      by (simp_all add: allowedFrom_def)
    show thesis by (rule deleted) (use 6 q st it in simp_all)
  qed
qed

lemma report_row_typed:
  assumes "live_vm v" "reportable report key v" "vm_typed v"
  shows "vm_typed (report_row c report ip key v)"
  using assms(2)
proof (cases rule: reportable_cases)
  case remark
  with report_row_refusal(1) [of report c ip key v] assms(3) have "p_refusal (report_row c report ip key v) \<noteq> [] \<longrightarrow> p_state v = ''requested''"
    unfolding vm_typed_def by metis
  with remark assms(1,3) show ?thesis by (simp add: vm_typed_def report_row_fields live_vm_def)
next
  case requested
  with assms(1,3) show ?thesis by (simp add: vm_typed_def report_row_fields live_vm_def)
next
  case creating
  then have "p_refusal (report_row c report ip key v) = []" by (intro report_row_refusal(2)) simp_all
  with creating(1,2,4) assms(1,3) show ?thesis by (simp add: vm_typed_def report_row_fields live_vm_def)
next
  case unlocking
  then have "p_refusal (report_row c report ip key v) = []" by (intro report_row_refusal(2)) simp_all
  moreover have "p_item_hash v \<noteq> []" using unlocking(3) assms(3) by (auto simp: vm_typed_def)
  ultimately show ?thesis using unlocking(1,2) assms(1,3) by (simp add: vm_typed_def report_row_fields live_vm_def)
next
  case booting
  then have "p_refusal (report_row c report ip key v) = []" by (intro report_row_refusal(2)) simp_all
  moreover have "p_item_hash v \<noteq> []" "p_node_public_key v \<noteq> []" using booting(3) assms(3) by (auto simp: vm_typed_def)
  ultimately show ?thesis using booting(1,2) assms(1,3) by (simp add: vm_typed_def report_row_fields live_vm_def)
next
  case deleted
  then have "p_refusal (report_row c report ip key v) = []" by (intro report_row_refusal(2)) simp_all
  with deleted assms(3) show ?thesis by (simp add: vm_typed_def report_row_fields)
qed

lemma report_row_evolves:
  assumes "live_vm v" "reportable report key v"
  shows "evolves v (report_row c report ip key v)"
  using assms(2)
proof (cases rule: reportable_cases)
  case unlocking
  then have "p_node_public_key v \<noteq> [] \<longrightarrow> key = p_node_public_key v" by blast
  with unlocking(1,2) assms(1) show ?thesis by (simp add: evolves_def report_row_fields live_vm_def)
qed (use assms(1) in \<open>simp_all add: evolves_def report_row_fields live_vm_def\<close>)

interpretation reported: vm_change "\<lambda>v. p_id v = i \<and> live_vm v \<and> reportable report key v" "report_row c report ip key"
  for i report key c ip
  by unfold_locales (blast intro: report_row_evolves report_row_typed report_row_fields(4))+

section \<open>Every operation keeps the invariant\<close>

text \<open>A change of the fleet that keeps its invariant, its history and its bound.\<close>

definition fleet_step :: "ProvisioningPolicy \<Rightarrow> db \<Rightarrow> db \<Rightarrow> bool" where
  "fleet_step policy d d' \<longleftrightarrow>
     (fleet_wf (provisioned_vms d) \<longrightarrow> fleet_wf (provisioned_vms d'))
     \<and> (fleet_wf (provisioned_vms d) \<longrightarrow> fleet_evolves (provisioned_vms d) (provisioned_vms d'))
     \<and> (fleet_wf (provisioned_vms d) \<longrightarrow> live_count d' \<le> max (live_count d) (pp_MaxVMs policy))"

lemma fleet_step_refl: "provisioned_vms d' = provisioned_vms d \<Longrightarrow> fleet_step policy d d'"
  by (auto simp: fleet_step_def live_count_def)

lemma fleet_step_trans: "fleet_step policy d d1 \<Longrightarrow> fleet_step policy d1 d2 \<Longrightarrow> fleet_step policy d d2"
  unfolding fleet_step_def by (auto intro: fleet_evolves_trans)

context vm_change
begin

lemma fleet_update: "provisioned_vms d' = update_where P f (provisioned_vms d) \<Longrightarrow> fleet_step policy d d'"
  unfolding fleet_step_def live_count_def
  using fleet_kept [of "provisioned_vms d"] fleet_history [of "provisioned_vms d"] fleet_live [of "provisioned_vms d"]
  by (simp add: max_def)

end

lemma new_vm_typed [simp]: "vm_typed (new_vm c i a region)"
  by (simp add: new_vm_def vm_typed_def)

lemma new_vm_fields [simp]:
  "p_id (new_vm c i a region) = i" "p_account_id (new_vm c i a region) = a" "p_region (new_vm c i a region) = region"
  "wanted_vm (new_vm c i a region)" "live_vm (new_vm c i a region)" "p_state (new_vm c i a region) = ''requested''"
  by (simp_all add: new_vm_def wanted_vm_def live_vm_def)

lemma insertVM_cases:
  assumes "insertVM c i a region d = Inr (v, d')"
  shows "v = new_vm c i a region" "d' = d\<lparr>provisioned_vms := provisioned_vms d @ [new_vm c i a region]\<rparr>"
    "i \<notin> p_id ` set (provisioned_vms d)"
    "a \<noteq> None \<Longrightarrow> w \<in> set (provisioned_vms d) \<Longrightarrow> wanted_vm w \<Longrightarrow> p_account_id w \<noteq> a"
  using assms by (auto simp: insertVM_def split: if_splits)

lemma insertVM_step:
  assumes "insertVM c i a region d = Inr (v, d')" "live_count d < pp_MaxVMs policy"
  shows "fleet_step policy d d'"
proof -
  note ins = insertVM_cases [OF assms(1)]
  have "fleet_wf (provisioned_vms d')" if "fleet_wf (provisioned_vms d)"
    using that ins(3,4) unfolding ins(2) fleet_wf_def
    by (auto simp: unique_where_append1 owned_wanted_def image_iff)
  moreover have "live_count d' = live_count d + 1" unfolding ins(2) live_count_def by simp
  ultimately show ?thesis using assms(2) unfolding fleet_step_def ins(2) by auto
qed

lemma claim_step:
  assumes "v \<in> set (provisioned_vms d)" "claimable c region d v"
    and "\<And>w. w \<in> set (provisioned_vms d) \<Longrightarrow> wanted_vm w \<Longrightarrow> p_account_id w \<noteq> Some a"
    and d': "d' = d\<lparr>provisioned_vms := update_where (\<lambda>w. p_id w = p_id v) (claim_row c a) (provisioned_vms d)\<rparr>"
  shows "fleet_step policy d d'"
proof (cases "fleet_wf (provisioned_vms d)")
  case wf: True
  let ?vs = "provisioned_vms d"
  have only: "w = v" if "w \<in> set ?vs" "p_id w = p_id v" for w
    using key_eq_row [OF fleet_wfD(1) [OF wf] that(1) assms(1) that(2)] .
  have v: "p_account_id v = None" using assms(2) by (simp add: claimable_def)
  have row: "p_id (claim_row c a w) = p_id w" "vm_typed (claim_row c a w) = vm_typed w" "live_vm (claim_row c a w) = live_vm w"
    for w by (simp_all add: claim_row_def vm_typed_def live_vm_def)
  have "fleet_wf (update_where (\<lambda>w. p_id w = p_id v) (claim_row c a) ?vs)"
    unfolding fleet_wf_def
  proof (intro conjI)
    show "distinct (map p_id (update_where (\<lambda>w. p_id w = p_id v) (claim_row c a) ?vs))"
      using fleet_wfD(1) [OF wf] by (simp add: map_update_where row)
    show "\<forall>w \<in> set (update_where (\<lambda>w. p_id w = p_id v) (claim_row c a) ?vs). vm_typed w"
      unfolding ball_update_where using fleet_wfD(2) [OF wf] row(2) by simp
    show "unique_where owned_wanted p_account_id (update_where (\<lambda>w. p_id w = p_id v) (claim_row c a) ?vs)"
    proof (rule unique_where_set_key [OF fleet_wfD(1,3) [OF wf]])
      show "\<And>r q. r \<in> set ?vs \<Longrightarrow> p_id r = p_id v \<Longrightarrow> owned_wanted (claim_row c a r) \<Longrightarrow> q \<in> set ?vs \<Longrightarrow>
          p_id q \<noteq> p_id v \<Longrightarrow> owned_wanted q \<Longrightarrow> p_account_id q \<noteq> p_account_id (claim_row c a r)"
        using assms(3) by (auto simp: owned_wanted_def claim_row_def)
    qed simp
  qed
  moreover have "fleet_evolves ?vs (update_where (\<lambda>w. p_id w = p_id v) (claim_row c a) ?vs)"
    unfolding fleet_evolves_def
  proof
    fix w assume w: "w \<in> set ?vs"
    show "\<exists>u \<in> set (update_where (\<lambda>w. p_id w = p_id v) (claim_row c a) ?vs). evolves w u"
      by (rule bexI [of _ "if p_id w = p_id v then claim_row c a w else w"])
        (use w only [OF w] v in \<open>auto simp: set_update_where evolves_def claim_row_def\<close>)
  qed
  moreover have "count_where live_vm (update_where (\<lambda>w. p_id w = p_id v) (claim_row c a) ?vs) = count_where live_vm ?vs"
    by (rule count_where_update_eq) (simp add: row)
  ultimately show ?thesis unfolding fleet_step_def d' live_count_def by simp
qed (simp add: fleet_step_def)

text \<open>What \<open>EnsureAccountVM\<close> does when it succeeds.\<close>

lemma EnsureAccountVM_cases:
  assumes "EnsureAccountVM c newID a0 region0 policy request d = Inr (v, d')"
  obtains (own) w where "find (\<lambda>v. p_account_id v = Some (TrimSpace a0) \<and> wanted_vm v) (provisioned_vms d) = Some w"
      "v = touch_row c w"
      "d' = d\<lparr>provisioned_vms := update_where (\<lambda>v. p_account_id v = Some (TrimSpace a0) \<and> wanted_vm v) (touch_row c)
          (provisioned_vms d)\<rparr>"
  | (spare) w where "find (\<lambda>v. p_account_id v = Some (TrimSpace a0) \<and> wanted_vm v) (provisioned_vms d) = None"
      "checkTrialVMLimitsTX (TrimSpace a0) policy request d = Inr ()"
      "best_by sooner (filter (claimable c (ToLower (TrimSpace region0)) d) (provisioned_vms d)) = Some w"
      "v = claim_row c (TrimSpace a0) w"
      "d' = d\<lparr>provisioned_vms := update_where (\<lambda>u. p_id u = p_id w) (claim_row c (TrimSpace a0)) (provisioned_vms d)\<rparr>"
  | (new) "find (\<lambda>v. p_account_id v = Some (TrimSpace a0) \<and> wanted_vm v) (provisioned_vms d) = None"
      "checkTrialVMLimitsTX (TrimSpace a0) policy request d = Inr ()"
      "live_count d < pp_MaxVMs policy"
      "insertVM c newID (Some (TrimSpace a0)) (ToLower (TrimSpace region0)) d = Inr (v, d')"
proof -
  obtain a where a: "TrimSpace a0 = a" by blast
  obtain region where rg: "ToLower (TrimSpace region0) = region" by blast
  note e = assms [unfolded EnsureAccountVM_def Let_def a rg]
  show thesis
    using e that [unfolded a rg]
    by (auto simp: res_simps split: option.splits if_splits)
qed

lemma EnsureAccountVM_step:
  assumes "EnsureAccountVM c newID a0 region0 policy request d = Inr (v, d')"
  shows "fleet_step policy d d'"
  using assms
proof (cases rule: EnsureAccountVM_cases)
  case (own w)
  then show ?thesis by (intro touch.fleet_update) simp
next
  case (spare w)
  have "w \<in> set (provisioned_vms d)" "claimable c (ToLower (TrimSpace region0)) d w"
    using best_by_in [OF spare(3)] by simp_all
  moreover have "wanted_vm u \<Longrightarrow> p_account_id u \<noteq> Some (TrimSpace a0)" if "u \<in> set (provisioned_vms d)" for u
    using spare(1) that unfolding find_None_iff by blast
  ultimately show ?thesis using spare(5) by (rule claim_step)
next
  case new
  show ?thesis by (rule insertVM_step [OF new(4,3)])
qed

lemma RetireProvisionedVM_step: "RetireProvisionedVM i reason d = Inr (v, d') \<Longrightarrow> fleet_step policy d d'"
  by (auto simp: RetireProvisionedVM_def Let_def res_simps intro!: retire.fleet_update)

lemma MarkProvisionedVMReady_step: "fleet_step policy d (MarkProvisionedVMReady c i d)"
  by (rule readied.fleet_update) (simp add: MarkProvisionedVMReady_def)

text \<open>The transactions a report makes in the registry leave the fleet and the runtimes alone.\<close>

lemma RevokeNode_frame:
  assumes "RevokeNode c input d = Inr (x, d')"
  shows "provisioned_vms d' = provisioned_vms d \<and> runtimes d' = runtimes d"
proof -
  obtain i where i: "normalizeRegistryID (rn_NodeID input) ''node id'' = Inr i"
    using assms unfolding RevokeNode_def by (auto simp: res_simps)
  obtain n where n: "find_node i d = Some n"
    using assms unfolding RevokeNode_def i by (auto simp: res_simps Let_def split: if_splits)
  show ?thesis
    using assms unfolding RevokeNode_def i ebind_simps n Let_def of_row_simps appendNodeRegistryAuditTX_def
    by (simp split: if_splits) auto
qed

lemma appendOperatorRegistryAuditTX_frame:
  "appendOperatorRegistryAuditTX a b e f d = Inr d' \<Longrightarrow> provisioned_vms d' = provisioned_vms d \<and> runtimes d' = runtimes d"
  by (auto simp: appendOperatorRegistryAuditTX_def split: if_splits)

lemma insertOperator_frame:
  "insertOperator c i n d = (b, d') \<Longrightarrow> provisioned_vms d' = provisioned_vms d \<and> runtimes d' = runtimes d"
  by (auto simp: insertOperator_def split: if_splits)

lemma insertNodeKey_frame:
  "insertNodeKey k d = Inr d' \<Longrightarrow> provisioned_vms d' = provisioned_vms d \<and> runtimes d' = runtimes d"
  by (auto simp: insertNodeKey_def split: if_splits)

lemma ApproveNode_frame:
  assumes "ApproveNode c input d = Inr (x, d')"
  shows "provisioned_vms d' = provisioned_vms d \<and> runtimes d' = runtimes d"
proof -
  obtain i j where ij: "normalizeRegistryID (an_NodeID input) ''node id'' = Inr i"
      "normalizeRegistryID (an_OperatorID input) ''operator id'' = Inr j"
    using assms unfolding ApproveNode_def by (auto simp: res_simps)
  obtain pk fp where key: "normalizeNodeKey c (an_PublicKey input) = Inr (pk, fp)"
    using assms unfolding ApproveNode_def ij by (auto simp: res_simps Let_def split: if_splits)
  define nm where "nm = (if boundedRegistryText (an_OperatorName input) 256 = [] then j else boundedRegistryText (an_OperatorName input) 256)"
  obtain b d1 where ins: "insertOperator c j nm d = (b, d1)" by (metis prod.exhaust)
  note ap = assms [unfolded ApproveNode_def ij ebind_simps key prod.case Let_def nm_def [symmetric] ins]
  obtain op where op: "find_operator j d1 = Some op"
    using ap by (auto simp: res_simps split: if_splits)
  define aud where "aud = appendOperatorRegistryAuditTX j ''approve'' (boundedRegistryText (an_Actor input) 256)
      (boundedRegistryText (an_Reason input) 1024) d1"
  obtain d2 where d2: "(if b then aud else Inr d1) = Inr d2"
    using ap unfolding op aud_def by (auto simp: res_simps split: if_splits)
  have "provisioned_vms d2 = provisioned_vms d \<and> runtimes d2 = runtimes d"
    using insertOperator_frame [OF ins] d2 unfolding aud_def
    by (auto split: if_splits dest!: appendOperatorRegistryAuditTX_frame)
  moreover have "provisioned_vms d' = provisioned_vms d2 \<and> runtimes d' = runtimes d2"
    using ap [unfolded op of_row_simps ebind_simps aud_def [symmetric] d2]
    by (auto simp: res_simps appendNodeRegistryAuditTX_def split: if_splits option.splits dest!: insertNodeKey_frame)
  ultimately show ?thesis by simp
qed

lemma revokeVMNode_frame:
  "revokeVMNode c i d = (x, d') \<Longrightarrow> provisioned_vms d' = provisioned_vms d \<and> runtimes d' = runtimes d"
  by (auto simp: revokeVMNode_def committed_def Let_def split: sum.splits prod.splits dest!: RevokeNode_frame)

lemma approveVMNode_frame:
  "approveVMNode c i k d = (x, d') \<Longrightarrow> provisioned_vms d' = provisioned_vms d \<and> runtimes d' = runtimes d"
  by (auto simp: approveVMNode_def committed_def Let_def split: sum.splits prod.splits dest!: ApproveNode_frame)

lemma removeVMHost_frame [simp]:
  "provisioned_vms (removeVMHost i d) = provisioned_vms d" "runtimes (removeVMHost i d) = runtimes d"
  by (simp_all add: removeVMHost_def)

lemma reportEffects_frame:
  assumes "reportEffects c i cur report d = (x, d')"
  shows "provisioned_vms d' = provisioned_vms d \<and> runtimes d' = runtimes d"
proof -
  obtain st where st: "TrimSpace (pr_State report) = st" by blast
  obtain ip where ip: "ParseIP (TrimSpace (pr_PublicIP report)) = ip" by blast
  show ?thesis
    using assms unfolding reportEffects_def st ip Let_def
    by (auto split: if_splits option.splits sum.splits prod.splits dest!: revokeVMNode_frame approveVMNode_frame)
qed

text \<open>The normal form of a key is a text (base64 of its encoding), never the empty one.\<close>

definition keys_filled :: "ctx \<Rightarrow> bool" where
  "keys_filled c \<longleftrightarrow> (\<forall>raw key print. normalizePublicKey c raw = Some (key, print) \<longrightarrow> key \<noteq> [])"

lemma validItemHash_filled: "validItemHash h \<Longrightarrow> TrimSpace h \<noteq> []"
  by (simp add: validItemHash_def Let_def) force

lemma reportEffects_reportable:
  assumes "reportEffects c i cur report d = (Inr (ip, key), d')" and "keys_filled c"
    and "case allowedFrom (TrimSpace (pr_State report)) of None \<Rightarrow> True | Some from \<Rightarrow> p_state cur \<in> set from"
  shows "reportable report key cur"
proof -
  obtain st where st: "TrimSpace (pr_State report) = st" by blast
  obtain pip where pip: "ParseIP (TrimSpace (pr_PublicIP report)) = pip" by blast
  note r = assms(1) [unfolded reportEffects_def st pip Let_def]
  have "st \<in> {[], ''requested'', ''creating'', ''unlocking'', ''booting'', ''deleted''}"
    using r by (simp split: if_splits)
  moreover have "key = []" if "st \<noteq> ''unlocking''"
    using r that by (simp split: if_splits sum.splits prod.splits)
  moreover have "key \<noteq> [] \<and> p_node_public_key cur \<in> {[], key}" if "st = ''unlocking''"
  proof -
    from r that obtain a n f where n: "pip = Some a" "normalizePublicKey c (pr_NodePublicKey report) = Some (n, f)"
      and k: "key = n" "p_node_public_key cur = [] \<or> p_node_public_key cur = n"
      by (auto split: if_splits option.splits prod.splits sum.splits simp: map_sum_def)
    with assms(2) show ?thesis by (auto simp: keys_filled_def)
  qed
  moreover have "TrimSpace (pr_ItemHash report) \<noteq> []" if "st = ''creating''"
    using r that by (auto split: if_splits dest: validItemHash_filled)
  ultimately show ?thesis using assms(3) unfolding reportable_def Let_def st by simp
qed

lemma containsString_iff [simp]: "containsString values target \<longleftrightarrow> target \<in> set values"
  by (auto simp: containsString_def list_ex_iff)

text \<open>Ids are unique, so a statement on the live row with an id is one on that row.\<close>

lemma find_vm_in: "find_vm i d = Some v \<Longrightarrow> v \<in> set (provisioned_vms d) \<and> p_id v = i"
  unfolding find_vm_def by (auto dest: find_SomeD)

lemma find_live_vm:
  assumes "find_vm i d = Some v" "live_vm v"
  shows "\<exists>w. find (\<lambda>v. p_id v = i \<and> live_vm v) (provisioned_vms d) = Some w"
  using find_vm_in [OF assms(1)] assms(2)
  by (cases "find (\<lambda>v. p_id v = i \<and> live_vm v) (provisioned_vms d)") (auto simp: find_None_iff)

lemma update_vm_cong:
  assumes "distinct (map p_id vs)" "v \<in> set vs" "p_id v = i" "Q v"
  shows "update_where (\<lambda>v. p_id v = i \<and> live_vm v) f vs = update_where (\<lambda>v. p_id v = i \<and> live_vm v \<and> Q v) f vs"
  unfolding update_where_def using key_eq_row [OF assms(1) _ assms(2)] assms(3,4)
  by (intro map_cong refl) (metis (full_types))

lemma ApplyProvisionerReport_cases:
  assumes "ApplyProvisionerReport c i report d = (x, d')"
  obtains (unknown) "find_vm (TrimSpace i) d = None" "x = Inl ErrProvisionedVMNotFound" "d' = d"
  | (deleted) cur where "find_vm (TrimSpace i) d = Some cur" "\<not> live_vm cur" "x = Inr cur" "d' = d"
  | (refused) cur e where "find_vm (TrimSpace i) d = Some cur" "live_vm cur" "x = Inl e"
      "provisioned_vms d' = provisioned_vms d" "runtimes d' = runtimes d"
  | (applied) cur ip key d1 v where "find_vm (TrimSpace i) d = Some cur" "live_vm cur"
      "reportEffects c (TrimSpace i) cur report d = (Inr (ip, key), d1)"
      "case allowedFrom (TrimSpace (pr_State report)) of None \<Rightarrow> True | Some from \<Rightarrow> p_state cur \<in> set from"
      "find (\<lambda>v. p_id v = TrimSpace i \<and> live_vm v) (provisioned_vms d) = Some v"
      "x = Inr (report_row c report ip key v)"
      "d' = d1\<lparr>provisioned_vms := update_where (\<lambda>v. p_id v = TrimSpace i \<and> live_vm v) (report_row c report ip key)
          (provisioned_vms d)\<rparr>" "runtimes d' = runtimes d"
proof -
  obtain st where st: "TrimSpace (pr_State report) = st" by blast
  obtain j where j: "TrimSpace i = j" by blast
  note a = assms [unfolded ApplyProvisionerReport_def ProvisionedVM_def Let_def j TrimSpace_idem [of i, unfolded j] st]
  show thesis
  proof (cases "find_vm j d")
    case None
    with a show thesis by (intro unknown [unfolded j]) simp_all
  next
    case cur: (Some cur)
    show thesis
    proof (cases "live_vm cur")
      case False
      with a cur show thesis by (intro deleted [unfolded j, OF cur]) (simp_all add: live_vm_def)
    next
      case live: True
      obtain w d1 where e: "reportEffects c j cur report d = (w, d1)" by (metis prod.exhaust)
      note fr = reportEffects_frame [OF e]
      show thesis
      proof (cases w)
        case (Inl err)
        with a cur live e have "x = Inl err" "d' = d1" by (simp_all add: live_vm_def)
        with fr show thesis by (intro refused [unfolded j, OF cur live, where e = err]) simp_all
      next
        case (Inr ik)
        obtain ip key where ik: "ik = (ip, key)" by (metis prod.exhaust)
        obtain v where v: "find (\<lambda>v. p_id v = j \<and> live_vm v) (provisioned_vms d) = Some v"
          using find_live_vm [OF cur live] by blast
        show thesis
        proof (cases "case allowedFrom st of None \<Rightarrow> True | Some from \<Rightarrow> p_state cur \<in> set from")
          case True
          then have "\<not> (case allowedFrom st of None \<Rightarrow> False | Some from \<Rightarrow> \<not> containsString from (p_state cur))"
            by (simp split: option.splits)
          with a cur live e v fr Inr ik have "x = Inr (report_row c report ip key v)"
            "d' = d1\<lparr>provisioned_vms := update_where (\<lambda>v. p_id v = j \<and> live_vm v) (report_row c report ip key) (provisioned_vms d)\<rparr>"
            by (simp_all add: live_vm_def)
          with e v fr Inr ik True show thesis by (intro applied [unfolded j st, OF cur live, of ip key d1 v]) simp_all
        next
          case False
          then have "case allowedFrom st of None \<Rightarrow> False | Some from \<Rightarrow> \<not> containsString from (p_state cur)"
            by (simp split: option.splits)
          with a cur live e Inr ik have "x = Inl ErrProvisionedVMTransition" "d' = d1" by (simp_all add: live_vm_def)
          with fr show thesis by (intro refused [unfolded j, OF cur live, where e = ErrProvisionedVMTransition]) simp_all
        qed
      qed
    qed
  qed
qed

lemma ApplyProvisionerReport_step:
  assumes "ApplyProvisionerReport c i report d = (x, d')" "keys_filled c"
  shows "fleet_step policy d d'"
  using assms(1)
proof (cases rule: ApplyProvisionerReport_cases)
  case (applied cur ip key d1 v)
  show ?thesis
  proof (cases "fleet_wf (provisioned_vms d)")
    case True
    note rep = reportEffects_reportable [OF applied(3) assms(2) applied(4)]
    have "provisioned_vms d' = update_where (\<lambda>v. p_id v = TrimSpace i \<and> live_vm v \<and> reportable report key v)
        (report_row c report ip key) (provisioned_vms d)"
      unfolding applied(7)
      using update_vm_cong [where Q = "reportable report key" and v = cur, OF fleet_wfD(1) [OF True]] find_vm_in [OF applied(1)] rep
      by simp
    then show ?thesis by (rule reported.fleet_update)
  qed (simp add: fleet_step_def)
qed (simp_all add: fleet_step_refl)

section \<open>The reconcile pass\<close>

text \<open>The spares a pass adds in a region are the new VMs with the ids it drew.\<close>

definition added :: "ctx \<Rightarrow> (nat \<Rightarrow> string) \<Rightarrow> string \<Rightarrow> nat \<Rightarrow> nat \<Rightarrow> provisioned_vm list" where
  "added c newID region n m = map (\<lambda>k. new_vm c (newID k) None region) [n..<m]"

lemma added_same [simp]: "added c newID region n n = []"
  by (simp add: added_def)

lemma added_Suc: "n < m \<Longrightarrow> added c newID region n m = new_vm c (newID n) None region # added c newID region (Suc n) m"
  by (simp add: added_def upt_rec)

lemma length_added [simp]: "length (added c newID region n m) = m - n"
  by (simp add: added_def)

lemma count_added: "(\<And>k. P (new_vm c (newID k) None region)) \<Longrightarrow> count_where P (added c newID region n m) = m - n"
  by (simp add: added_def count_where_def filter_map comp_def)

lemma topUpSpares_adds:
  assumes "topUpSpares c newID policy region spares (live, n, d) = Inr (live', n', d')" "live = live_count d"
  shows "n \<le> n' \<and> d' = d\<lparr>provisioned_vms := provisioned_vms d @ added c newID region n n'\<rparr>
     \<and> live' = live_count d' \<and> fleet_step policy d d'
     \<and> (pp_WarmSpares policy \<le> spares + int (n' - n) \<or> pp_MaxVMs policy \<le> live')"
  using assms
proof (induction c newID policy region spares "(live, n, d)" arbitrary: live n d rule: topUpSpares.induct)
  case (1 c newID policy region spares live n d)
  note unf = "1.prems"(1) [unfolded topUpSpares.simps [of c newID policy region spares live n d]]
  show ?case
  proof (cases "spares < pp_WarmSpares policy \<and> live < pp_MaxVMs policy")
    case False
    with unf have "live' = live" "n' = n" "d' = d" by simp_all
    then show ?thesis using "1.prems"(2) False by (simp add: fleet_step_refl linorder_not_less)
  next
    case True
    with unf obtain v d1 where ins: "insertVM c (newID n) None region d = Inr (v, d1)"
      and rest: "topUpSpares c newID policy region (spares + 1) (live + 1, n + 1, d1) = Inr (live', n', d')"
      by (auto split: sum.splits prod.splits)
    note ic = insertVM_cases [OF ins]
    have l1: "live + 1 = live_count d1" using "1.prems"(2) unfolding ic(2) live_count_def by simp
    have step: "fleet_step policy d d1" using ins True "1.prems"(2) by (intro insertVM_step) auto
    from "1.hyps" [OF True ins refl rest l1]
    have IH: "n + 1 \<le> n'" "d' = d1\<lparr>provisioned_vms := provisioned_vms d1 @ added c newID region (n + 1) n'\<rparr>"
      "live' = live_count d'" "fleet_step policy d1 d'"
      "pp_WarmSpares policy \<le> spares + 1 + int (n' - (n + 1)) \<or> pp_MaxVMs policy \<le> live'"
      by blast+
    have "d' = d\<lparr>provisioned_vms := provisioned_vms d @ added c newID region n n'\<rparr>"
      using IH(1) unfolding IH(2) ic(2) by (simp add: added_Suc [of n n'])
    moreover have "fleet_step policy d d'" using step IH(4) by (rule fleet_step_trans)
    ultimately show ?thesis using IH(1,3,5) by (auto simp: of_nat_diff)
  qed
qed

lemma topUpSpares_finishes:
  assumes "inj newID" "\<And>k. n \<le> k \<Longrightarrow> newID k \<notin> p_id ` set (provisioned_vms d)"
  shows "\<exists>s. topUpSpares c newID policy region spares (live, n, d) = Inr s"
  using assms
proof (induction c newID policy region spares "(live, n, d)" arbitrary: live n d rule: topUpSpares.induct)
  case (1 c newID policy region spares live n d)
  show ?case
  proof (cases "spares < pp_WarmSpares policy \<and> live < pp_MaxVMs policy")
    case False
    then show ?thesis by (subst topUpSpares.simps) auto
  next
    case True
    let ?d = "d\<lparr>provisioned_vms := provisioned_vms d @ [new_vm c (newID n) None region]\<rparr>"
    have ins: "insertVM c (newID n) None region d = Inr (new_vm c (newID n) None region, ?d)"
      using "1.prems"(2) [of n] by (simp add: insertVM_def image_iff) metis
    have "newID k \<notin> p_id ` set (provisioned_vms ?d)" if "n + 1 \<le> k" for k
      using "1.prems"(2) [of k] injD [OF "1.prems"(1), of k n] that by auto
    with "1.hyps" [OF True ins refl "1.prems"(1)]
    have "\<exists>s. topUpSpares c newID policy region (spares + 1) (live + 1, n + 1, ?d) = Inr s" by blast
    then show ?thesis using True ins by (subst topUpSpares.simps) simp
  qed
qed

text \<open>The regions a pass keeps spares in.\<close>

definition spare_region :: "string \<Rightarrow> bool" where
  "spare_region region \<longleftrightarrow> ValidRegion (ToLower (TrimSpace region)) \<and> TrimSpace region \<noteq> []"

definition topped_up :: "ProvisioningPolicy \<Rightarrow> string \<Rightarrow> db \<Rightarrow> bool" where
  "topped_up policy region d \<longleftrightarrow>
     pp_WarmSpares policy \<le> spare_count (ToLower (TrimSpace region)) d \<or> pp_MaxVMs policy \<le> live_count d"

text \<open>What a pass over some regions has done so far: VMs were only added, under ids drawn in order.\<close>

definition grown :: "ProvisioningPolicy \<Rightarrow> (nat \<Rightarrow> string) \<Rightarrow> nat \<times> db \<Rightarrow> nat \<times> db \<Rightarrow> bool" where
  "grown policy newID s s' \<longleftrightarrow> (case (s, s') of ((n, d), (n', d')) \<Rightarrow>
     n \<le> n' \<and> (\<exists>vs. d' = d\<lparr>provisioned_vms := provisioned_vms d @ vs\<rparr>
        \<and> map p_id vs = map newID [n..<n'] \<and> (\<forall>v \<in> set vs. p_state v = ''requested''))
     \<and> fleet_step policy d d')"

lemma grown_refl [simp]: "grown policy newID s s"
  by (auto simp: grown_def fleet_step_refl split: prod.splits intro!: exI [of _ "[]"])

lemma grown_trans:
  assumes "grown policy newID s s'" "grown policy newID s' s''"
  shows "grown policy newID s s''"
proof -
  obtain n d n' d' n'' d'' where s: "s = (n, d)" "s' = (n', d')" "s'' = (n'', d'')" by (metis prod.exhaust)
  from assms obtain vs ws where v: "n \<le> n'" "d' = d\<lparr>provisioned_vms := provisioned_vms d @ vs\<rparr>"
      "map p_id vs = map newID [n..<n']" "\<forall>v \<in> set vs. p_state v = ''requested''" "fleet_step policy d d'"
    and w: "n' \<le> n''" "d'' = d'\<lparr>provisioned_vms := provisioned_vms d' @ ws\<rparr>"
      "map p_id ws = map newID [n'..<n'']" "\<forall>v \<in> set ws. p_state v = ''requested''" "fleet_step policy d' d''"
    unfolding grown_def s by auto
  have "map p_id (vs @ ws) = map newID [n..<n'']"
    using v(1,3) w(1,3) by (metis map_append upt_add_eq_append le_Suc_ex)
  moreover have "fleet_step policy d d''" using v(5) w(5) by (rule fleet_step_trans)
  ultimately show ?thesis unfolding grown_def s using v(1,2,4) w(1,2,4)
    by (auto intro!: exI [of _ "vs @ ws"])
qed

lemma topped_up_grown: "topped_up policy region d \<Longrightarrow> grown policy newID (n, d) (n', d') \<Longrightarrow> topped_up policy region d'"
  by (auto simp: topped_up_def grown_def spare_count_def live_count_def)

lemma topUpRegion_grown:
  assumes "topUpRegion c newID policy region (live, n, d) = Inr (live', n', d')" "live = live_count d"
  shows "live' = live_count d' \<and> grown policy newID (n, d) (n', d') \<and> (spare_region region \<longrightarrow> topped_up policy region d')"
proof -
  obtain r where r: "ToLower (TrimSpace region) = r" by blast
  have sr: "spare_region region \<longleftrightarrow> ValidRegion r \<and> r \<noteq> []"
    unfolding spare_region_def r [symmetric] by simp
  show ?thesis
  proof (cases "ValidRegion r \<and> r \<noteq> []")
    case True
    with assms(1) have "topUpSpares c newID policy r (spare_count r d) (live, n, d) = Inr (live', n', d')"
      unfolding topUpRegion_def r Let_def by auto
    note add = topUpSpares_adds [OF this assms(2)]
    let ?vs = "added c newID r n n'"
    have ids: "map p_id ?vs = map newID [n..<n']" by (simp add: added_def)
    have st: "\<forall>v \<in> set ?vs. p_state v = ''requested''" by (auto simp: added_def)
    have "spare_count r d' = spare_count r d + int (n' - n)"
      using add by (simp add: spare_count_def count_added)
    then have "topped_up policy region d'" using add unfolding topped_up_def r by auto
    moreover have "grown policy newID (n, d) (n', d')"
      using add ids st unfolding grown_def by (auto intro!: exI [of _ ?vs])
    ultimately show ?thesis using add by blast
  next
    case False
    with assms show ?thesis unfolding topUpRegion_def r Let_def sr by auto
  qed
qed

lemma topUpRegions_grown:
  assumes "efold (topUpRegion c newID policy) regions (live, n, d) = Inr (live', n', d')" "live = live_count d"
  shows "live' = live_count d' \<and> grown policy newID (n, d) (n', d')
     \<and> (\<forall>region \<in> set regions. spare_region region \<longrightarrow> topped_up policy region d')"
  using assms
proof (induction regions arbitrary: live n d)
  case (Cons region regions)
  from Cons.prems(1) obtain live1 n1 d1 where one: "topUpRegion c newID policy region (live, n, d) = Inr (live1, n1, d1)"
    and rest: "efold (topUpRegion c newID policy) regions (live1, n1, d1) = Inr (live', n', d')"
    by (auto simp: res_simps)
  note g = topUpRegion_grown [OF one Cons.prems(2)]
  note IH = Cons.IH [OF rest conjunct1 [OF g]]
  have "spare_region region \<longrightarrow> topped_up policy region d'" using g IH by (blast intro: topped_up_grown)
  moreover have "grown policy newID (n, d) (n', d')"
    using conjunct1 [OF conjunct2 [OF g]] conjunct1 [OF conjunct2 [OF IH]] by (rule grown_trans)
  ultimately show ?case using IH by simp
qed simp

lemma topUpRegions_finish:
  assumes "inj newID" "\<And>k. n \<le> k \<Longrightarrow> newID k \<notin> p_id ` set (provisioned_vms d)" "live = live_count d"
  shows "\<exists>s. efold (topUpRegion c newID policy) regions (live, n, d) = Inr s"
  using assms(2,3)
proof (induction regions arbitrary: live n d)
  case (Cons region regions)
  have "\<exists>s. topUpRegion c newID policy region (live, n, d) = Inr s"
    unfolding topUpRegion_def Let_def using topUpSpares_finishes [OF assms(1) Cons.prems(1)] by simp
  then obtain live1 n1 d1 where one: "topUpRegion c newID policy region (live, n, d) = Inr (live1, n1, d1)"
    by (metis prod.exhaust)
  from topUpRegion_grown [OF one Cons.prems(2)] have g: "live1 = live_count d1" "grown policy newID (n, d) (n1, d1)"
    by blast+
  then obtain vs where vs: "n \<le> n1" "provisioned_vms d1 = provisioned_vms d @ vs" "map p_id vs = map newID [n..<n1]"
    unfolding grown_def by auto
  have "newID k \<notin> p_id ` set (provisioned_vms d1)" if "n1 \<le> k" for k
  proof -
    have "p_id ` set vs = newID ` {n..<n1}" using vs(3) by (metis set_map set_upt)
    moreover have "newID k \<notin> newID ` {n..<n1}" using inj_image_mem_iff [OF assms(1)] that by auto
    ultimately show ?thesis using Cons.prems(1) [of k] vs(1,2) that by (simp add: image_Un)
  qed
  from Cons.IH [OF this g(1)] one show ?case by simp
qed simp

text \<open>The statements of the policy, one after the other.\<close>

lemma retireByPolicy_stages:
  obtains d1 d2 d3 where "d1 = update_vms (overdue c policy) timed_out_row d"
    "d2 = update_vms (\<lambda>v. live_vm v \<and> wanted_vm v \<and> holds_runtime d1 v) (touch_row c) d1"
    "d3 = update_vms (owner_gone d2) (absent_row ''account-deleted'') d2"
    "snd (retireByPolicy c policy d) =
       (if pp_RetireAfter policy > 0 then update_vms (unused c policy d3) (absent_row ''unused'') d3 else d3)"
    "ps_NodeSilentHeld (fst (retireByPolicy c policy d)) = 0"
  by (rule that [OF refl refl refl]) (simp_all add: retireByPolicy_def Let_def)

context vm_change
begin

lemma statement_step: "fleet_step policy d (update_vms P f d)"
  by (rule fleet_update) (simp add: update_vms_def)

end

lemma retireByPolicy_step: "fleet_step policy d (snd (retireByPolicy c policy d))"
proof (rule retireByPolicy_stages [of c policy d])
  fix d1 d2 d3
  assume st: "d1 = update_vms (overdue c policy) timed_out_row d"
    "d2 = update_vms (\<lambda>v. live_vm v \<and> wanted_vm v \<and> holds_runtime d1 v) (touch_row c) d1"
    "d3 = update_vms (owner_gone d2) (absent_row ''account-deleted'') d2"
    "snd (retireByPolicy c policy d) =
       (if pp_RetireAfter policy > 0 then update_vms (unused c policy d3) (absent_row ''unused'') d3 else d3)"
  have "fleet_step policy d d1" unfolding st(1) by (rule time_out.statement_step)
  moreover have "fleet_step policy d1 d2" unfolding st(2) by (rule touch.statement_step)
  moreover have "fleet_step policy d2 d3" unfolding st(3) by (rule absent.statement_step)
  ultimately have "fleet_step policy d d3" using fleet_step_trans by blast
  moreover have "fleet_step policy d3 (snd (retireByPolicy c policy d))"
    unfolding st(4) using absent.statement_step fleet_step_refl [OF refl] by (cases "pp_RetireAfter policy > 0") simp_all
  ultimately show ?thesis by (rule fleet_step_trans)
qed

lemma retireSilent_cases:
  obtains (ignored) "silence_ignored c policy" "retireSilentNodeVMsTX c policy sd = sd"
  | (none) "filter (silent c policy (snd sd)) (provisioned_vms (snd sd)) = []" "retireSilentNodeVMsTX c policy sd = sd"
  | (held) "snd (retireSilentNodeVMsTX c policy sd) = snd sd" "ps_NodeSilentHeld (fst (retireSilentNodeVMsTX c policy sd)) \<ge> 3"
  | (retired) "snd (retireSilentNodeVMsTX c policy sd) =
        update_vms (\<lambda>v. p_id v \<in> p_id ` {v \<in> set (provisioned_vms (snd sd)). silent c policy (snd sd) v}
          \<and> wanted_vm v \<and> p_state v = ''ready'') silent_row (snd sd)"
proof -
  obtain s d where sd: "sd = (s, d)" by (metis prod.exhaust)
  define quiet where "quiet = map p_id (filter (silent c policy d) (provisioned_vms d))"
  define ready where "ready = count_where (\<lambda>v. wanted_vm v \<and> p_state v = ''ready'') (provisioned_vms d)"
  have q: "set quiet = p_id ` {v \<in> set (provisioned_vms d). silent c policy d v}" by (auto simp: quiet_def)
  note unf = retireSilentNodeVMsTX_def Let_def prod.case sd quiet_def [symmetric] ready_def [symmetric]
  consider "silence_ignored c policy" | "\<not> silence_ignored c policy" "quiet = []"
    | "\<not> silence_ignored c policy" "quiet \<noteq> []" "length quiet \<ge> 3 \<and> length quiet * 2 > ready"
    | "\<not> silence_ignored c policy" "quiet \<noteq> []" "\<not> (length quiet \<ge> 3 \<and> length quiet * 2 > ready)"
    by blast
  then show thesis
  proof cases
    case 1 then show thesis by (intro ignored) (simp_all add: unf)
  next
    case 2
    then have "filter (silent c policy d) (provisioned_vms d) = []" by (simp add: quiet_def)
    moreover have "retireSilentNodeVMsTX c policy sd = sd" using 2 unfolding unf by simp
    ultimately show thesis using sd by (intro none) simp_all
  next
    case 3
    then have "retireSilentNodeVMsTX c policy sd = (s\<lparr>ps_NodeSilentHeld := length quiet\<rparr>, d)" unfolding unf by simp
    with 3 sd show thesis by (intro held) simp_all
  next
    case 4
    then have "snd (retireSilentNodeVMsTX c policy sd) =
        update_vms (\<lambda>v. p_id v \<in> set quiet \<and> wanted_vm v \<and> p_state v = ''ready'') silent_row d"
      unfolding unf by (simp only: if_False snd_conv)
    then show thesis by (intro retired) (simp only: q sd snd_conv)
  qed
qed

lemma retireSilent_step: "fleet_step policy (snd sd) (snd (retireSilentNodeVMsTX c policy sd))"
proof (cases rule: retireSilent_cases [of c policy sd])
  case retired
  show ?thesis unfolding retired by (rule silenced.statement_step)
qed (simp_all add: fleet_step_refl)

lemma fold_insertRuntimeLog_frame [simp]:
  "provisioned_vms (fold (insertRuntimeLog c s l m) is d) = provisioned_vms d"
  "runtimes (fold (insertRuntimeLog c s l m) is d) = runtimes d"
  "accounts (fold (insertRuntimeLog c s l m) is d) = accounts d"
  by (induction "is" arbitrary: d) (simp_all add: insertRuntimeLog_def)

lemma reset_frame [simp]:
  "provisioned_vms (snd (resetRuntimesOfDeletedVMs c sd)) = provisioned_vms (snd sd)"
  "runtimes (snd (resetRuntimesOfDeletedVMs c sd)) = update_where (on_deleted_vm (snd sd)) (reset_row c) (runtimes (snd sd))"
  "accounts (snd (resetRuntimesOfDeletedVMs c sd)) = accounts (snd sd)"
  by (simp_all add: resetRuntimesOfDeletedVMs_def Let_def split_def)

lemma ReconcileProvisionedVMs_cases:
  assumes "ReconcileProvisionedVMs c newID policy d = Inr (s, d')"
  obtains n n' sd where "sd = resetRuntimesOfDeletedVMs c (retireSilentNodeVMsTX c policy (retireByPolicy c policy d))"
    "grown policy newID (n, snd sd) (n', d')" "ps_NodeSilentHeld s = ps_NodeSilentHeld (fst sd)"
proof -
  define sd where "sd = resetRuntimesOfDeletedVMs c (retireSilentNodeVMsTX c policy (retireByPolicy c policy d))"
  obtain s0 d0 where sd: "sd = (s0, d0)" by (metis prod.exhaust)
  from assms have t: "topUpFleet c newID policy (s0, d0) = Inr (s, d')"
    unfolding ReconcileProvisionedVMs_def sd_def [symmetric] sd .
  show thesis
  proof (cases "pp_MaxVMs policy > 0 \<and> pp_WarmSpares policy > 0")
    case True
    with t obtain live created where f: "efold (topUpRegion c newID policy) (pp_Regions policy)
        (live_count d0, ps_SparesCreated s0, d0) = Inr (live, created, d')" and s: "s = s0\<lparr>ps_SparesCreated := created\<rparr>"
      by (auto simp: topUpFleet_def res_simps)
    from topUpRegions_grown [OF f refl] have "grown policy newID (ps_SparesCreated s0, d0) (created, d')" by blast
    with s sd show thesis by (intro that [OF sd_def, of "ps_SparesCreated s0" created]) simp_all
  next
    case False
    with t sd have "s = s0" "d' = d0" by (auto simp: topUpFleet_def)
    with sd show thesis by (intro that [OF sd_def, of 0 0]) simp_all
  qed
qed

lemma ReconcileProvisionedVMs_step:
  assumes "ReconcileProvisionedVMs c newID policy d = Inr (s, d')"
  shows "fleet_step policy d d'"
  using assms
proof (cases rule: ReconcileProvisionedVMs_cases)
  case (1 n n' sd)
  let ?sd1 = "retireByPolicy c policy d" and ?sd2 = "retireSilentNodeVMsTX c policy (retireByPolicy c policy d)"
  have "fleet_step policy d (snd ?sd2)" by (rule fleet_step_trans [OF retireByPolicy_step retireSilent_step])
  moreover have "fleet_step policy (snd ?sd2) (snd sd)" unfolding 1(1) by (rule fleet_step_refl) simp
  moreover have "fleet_step policy (snd sd) d'" using 1(2) by (simp add: grown_def)
  ultimately show ?thesis by (blast intro: fleet_step_trans)
qed

section \<open>Runs of the fleet\<close>

text \<open>The steps of the control plane on its fleet, under one policy, in any order.\<close>

inductive vm_step :: "ProvisioningPolicy \<Rightarrow> db \<Rightarrow> db \<Rightarrow> bool" for policy where
  ensure: "EnsureAccountVM c newID a region policy request d = Inr (v, d') \<Longrightarrow> vm_step policy d d'"
| retire: "RetireProvisionedVM i reason d = Inr (v, d') \<Longrightarrow> vm_step policy d d'"
| report: "ApplyProvisionerReport c i report d = (x, d') \<Longrightarrow> keys_filled c \<Longrightarrow> vm_step policy d d'"
| ready: "vm_step policy d (MarkProvisionedVMReady c i d)"
| reconcile: "ReconcileProvisionedVMs c newIDs policy d = Inr (s, d') \<Longrightarrow> vm_step policy d d'"

lemma vm_step_fleet: "vm_step policy d d' \<Longrightarrow> fleet_step policy d d'"
  by (induction rule: vm_step.induct)
    (blast intro: EnsureAccountVM_step RetireProvisionedVM_step ApplyProvisionerReport_step MarkProvisionedVMReady_step
      ReconcileProvisionedVMs_step)+

lemma vm_steps_fleet: "(vm_step policy)\<^sup>*\<^sup>* d d' \<Longrightarrow> fleet_step policy d d'"
  by (induction rule: rtranclp_induct) (auto intro: fleet_step_refl fleet_step_trans vm_step_fleet)

text \<open>
  C36. Types of the fleet: along every run of requests, retirements, reports, heartbeats and reconcile passes each VM's
  columns fit together - its state is one of the six, a deletion time goes with the state deleted, a refusal only with a VM
  still to be created, a VM with an instance knows its hash, and one that may run knows its node's key.
\<close>

theorem fleet_stays_typed:
  assumes "(vm_step policy)\<^sup>*\<^sup>* d d'" and "fleet_wf (provisioned_vms d)" and "v \<in> set (provisioned_vms d')"
  shows "vm_typed v"
  using vm_steps_fleet [OF assms(1)] assms(2,3) by (simp add: fleet_step_def fleet_wf_def)

text \<open>
  C31. The fleet is bounded: no run ever has more live VMs than the policy's maximum (or than there were when it started),
  and at no time are two VMs of one account wanted.
\<close>

theorem fleet_stays_bounded:
  assumes "(vm_step policy)\<^sup>*\<^sup>* d d'" and "fleet_wf (provisioned_vms d)" and "live_count d \<le> pp_MaxVMs policy"
  shows "live_count d' \<le> pp_MaxVMs policy
    \<and> (\<forall>v \<in> set (provisioned_vms d'). \<forall>w \<in> set (provisioned_vms d'). p_account_id v \<noteq> None \<and> p_account_id v = p_account_id w
         \<and> p_desired v = ''present'' \<and> p_desired w = ''present'' \<longrightarrow> v = w)"
proof -
  have st: "fleet_step policy d d'" by (rule vm_steps_fleet [OF assms(1)])
  have u: "unique_where owned_wanted p_account_id (provisioned_vms d')" using st assms(2) by (simp add: fleet_step_def fleet_wf_def)
  have "live_count d' \<le> pp_MaxVMs policy" using st assms(2,3) by (simp add: fleet_step_def)
  moreover have "v = w" if "v \<in> set (provisioned_vms d')" "w \<in> set (provisioned_vms d')"
      "p_account_id v \<noteq> None \<and> p_account_id v = p_account_id w \<and> p_desired v = ''present'' \<and> p_desired w = ''present''" for v w
    by (rule unique_whereD [OF u that(1,2)]) (use that(3) in \<open>auto simp: owned_wanted_def wanted_vm_def\<close>)
  ultimately show ?thesis by blast
qed

text \<open>
  C37. A VM's past is never undone: whatever follows, its row stays, with its id and region; it is never handed to another
  account and never becomes a spare again, its node key is never replaced, a VM to be deleted is never wanted again, and a
  deleted VM stays deleted.
\<close>

theorem fleet_history_kept:
  assumes "(vm_step policy)\<^sup>*\<^sup>* d d'" and "fleet_wf (provisioned_vms d)" and "v \<in> set (provisioned_vms d)"
  shows "\<exists>w \<in> set (provisioned_vms d'). p_id w = p_id v \<and> p_region w = p_region v
    \<and> (p_account_id v \<noteq> None \<longrightarrow> p_account_id w = p_account_id v)
    \<and> (p_node_public_key v \<noteq> [] \<longrightarrow> p_node_public_key w = p_node_public_key v)
    \<and> (p_desired v \<noteq> ''present'' \<longrightarrow> p_desired w \<noteq> ''present'')
    \<and> (p_state v = ''deleted'' \<longrightarrow> p_state w = ''deleted'')"
proof -
  have "fleet_evolves (provisioned_vms d) (provisioned_vms d')"
    using vm_steps_fleet [OF assms(1)] assms(2) by (simp add: fleet_step_def)
  with assms(3) obtain w where "w \<in> set (provisioned_vms d')" "evolves v w" unfolding fleet_evolves_def by blast
  then show ?thesis unfolding evolves_def by blast
qed

section \<open>Retirement\<close>

lemma ids_by_row: "fleet_evolves vs ws \<Longrightarrow> v \<in> set vs \<Longrightarrow> p_desired v \<noteq> ''present'' \<Longrightarrow>
    \<exists>w \<in> set ws. p_id w = p_id v \<and> p_desired w \<noteq> ''present''"
  unfolding fleet_evolves_def evolves_def by metis

text \<open>A row that a statement of the policy has marked stays marked to the end of the pass.\<close>

lemma fleet_step_absent:
  assumes "fleet_step policy d d'" "fleet_wf (provisioned_vms d)" "v \<in> set (provisioned_vms d)" "p_desired v \<noteq> ''present''"
  shows "\<exists>w \<in> set (provisioned_vms d'). p_id w = p_id v \<and> p_desired w \<noteq> ''present''"
  using assms by (intro ids_by_row) (simp_all add: fleet_step_def)

lemma update_vms_row: "v \<in> set (provisioned_vms d) \<Longrightarrow> (if P v then f v else v) \<in> set (provisioned_vms (update_vms P f d))"
  by (simp add: update_vms_def set_update_where)

lemma rows_desired:
  "p_desired (timed_out_row v) = ''absent''" "p_desired (absent_row r v) = ''absent''" "p_desired (silent_row v) = ''absent''"
  "p_id (timed_out_row v) = p_id v" "p_id (absent_row r v) = p_id v" "p_id (silent_row v) = p_id v"
  "p_id (touch_row c v) = p_id v" "p_desired (touch_row c v) = p_desired v" "p_account_id (touch_row c v) = p_account_id v"
  by (simp_all add: timed_out_row_def absent_row_def silent_row_def touch_row_def)

lemma update_vms_frame [simp]:
  "runtimes (update_vms P f d) = runtimes d" "accounts (update_vms P f d) = accounts d" "hosts (update_vms P f d) = hosts d"
  by (simp_all add: update_vms_def)

lemma last_seen_update [simp]: "vm_last_seen (update_vms P f d) = vm_last_seen d"
  by (rule ext) (simp add: vm_last_seen_def)

lemma silent_update [simp]: "silent c policy (update_vms P f d) = silent c policy d"
  by (rule ext) (simp add: silent_def)

lemma silent_touch: "silent c policy d (touch_row c' v) = silent c policy d v"
  by (simp add: silent_def touch_row_def wanted_vm_def vm_last_seen_def split: option.splits)

text \<open>
  One pass over a VM: every reason to retire it is found by one of the statements, either on the row as it was or on what
  the statements before left of it.
\<close>

lemma retireByPolicy_marks:
  assumes v: "v \<in> set (provisioned_vms d)" and wf: "fleet_wf (provisioned_vms d)"
  shows "overdue c policy v \<or> owner_gone d v \<or> (pp_RetireAfter policy > 0 \<and> unused c policy d v) \<Longrightarrow>
      \<exists>w \<in> set (provisioned_vms (snd (retireByPolicy c policy d))). p_id w = p_id v \<and> p_desired w \<noteq> ''present''"
    and "silent c policy d v \<Longrightarrow> \<exists>w \<in> set (provisioned_vms (snd (retireByPolicy c policy d))).
      p_id w = p_id v \<and> (p_desired w \<noteq> ''present'' \<or> silent c policy (snd (retireByPolicy c policy d)) w)"
proof (rule_tac [!] retireByPolicy_stages [of c policy d])
  fix d1 d2 d3
  assume st: "d1 = update_vms (overdue c policy) timed_out_row d"
    "d2 = update_vms (\<lambda>v. live_vm v \<and> wanted_vm v \<and> holds_runtime d1 v) (touch_row c) d1"
    "d3 = update_vms (owner_gone d2) (absent_row ''account-deleted'') d2"
    "snd (retireByPolicy c policy d) =
       (if pp_RetireAfter policy > 0 then update_vms (unused c policy d3) (absent_row ''unused'') d3 else d3)"
  define v1 where "v1 = (if overdue c policy v then timed_out_row v else v)"
  define v2 where "v2 = (if live_vm v1 \<and> wanted_vm v1 \<and> holds_runtime d1 v1 then touch_row c v1 else v1)"
  define v3 where "v3 = (if owner_gone d2 v2 then absent_row ''account-deleted'' v2 else v2)"
  define v4 where "v4 = (if pp_RetireAfter policy > 0 \<and> unused c policy d3 v3 then absent_row ''unused'' v3 else v3)"
  have "v1 \<in> set (provisioned_vms d1)" unfolding st(1) v1_def using v by (rule update_vms_row)
  then have "v2 \<in> set (provisioned_vms d2)" unfolding st(2) v2_def by (rule update_vms_row)
  then have v3: "v3 \<in> set (provisioned_vms d3)" unfolding st(3) v3_def by (rule update_vms_row)
  have v4: "v4 \<in> set (provisioned_vms (snd (retireByPolicy c policy d)))"
    using update_vms_row [OF v3, of "unused c policy d3" "absent_row ''unused''"] v3 unfolding st(4) v4_def by auto
  have id: "p_id v4 = p_id v" by (simp add: v4_def v3_def v2_def v1_def rows_desired)
  have tabs: "accounts d2 = accounts d" "runtimes d3 = runtimes d" "runtimes d1 = runtimes d" by (simp_all add: st)
  show "\<exists>w \<in> set (provisioned_vms (snd (retireByPolicy c policy d))). p_id w = p_id v \<and> p_desired w \<noteq> ''present''"
    if "overdue c policy v \<or> owner_gone d v \<or> (pp_RetireAfter policy > 0 \<and> unused c policy d v)"
  proof -
    have "p_desired v4 \<noteq> ''present''"
    proof (cases "overdue c policy v")
      case True
      then show ?thesis by (simp add: v4_def v3_def v2_def v1_def rows_desired)
    next
      case no: False
      then have v1: "v1 = v" by (simp add: v1_def)
      show ?thesis
      proof (cases "owner_gone d v")
        case True
        then have "owner_gone d2 v2" by (simp add: v2_def v1 owner_gone_def wanted_vm_def rows_desired tabs split: option.splits)
        then show ?thesis by (simp add: v4_def v3_def rows_desired)
      next
        case False
        with that no have un: "pp_RetireAfter policy > 0" "unused c policy d v" by blast+
        have "holds_runtime d1 = holds_runtime d" by (rule ext) (simp add: holds_runtime_def tabs)
        with un have "v2 = v" by (simp add: v2_def v1 unused_def)
        moreover have "unused c policy d3 v" using un(2) by (simp add: unused_def holds_runtime_def tabs)
        ultimately show ?thesis using un(1) by (simp add: v4_def v3_def rows_desired)
      qed
    qed
    with v4 id show ?thesis by blast
  qed
  show "\<exists>w \<in> set (provisioned_vms (snd (retireByPolicy c policy d))). p_id w = p_id v \<and>
      (p_desired w \<noteq> ''present'' \<or> silent c policy (snd (retireByPolicy c policy d)) w)" if sil: "silent c policy d v"
  proof -
    have same: "silent c policy (snd (retireByPolicy c policy d)) = silent c policy d" unfolding st(4) by (simp add: st)
    have "\<not> overdue c policy v" using sil by (auto simp: silent_def overdue_def)
    then have "v1 = v" by (simp add: v1_def)
    then have "silent c policy d v2" using sil by (simp add: v2_def silent_touch)
    then have "p_desired v4 \<noteq> ''present'' \<or> silent c policy d v4" by (simp add: v4_def v3_def rows_desired)
    with v4 id show ?thesis unfolding same by blast
  qed
qed

lemma update_vms_hit: "v \<in> set (provisioned_vms d) \<Longrightarrow> P v \<Longrightarrow> f v \<in> set (provisioned_vms (update_vms P f d))"
  using update_vms_row [of v d P f] by simp

lemma retireSilent_marks:
  assumes w: "w \<in> set (provisioned_vms (snd sd))" "p_desired w \<noteq> ''present'' \<or> silent c policy (snd sd) w"
    and wf: "fleet_wf (provisioned_vms (snd sd))" and on: "\<not> silence_ignored c policy"
    and free: "ps_NodeSilentHeld (fst (retireSilentNodeVMsTX c policy sd)) = 0"
  shows "\<exists>u \<in> set (provisioned_vms (snd (retireSilentNodeVMsTX c policy sd))). p_id u = p_id w \<and> p_desired u \<noteq> ''present''"
proof (cases "p_desired w \<noteq> ''present''")
  case True
  show ?thesis by (rule fleet_step_absent [OF retireSilent_step wf w(1) True])
next
  case False
  with w(2) have sil: "silent c policy (snd sd) w" by blast
  show ?thesis
  proof (cases rule: retireSilent_cases [of c policy sd])
    case ignored with on show ?thesis by blast
  next
    case none with w(1) sil show ?thesis by (auto simp: filter_empty_conv)
  next
    case held with free show ?thesis by simp
  next
    case retired
    have "silent_row w \<in> set (provisioned_vms (snd (retireSilentNodeVMsTX c policy sd)))"
      unfolding retired by (rule update_vms_hit [OF w(1)]) (use w(1) sil in \<open>auto simp: silent_def\<close>)
    then show ?thesis by (rule bexI [rotated]) (simp add: rows_desired)
  qed
qed


section \<open>What a pass brings about\<close>

context vm_change
begin

lemma statement_ids: "map p_id (provisioned_vms (update_vms P f d)) = map p_id (provisioned_vms d)"
  by (simp add: update_vms_def fleet_ids)

end

lemma retire_ids: "map p_id (provisioned_vms (snd (retireSilentNodeVMsTX c policy (retireByPolicy c policy d)))) = map p_id (provisioned_vms d)"
proof -
  have "map p_id (provisioned_vms (snd (retireSilentNodeVMsTX c policy sd))) = map p_id (provisioned_vms (snd sd))" for sd
    by (cases rule: retireSilent_cases [of c policy sd]) (simp_all add: silenced.statement_ids)
  moreover have "map p_id (provisioned_vms (snd (retireByPolicy c policy d))) = map p_id (provisioned_vms d)"
    by (rule retireByPolicy_stages [of c policy d])
      (simp add: time_out.statement_ids touch.statement_ids absent.statement_ids)
  ultimately show ?thesis by simp
qed

lemma spares_frame:
  "ps_SparesCreated (fst (retireByPolicy c policy d)) = 0"
  "ps_SparesCreated (fst (retireSilentNodeVMsTX c policy sd)) = ps_SparesCreated (fst sd)"
  "ps_SparesCreated (fst (resetRuntimesOfDeletedVMs c sd)) = ps_SparesCreated (fst sd)"
  by (simp_all add: retireByPolicy_def retireSilentNodeVMsTX_def resetRuntimesOfDeletedVMs_def Let_def split_def)

text \<open>
  C34. A reconcile pass always ends, and brings the fleet to its size: with fresh random ids it succeeds, and after it every
  region of the policy has its warm spares or the fleet is full; the spares it reports are the VMs it added.
\<close>

theorem reconcile_tops_up:
  assumes "inj newID" and "\<forall>k. newID k \<notin> p_id ` set (provisioned_vms d)" and "0 < pp_MaxVMs policy" and "0 < pp_WarmSpares policy"
  shows "\<exists>s d'. ReconcileProvisionedVMs c newID policy d = Inr (s, d')
    \<and> (\<forall>region \<in> set (pp_Regions policy). spare_region region \<longrightarrow> topped_up policy region d')
    \<and> length (provisioned_vms d') = length (provisioned_vms d) + ps_SparesCreated s"
proof -
  define sd where "sd = resetRuntimesOfDeletedVMs c (retireSilentNodeVMsTX c policy (retireByPolicy c policy d))"
  obtain s0 d0 where sd: "sd = (s0, d0)" by (metis prod.exhaust)
  have ids: "map p_id (provisioned_vms d0) = map p_id (provisioned_vms d)"
    using retire_ids [of c policy d] reset_frame(1) [of c "retireSilentNodeVMsTX c policy (retireByPolicy c policy d)"]
    unfolding sd_def [symmetric] sd by simp
  have none: "ps_SparesCreated s0 = 0"
    using arg_cong [OF sd, of "ps_SparesCreated \<circ> fst"] unfolding sd_def by (simp add: spares_frame)
  have "newID k \<notin> p_id ` set (provisioned_vms d0)" for k
    using assms(2) ids by (metis set_map)
  from topUpRegions_finish [OF assms(1) this refl] obtain live created d'
    where f: "efold (topUpRegion c newID policy) (pp_Regions policy) (live_count d0, ps_SparesCreated s0, d0) = Inr (live, created, d')"
    by (metis prod.exhaust)
  note g = topUpRegions_grown [OF f refl]
  then obtain vs where vs: "provisioned_vms d' = provisioned_vms d0 @ vs" "map p_id vs = map newID [ps_SparesCreated s0..<created]"
    unfolding grown_def by auto
  have "length (provisioned_vms d') = length (provisioned_vms d) + created"
    using vs(1) arg_cong [OF vs(2), of length] arg_cong [OF ids, of length] none by simp
  moreover have "ReconcileProvisionedVMs c newID policy d = Inr (s0\<lparr>ps_SparesCreated := created\<rparr>, d')"
    using assms(3,4) f unfolding ReconcileProvisionedVMs_def sd_def [symmetric] sd topUpFleet_def by simp
  ultimately show ?thesis using g by auto
qed

lemma vm_deleted_update:
  assumes "\<And>v. p_id (f v) = p_id v" "\<And>v. p_state (f v) = p_state v"
  shows "vm_deleted (update_vms P f d) = vm_deleted d"
  by (rule ext) (simp add: vm_deleted_def update_vms_def bex_update_where assms)

lemmas vm_deleted_updates = vm_deleted_update [of timed_out_row] vm_deleted_update [of "touch_row c" for c]
  vm_deleted_update [of "absent_row r" for r] vm_deleted_update [of silent_row]

lemma retire_deleted:
  "vm_deleted (snd (retireSilentNodeVMsTX c policy (retireByPolicy c policy d))) = vm_deleted d"
  "runtimes (snd (retireSilentNodeVMsTX c policy (retireByPolicy c policy d))) = runtimes d"
  "accounts (snd (retireSilentNodeVMsTX c policy (retireByPolicy c policy d))) = accounts d"
proof -
  have s: "vm_deleted (snd (retireSilentNodeVMsTX c policy sd)) = vm_deleted (snd sd)
      \<and> runtimes (snd (retireSilentNodeVMsTX c policy sd)) = runtimes (snd sd)
      \<and> accounts (snd (retireSilentNodeVMsTX c policy sd)) = accounts (snd sd)" for sd
    by (cases rule: retireSilent_cases [of c policy sd]) (simp_all add: vm_deleted_update silent_row_def)
  have "vm_deleted (snd (retireByPolicy c policy d)) = vm_deleted d \<and> runtimes (snd (retireByPolicy c policy d)) = runtimes d
      \<and> accounts (snd (retireByPolicy c policy d)) = accounts d"
    by (rule retireByPolicy_stages [of c policy d])
      (simp add: vm_deleted_update timed_out_row_def touch_row_def absent_row_def)
  with s [of "retireByPolicy c policy d"] show
    "vm_deleted (snd (retireSilentNodeVMsTX c policy (retireByPolicy c policy d))) = vm_deleted d"
    "runtimes (snd (retireSilentNodeVMsTX c policy (retireByPolicy c policy d))) = runtimes d"
    "accounts (snd (retireSilentNodeVMsTX c policy (retireByPolicy c policy d))) = accounts d" by simp_all
qed

lemma on_deleted_vm_cong: "vm_deleted d' = vm_deleted d \<Longrightarrow> on_deleted_vm d' = on_deleted_vm d"
  by (rule ext) (simp add: on_deleted_vm_def split: option.splits)

text \<open>The other tables a pass leaves alone, and the runtimes as it leaves them.\<close>

lemma reconcile_runtimes:
  assumes "ReconcileProvisionedVMs c newID policy d = Inr (s, d')"
  shows "runtimes d' = update_where (on_deleted_vm d) (reset_row c) (runtimes d)" "vm_deleted d' = vm_deleted d"
    "accounts d' = accounts d"
proof -
  let ?sd2 = "retireSilentNodeVMsTX c policy (retireByPolicy c policy d)"
  obtain n n' sd where sd: "sd = resetRuntimesOfDeletedVMs c ?sd2" "grown policy newID (n, snd sd) (n', d')"
    using assms by (rule ReconcileProvisionedVMs_cases)
  then obtain vs where d': "d' = (snd sd)\<lparr>provisioned_vms := provisioned_vms (snd sd) @ vs\<rparr>"
    and vs: "\<forall>v \<in> set vs. p_state v = ''requested''" unfolding grown_def by auto
  show "runtimes d' = update_where (on_deleted_vm d) (reset_row c) (runtimes d)"
    unfolding d' sd(1) using on_deleted_vm_cong [OF retire_deleted(1)] by (simp add: retire_deleted)
  show "accounts d' = accounts d" unfolding d' sd(1) by (simp add: retire_deleted)
  have "vm_deleted d' = vm_deleted (snd ?sd2)"
    unfolding d' sd(1) vm_deleted_def using vs by (intro ext) auto
  then show "vm_deleted d' = vm_deleted d" by (simp add: retire_deleted)
qed

lemma reset_row_free: "r_host_id (reset_row c r) = None" "r_blob_host_id (reset_row c r) = None" "r_id (reset_row c r) = r_id r"
  by (simp_all add: reset_row_def Let_def)

text \<open>
  C35. No runtime waits for a VM that is gone: after a pass no live runtime is placed on a deleted VM or has its snapshot there.
  Each runtime that was is fenced off by a new operation generation and freed; a snapshot in a remote store is kept, and
  whether it was kept or lost, floor plus snapshot generation - the number phones watch - stays what it was. The others are
  untouched.
\<close>

theorem reconcile_frees_runtimes:
  assumes "ReconcileProvisionedVMs c newID policy d = Inr (s, d')"
  shows "(\<forall>r \<in> set (runtimes d'). \<not> on_deleted_vm d' r)
    \<and> (\<forall>r \<in> set (runtimes d). if on_deleted_vm d r
         then \<exists>r' \<in> set (runtimes d'). r_id r' = r_id r \<and> r_host_id r' = None \<and> r_blob_host_id r' = None
           \<and> r_operation_generation r' = r_operation_generation r + 1
           \<and> (remote_snapshot r \<longrightarrow> r_blob_manifest_json r' = r_blob_manifest_json r)
           \<and> r_blob_generation_floor r' + manifestGenerationSQL (r_blob_manifest_json r')
             = r_blob_generation_floor r + manifestGenerationSQL (r_blob_manifest_json r)
         else r \<in> set (runtimes d'))"
proof -
  note rt = reconcile_runtimes [OF assms]
  have on: "on_deleted_vm d' = on_deleted_vm d" by (rule on_deleted_vm_cong [OF rt(2)])
  have lost: "manifestGenerationSQL None = 0" by (simp add: manifestGenerationSQL_def)
  have "reset_row c r \<in> set (runtimes d')" if "r \<in> set (runtimes d)" "on_deleted_vm d r" for r
    unfolding rt(1) set_update_where using that by force
  moreover have "r_operation_generation (reset_row c r) = r_operation_generation r + 1
      \<and> (remote_snapshot r \<longrightarrow> r_blob_manifest_json (reset_row c r) = r_blob_manifest_json r)
      \<and> r_blob_generation_floor (reset_row c r) + manifestGenerationSQL (r_blob_manifest_json (reset_row c r))
        = r_blob_generation_floor r + manifestGenerationSQL (r_blob_manifest_json r)" for r
    by (simp add: reset_row_def Let_def lost)
  moreover have "r \<in> set (runtimes d')" if "r \<in> set (runtimes d)" "\<not> on_deleted_vm d r" for r
    unfolding rt(1) set_update_where using that by force
  moreover have "\<not> on_deleted_vm d r" if "r \<in> set (runtimes d')" for r
    using that unfolding rt(1) in_update_where by (auto simp: on_deleted_vm_def reset_row_free)
  ultimately show ?thesis unfolding on using reset_row_free by (metis (no_types, lifting))
qed

section \<open>Reports\<close>

text \<open>The moves a report can make: on, one step at a time; back from a create that came to nothing; and to deleted.\<close>

definition vm_edge :: "string \<Rightarrow> string \<Rightarrow> bool" where
  "vm_edge st st' \<longleftrightarrow> st' = st \<or> st' = ''deleted''
     \<or> (st, st') \<in> {(''requested'', ''creating''), (''creating'', ''requested''), (''creating'', ''unlocking''), (''unlocking'', ''booting'')}"

lemma reportable_edge:
  assumes "reportable report key v"
  shows "vm_edge (p_state v) (p_state (report_row c report ip key v))"
  using assms by (cases rule: reportable_cases) (auto simp: vm_edge_def report_row_fields)

text \<open>
  C38. Reports move a VM only along its life: a report that is refused changes no VM; one that is accepted changes the VM it
  names and no other, keeps its state or takes it one allowed move further, and nothing moves a deleted VM. No report makes a
  VM ready - only its node's own heartbeat does.
\<close>

theorem report_moves:
  assumes "ApplyProvisionerReport c i report d = (x, d')" and "keys_filled c" and "fleet_wf (provisioned_vms d)"
    and "find_vm (TrimSpace i) d = Some v"
  shows "case x of
      Inl e \<Rightarrow> provisioned_vms d' = provisioned_vms d
    | Inr w \<Rightarrow> w \<in> set (provisioned_vms d') \<and> p_id w = p_id v \<and> vm_edge (p_state v) (p_state w)
        \<and> (p_state v = ''deleted'' \<longrightarrow> w = v) \<and> (\<forall>u \<in> set (provisioned_vms d). p_id u \<noteq> p_id v \<longrightarrow> u \<in> set (provisioned_vms d'))"
  using assms(1)
proof (cases rule: ApplyProvisionerReport_cases)
  case unknown
  with assms(4) show ?thesis by simp
next
  case (deleted cur)
  with assms(4) find_vm_in [OF assms(4)] show ?thesis by (auto simp: vm_edge_def)
next
  case (refused cur e)
  then show ?thesis by simp
next
  case (applied cur ip key d1 u)
  have cur: "cur = v" using applied(1) assms(4) by simp
  note v = find_vm_in [OF assms(4)]
  have "u \<in> set (provisioned_vms d)" "p_id u = TrimSpace i" using find_SomeD [OF applied(5)] by auto
  then have u: "u = v" using key_eq_row [OF fleet_wfD(1) [OF assms(3)]] v by metis
  have rep: "reportable report key v" using reportEffects_reportable [OF applied(3) assms(2) applied(4)] cur by simp
  have vms: "provisioned_vms d' = update_where (\<lambda>v. p_id v = TrimSpace i \<and> live_vm v) (report_row c report ip key) (provisioned_vms d)"
    unfolding applied(7) by simp
  have "report_row c report ip key v \<in> set (provisioned_vms d')"
    unfolding vms in_update_where using v applied(2) cur by blast
  moreover have "w \<in> set (provisioned_vms d')" if "w \<in> set (provisioned_vms d)" "p_id w \<noteq> p_id v" for w
    unfolding vms in_update_where using that v by auto
  moreover have "p_state v \<noteq> ''deleted''" using applied(2) cur by (simp add: live_vm_def)
  ultimately show ?thesis using reportable_edge [OF rep] by (simp add: applied(6) u report_row_fields(1))
qed

lemma AuthorizedNodeKeys_cong:
  assumes "approved_nodes d' = approved_nodes d" "node_operators d' = node_operators d" "approved_node_keys d' = approved_node_keys d"
  shows "AuthorizedNodeKeys c i d' = AuthorizedNodeKeys c i d"
  unfolding AuthorizedNodeKeys_def find_node_def find_operator_def listNodeKeys_def assms ..

lemma removeVMHost_registry [simp]:
  "approved_nodes (removeVMHost i d) = approved_nodes d" "node_operators (removeVMHost i d) = node_operators d"
  "approved_node_keys (removeVMHost i d) = approved_node_keys d"
  by (simp_all add: removeVMHost_def)

text \<open>
  C32. A deleted VM's node is locked out: when the provisioner's report that a VM is gone is accepted, the node key recorded
  for the VM no longer authenticates anything.
\<close>

theorem deleted_vm_locked_out:
  assumes "ApplyProvisionerReport c i report d = (Inr w, d')" and "registry_wf d" and "TrimSpace (pr_State report) = ''deleted''"
    and "find_vm (TrimSpace i) d = Some v" and "live_vm v" and "p_node_public_key v \<noteq> []"
  shows "p_state w = ''deleted'' \<and> AuthorizedNodeKeys c' (TrimSpace i) d' = Inl ErrApprovedNodeNotFound"
  using assms(1)
proof (cases rule: ApplyProvisionerReport_cases)
  case (deleted cur)
  with assms(4,5) show ?thesis by simp
next
  case (applied cur ip key d1 u)
  have cur: "cur = v" using applied(1) assms(4) by simp
  define input where "input = \<lparr>rn_NodeID = TrimSpace i, rn_Actor = ''provisioner'', rn_Reason = ''provisioned runtime VM deleted''\<rparr>"
  obtain r d0 where rv: "revokeVMNode c (TrimSpace i) d = (r, d0)" by (metis prod.exhaust)
  have eff: "r = Inr ()" "d1 = removeVMHost (TrimSpace i) d0"
    using applied(3) assms(3,6) rv unfolding reportEffects_def cur by (auto split: sum.splits)
  have same: "AuthorizedNodeKeys c' (TrimSpace i) d' = AuthorizedNodeKeys c' (TrimSpace i) d0"
    unfolding applied(7) eff(2) by (rule AuthorizedNodeKeys_cong) simp_all
  have "AuthorizedNodeKeys c' (TrimSpace i) d0 = Inl ErrApprovedNodeNotFound"
  proof (cases "RevokeNode c input d")
    case (Inl e)
    with rv eff(1) have e: "e = ErrApprovedNodeNotFound \<or> e = ErrApprovedNodeRevoked" "d0 = d"
      by (auto simp: revokeVMNode_def committed_def input_def Let_def split: if_splits)
    have "normalizeRegistryID (TrimSpace i) ''node id'' = Inr j \<Longrightarrow> find_node j d = None" for j
      using Inl e(1) by (auto simp: RevokeNode_def input_def Let_def boundedRegistryText_def res_simps
          split: if_splits option.splits)
    then show ?thesis unfolding e(2) by (simp add: AuthorizedNodeKeys_def split: sum.splits)
  next
    case (Inr y)
    obtain av d2 where y: "RevokeNode c input d = Inr (av, d2)" using Inr by (cases y) simp
    with rv have d0: "d0 = d2" by (simp add: revokeVMNode_def committed_def input_def Let_def)
    obtain j where j: "normalizeRegistryID (TrimSpace i) ''node id'' = Inr j"
      using y by (rule RevokeNode_cases) (simp add: input_def)
    show ?thesis unfolding d0
      by (rule node_revoked_unauthorized [OF RevokeNode_wf [OF assms(2) y] RevokeNode_revokes [OF y] j]) (simp add: input_def j)
  qed
  moreover have "p_state w = ''deleted''" using applied(6) assms(3) by (simp add: report_row_fields)
  ultimately show ?thesis using same by simp
qed (use assms(4) in simp_all)

text \<open>
  C40. A refused report can still leave a key approved: reporting unlocking for a VM that is still to be created is refused, but
  the VM's node has been approved by then, and since the VM's row has no key, the later report that it is deleted revokes
  nothing - the node authenticates with that key as before.
\<close>

theorem refused_unlock_keeps_key:
  assumes "find_vm i d = Some v" and "TrimSpace i = i" and "p_state v = ''requested''" and "p_desired v = ''present''"
    and "p_node_public_key v = []" and "TrimSpace (pr_State report) = ''unlocking''"
    and "ParseIP (TrimSpace (pr_PublicIP report)) = Some ip" and "IsGlobalUnicast ip"
    and "normalizePublicKey c (pr_NodePublicKey report) = Some (key, print)" and "approveVMNode c i key d = (Inr (), d1)"
    and "TrimSpace (pr_State gone) = ''deleted''"
  shows "\<exists>w d2. ApplyProvisionerReport c i report d = (Inl ErrProvisionedVMTransition, d1)
    \<and> ApplyProvisionerReport c i gone d1 = (Inr w, d2) \<and> p_state w = ''deleted''
    \<and> AuthorizedNodeKeys c' i d2 = AuthorizedNodeKeys c' i d1"
proof -
  have vm: "ProvisionedVM i d = Inr v" using assms(1,2) by (simp add: ProvisionedVM_def)
  have eff: "reportEffects c i v report d = (Inr (IP_String ip, key), d1)"
    unfolding reportEffects_def Let_def assms(6) using assms(4,5,7,8,9,10) by simp
  have first: "ApplyProvisionerReport c i report d = (Inl ErrProvisionedVMTransition, d1)"
    unfolding ApplyProvisionerReport_def Let_def assms(2,6) vm sum.case eff prod.case using assms(3) by (simp add: allowedFrom_def)
  have vms: "provisioned_vms d1 = provisioned_vms d" using reportEffects_frame [OF eff] by blast
  then have find1: "find_vm i d1 = Some v" using assms(1) by (simp add: find_vm_def)
  have vm1: "ProvisionedVM i d1 = Inr v" using find1 assms(2) by (simp add: ProvisionedVM_def)
  have live: "live_vm v" using assms(3) by (simp add: live_vm_def)
  obtain u where u: "find (\<lambda>v. p_id v = i \<and> live_vm v) (provisioned_vms d1) = Some u" using find_live_vm [OF find1 live] by blast
  define ip' where "ip' = pr_PublicIP gone"
  have eff1: "reportEffects c i v gone d1 = (Inr (ip', []), removeVMHost i d1)"
    unfolding reportEffects_def Let_def assms(11) ip'_def using assms(5) by simp
  define d2 where "d2 = (removeVMHost i d1)\<lparr>provisioned_vms := update_where (\<lambda>v. p_id v = i \<and> live_vm v) (report_row c gone ip' [])
      (provisioned_vms d1)\<rparr>"
  have "ApplyProvisionerReport c i gone d1 = (Inr (report_row c gone ip' [] u), d2)"
    unfolding ApplyProvisionerReport_def Let_def assms(2,11) vm1 sum.case eff1 prod.case
    using assms(3) u by (simp add: allowedFrom_def d2_def)
  moreover have "p_state (report_row c gone ip' [] u) = ''deleted''" using assms(11) by (simp add: report_row_fields)
  moreover have "AuthorizedNodeKeys c' i d2 = AuthorizedNodeKeys c' i d1"
    by (rule AuthorizedNodeKeys_cong) (simp_all add: d2_def)
  ultimately show ?thesis using first by blast
qed

section \<open>The share of trials\<close>

lemma trial_vm_cong: "account_entitlements d' = account_entitlements d \<Longrightarrow> trial_vm d' = trial_vm d"
  by (rule ext) (simp add: trial_vm_def entitlement_source_def split: option.splits)

text \<open>
  C39. Free trials never take more than their share: giving an account its VM raises the number of VMs trials hold only up to
  the policy's limit for them - or, for a wipe or deletion of stored data, up to twice that limit and at least one; a paying
  account's VM does not count.
\<close>

theorem trial_share:
  assumes "EnsureAccountVM c newID a region policy request d = Inr (v, d')" and "fleet_wf (provisioned_vms d)"
  shows "trial_count d' \<le> max (trial_count d)
    (if removesData (TrimSpace a) request d then max (2 * pp_TrialMaxVMs policy) 1 else pp_TrialMaxVMs policy)"
proof -
  have "trial_count d' \<le> max (trial_count d) (trialLimit (TrimSpace a) policy request d)" using assms(1)
  proof (cases rule: EnsureAccountVM_cases)
    case (own w)
    have "trial_vm d' = trial_vm d" by (rule trial_vm_cong) (simp add: own(3))
    then have "trial_count d' = trial_count d"
      unfolding trial_count_def own(3) by (simp add: count_where_update_eq trial_vm_def touch_row_def live_vm_def)
    then show ?thesis by simp
  next
    case (spare w)
    have tv: "trial_vm d' = trial_vm d" by (rule trial_vm_cong) (simp add: spare(5))
    let ?vs = "update_where (\<lambda>u. p_id u = p_id w) (claim_row c (TrimSpace a)) (provisioned_vms d)"
    have up: "trial_count d' = int (count_where (trial_vm d) ?vs)" unfolding trial_count_def tv by (simp add: spare(5))
    show ?thesis
    proof (cases "entitlement_source (TrimSpace a) d \<in> {None, Some ''trial''}")
      case True
      with spare(2) have "trial_count d < trialLimit (TrimSpace a) policy request d"
        by (auto simp: checkTrialVMLimitsTX_def split: if_splits)
      moreover have "count_where (trial_vm d) ?vs \<le> Suc (count_where (trial_vm d) (provisioned_vms d))"
        by (rule count_where_update_key [OF fleet_wfD(1) [OF assms(2)]]) simp
      ultimately show ?thesis unfolding up by (simp add: trial_count_def)
    next
      case False
      have "count_where (trial_vm d) ?vs \<le> count_where (trial_vm d) (provisioned_vms d)"
        by (rule count_where_update_le) (use False in \<open>auto simp: trial_vm_def claim_row_def\<close>)
      then show ?thesis unfolding up by (simp add: trial_count_def)
    qed
  next
    case new
    note ins = insertVM_cases [OF new(4)]
    have tv: "trial_vm d' = trial_vm d" by (rule trial_vm_cong) (simp add: ins(2))
    have up: "trial_count d' = trial_count d + (if trial_vm d (new_vm c newID (Some (TrimSpace a)) (ToLower (TrimSpace region))) then 1 else 0)"
      unfolding trial_count_def tv by (simp add: ins(2))
    show ?thesis
    proof (cases "entitlement_source (TrimSpace a) d \<in> {None, Some ''trial''}")
      case True
      with new(2) have "trial_count d < trialLimit (TrimSpace a) policy request d"
        by (auto simp: checkTrialVMLimitsTX_def split: if_splits)
      then show ?thesis unfolding up by simp
    next
      case False
      then show ?thesis unfolding up by (auto simp: trial_vm_def)
    qed
  qed
  then show ?thesis by (simp only: trialLimit_def)
qed

section \<open>Witnesses\<close>

definition sample_policy :: ProvisioningPolicy where
  "sample_policy = \<lparr>pp_Regions = [''eu''], pp_MaxVMs = 3, pp_TrialMaxVMs = 1, pp_WarmSpares = 1,
     pp_SetupTimeout = 30 * minute, pp_RetireAfter = 24 * hour, pp_NodeSilentAfter = 10 * minute, pp_UpSince = Some 0\<rparr>"

definition sample_vm :: provisioned_vm where
  "sample_vm = \<lparr>p_id = ''h1'', p_account_id = Some ''a1'', p_region = ''eu'', p_state = ''booting'', p_desired = ''present'',
     p_item_hash = ''ab'', p_crn_hash = [], p_public_ip = ''9.9.9.9'', p_node_public_key = ''pk1'', p_failure = [],
     p_retire_reason = [], p_progress = [], p_refusal = [], p_requested_at = 0, p_state_changed_at = 0, p_ready_at = None,
     p_last_used_at = 0, p_deleted_at = None\<rparr>"

definition sample_fleet :: db where
  "sample_fleet = sample_db\<lparr>provisioned_vms := [sample_vm]\<rparr>"

definition sample_request :: VMRequest where
  "sample_request = \<lparr>vq_CleanupRuntimeID = [], vq_AllowTrialVM = Some True\<rparr>"

definition sample_ids :: "nat \<Rightarrow> string" where
  "sample_ids k = ''pvm-'' @ replicate k (CHR ''0'')"

definition sample_note :: ProvisionerReport where
  "sample_note = \<lparr>pr_State = [], pr_ItemHash = [], pr_CRNHash = [], pr_PublicIP = [], pr_NodePublicKey = [], pr_Failure = [],
     pr_Progress = [], pr_Refusal = []\<rparr>"

lemmas sample_fleet_defs = sample_fleet_def sample_vm_def sample_policy_def sample_request_def sample_note_def

lemma sample_keys_filled: "keys_filled sample_ctx"
  by (simp add: keys_filled_def sample_ctx_def)

lemma sample_fleet_wf: "fleet_wf (provisioned_vms sample_fleet)" "fleet_wf (provisioned_vms sample_db)"
  by (simp_all add: fleet_wf_def unique_where_def vm_typed_def sample_fleet_defs sample_defs)

lemma sample_ids_inj: "inj sample_ids"
proof (rule injI)
  fix j k assume "sample_ids j = sample_ids k"
  then have "length (sample_ids j) = length (sample_ids k)" by simp
  then show "j = k" by (simp add: sample_ids_def)
qed

theorem fleet_stays_typed_witness:
  "\<exists>v d'. EnsureAccountVM sample_ctx ''pvm-1'' ''a1'' ''eu'' sample_policy sample_request sample_db = Inr (v, d')
     \<and> provisioned_vms d' \<noteq> [] \<and> vm_typed (hd (provisioned_vms d'))"
proof -
  let ?op = "EnsureAccountVM sample_ctx ''pvm-1'' ''a1'' ''eu'' sample_policy sample_request sample_db"
  have "map_sum id (\<lambda>x. provisioned_vms (snd x) \<noteq> []) ?op = Inr True" by code_simp
  then obtain v d' where x: "?op = Inr (v, d')" "provisioned_vms d' \<noteq> []" by (auto dest: sample_run)
  have "(vm_step sample_policy)\<^sup>*\<^sup>* sample_db d'" using vm_step.ensure [OF x(1)] by (rule r_into_rtranclp)
  from fleet_stays_typed [OF this sample_fleet_wf(2)] x show ?thesis by (metis hd_in_set)
qed

theorem fleet_stays_bounded_witness:
  "\<exists>s d'. ReconcileProvisionedVMs sample_ctx sample_ids sample_policy sample_fleet = Inr (s, d')
     \<and> live_count d' = 2 \<and> live_count d' \<le> pp_MaxVMs sample_policy"
proof -
  let ?op = "ReconcileProvisionedVMs sample_ctx sample_ids sample_policy sample_fleet"
  have "map_sum id (\<lambda>x. live_count (snd x)) ?op = Inr 2" by code_simp
  then obtain s d' where x: "?op = Inr (s, d')" "live_count d' = 2" by (auto dest: sample_run)
  have "(vm_step sample_policy)\<^sup>*\<^sup>* sample_fleet d'" using vm_step.reconcile [OF x(1)] by (rule r_into_rtranclp)
  moreover have "live_count sample_fleet \<le> pp_MaxVMs sample_policy" by code_simp
  ultimately show ?thesis using fleet_stays_bounded [OF _ sample_fleet_wf(1)] x by blast
qed

theorem fleet_history_kept_witness:
  "\<exists>v d'. RetireProvisionedVM ''h1'' ''operator'' sample_fleet = Inr (v, d')
     \<and> (\<exists>w \<in> set (provisioned_vms d'). p_id w = ''h1'' \<and> p_node_public_key w = ''pk1'')"
proof -
  let ?op = "RetireProvisionedVM ''h1'' ''operator'' sample_fleet"
  have "map_sum id (\<lambda>_. ()) ?op = Inr ()" by code_simp
  then obtain v d' where x: "?op = Inr (v, d')" by (auto dest: sample_run)
  have run: "(vm_step sample_policy)\<^sup>*\<^sup>* sample_fleet d'" using vm_step.retire [OF x] by (rule r_into_rtranclp)
  have "sample_vm \<in> set (provisioned_vms sample_fleet)" by (simp add: sample_fleet_def)
  from fleet_history_kept [OF run sample_fleet_wf(1) this] x show ?thesis by (auto simp: sample_vm_def)
qed


theorem reconcile_tops_up_witness:
  "\<exists>s d'. ReconcileProvisionedVMs sample_ctx sample_ids sample_policy sample_fleet = Inr (s, d') \<and> topped_up sample_policy ''eu'' d'"
proof -
  have "\<forall>k. sample_ids k \<notin> p_id ` set (provisioned_vms sample_fleet)" by (simp add: sample_ids_def sample_fleet_defs)
  moreover have "0 < pp_MaxVMs sample_policy" "0 < pp_WarmSpares sample_policy" "''eu'' \<in> set (pp_Regions sample_policy)"
    by (simp_all add: sample_policy_def)
  moreover have "spare_region ''eu''" by code_simp
  ultimately show ?thesis using reconcile_tops_up [OF sample_ids_inj, of sample_fleet sample_policy sample_ctx] by blast
qed

definition sample_orphans :: db where
  "sample_orphans = sample_live\<lparr>provisioned_vms := [sample_vm\<lparr>p_state := ''deleted'', p_desired := ''absent'', p_deleted_at := Some 5\<rparr>]\<rparr>"

theorem reconcile_frees_runtimes_witness:
  "\<exists>s d'. ReconcileProvisionedVMs sample_ctx sample_ids sample_policy sample_orphans = Inr (s, d')
     \<and> ps_RuntimesReset s = 1 \<and> (\<forall>r \<in> set (runtimes d'). \<not> on_deleted_vm d' r)"
proof -
  let ?op = "ReconcileProvisionedVMs sample_ctx sample_ids sample_policy sample_orphans"
  have "map_sum id (\<lambda>x. ps_RuntimesReset (fst x)) ?op = Inr 1" by code_simp
  then obtain s d' where x: "?op = Inr (s, d')" "ps_RuntimesReset s = 1" by (auto dest: sample_run)
  with reconcile_frees_runtimes [OF x(1)] show ?thesis by blast
qed

theorem report_moves_witness:
  "\<exists>w d'. ApplyProvisionerReport sample_ctx ''h1'' (sample_note\<lparr>pr_Failure := ''lost''\<rparr>) sample_fleet = (Inr w, d')
     \<and> vm_edge ''booting'' (p_state w)"
proof -
  let ?op = "ApplyProvisionerReport sample_ctx ''h1'' (sample_note\<lparr>pr_Failure := ''lost''\<rparr>) sample_fleet"
  have "map_sum id (\<lambda>_. ()) (fst ?op) = Inr ()" by code_simp
  then obtain w where "fst ?op = Inr w" by (auto dest: sample_run)
  then obtain d' where x: "?op = (Inr w, d')" by (metis prod.collapse)
  have "find_vm (TrimSpace ''h1'') sample_fleet = Some sample_vm" by code_simp
  from report_moves [OF x sample_keys_filled sample_fleet_wf(1) this] x show ?thesis by (auto simp: sample_vm_def)
qed

theorem deleted_vm_locked_out_witness:
  "\<exists>w d'. ApplyProvisionerReport sample_ctx ''h1'' (sample_note\<lparr>pr_State := ''deleted''\<rparr>) sample_fleet = (Inr w, d')
     \<and> p_state w = ''deleted'' \<and> AuthorizedNodeKeys sample_ctx (TrimSpace ''h1'') d' = Inl ErrApprovedNodeNotFound"
proof -
  let ?op = "ApplyProvisionerReport sample_ctx ''h1'' (sample_note\<lparr>pr_State := ''deleted''\<rparr>) sample_fleet"
  have "map_sum id (\<lambda>_. ()) (fst ?op) = Inr ()" by code_simp
  then obtain w where "fst ?op = Inr w" by (auto dest: sample_run)
  then obtain d' where x: "?op = (Inr w, d')" by (metis prod.collapse)
  have wf: "registry_wf sample_fleet" using sample_registry_wf by (subst registry_wf_cong) (simp_all add: sample_fleet_def)
  have vm: "find_vm (TrimSpace ''h1'') sample_fleet = Some sample_vm" by code_simp
  have "TrimSpace (pr_State (sample_note\<lparr>pr_State := ''deleted''\<rparr>)) = ''deleted''" "live_vm sample_vm" "p_node_public_key sample_vm \<noteq> []"
    by code_simp+
  with deleted_vm_locked_out [OF x wf _ vm] x show ?thesis by blast
qed

definition sample_waiting :: db where
  "sample_waiting = sample_db\<lparr>provisioned_vms := [new_vm sample_ctx ''pvm-9'' (Some ''a1'') ''eu'']\<rparr>"

lemma sample_registry_texts: "boundedRegistryText ''Aleph Cloud provisioner'' 256 = ''Aleph Cloud provisioner''" 
  "boundedRegistryText ''provisioner'' 256 = ''provisioner''"
  "boundedRegistryText ''provisioned runtime VM pvm-9'' 1024 = ''provisioned runtime VM pvm-9''"
  by (simp_all add: boundedRegistryText_def TrimSpace_def trim_by_def is_space_def)
lemma sample_registry_ids: "normalizeRegistryID ProvisionerOperatorID l = Inr ProvisionerOperatorID" "normalizeRegistryID ''pvm-9'' l = Inr ''pvm-9''" by code_simp+

lemma sample_approval:
  "fst (approveVMNode sample_ctx ''pvm-9'' ''k9'' sample_waiting) = Inr ()"
  "map_sum id (\<lambda>_. ()) (AuthorizedNodeKeys sample_ctx ''pvm-9'' (snd (approveVMNode sample_ctx ''pvm-9'' ''k9'' sample_waiting))) = Inr ()"
 using sample_registry_texts by (simp_all add:  unique_where_def active_key_def sql_trim_def trim_by_def ApprovedNode_def approveVMNode_def ApproveNode_def sample_registry_ids [unfolded ProvisionerOperatorID_def] res_simps normalizeNodeKey_def sample_waiting_def sample_defs ProvisionerOperatorID_def insertOperator_def committed_def insertNodeKey_def
  find_operator_def find_node_def appendOperatorRegistryAuditTX_def appendNodeRegistryAuditTX_def AuthorizedNodeKeys_def Let_def listNodeKeys_def key_usable_def)

lemma sample_address: "ParseIP ''9.9.9.9'' = Some (v4_mapped (2313, 2313))" "IsGlobalUnicast (v4_mapped (2313, 2313))"
proof -
  have zeros: "replicate 8 (0 :: nat) = [0, 0, 0, 0, 0, 0, 0, 0]" by (simp add: numeral_eq_Suc)
  show "ParseIP ''9.9.9.9'' = Some (v4_mapped (2313, 2313))" "IsGlobalUnicast (v4_mapped (2313, 2313))"
    by (simp_all add: ParseIP_def parseIPv4_def v4_field_def digits_value_def digit_value_def is_digit_def v4_mapped_def is_v4_def zeros
      IsGlobalUnicast_def IsUnspecified_def IsLoopback_def IsMulticast_def IsLinkLocalUnicast_def Let_def)
qed

theorem refused_unlock_keeps_key_witness:
  "\<exists>d1 w d2 ks. ApplyProvisionerReport sample_ctx ''pvm-9''
       (sample_note\<lparr>pr_State := ''unlocking'', pr_PublicIP := ''9.9.9.9'', pr_NodePublicKey := ''k9''\<rparr>) sample_waiting
         = (Inl ErrProvisionedVMTransition, d1)
     \<and> ApplyProvisionerReport sample_ctx ''pvm-9'' (sample_note\<lparr>pr_State := ''deleted''\<rparr>) d1 = (Inr w, d2)
     \<and> p_state w = ''deleted'' \<and> AuthorizedNodeKeys sample_ctx ''pvm-9'' d2 = Inr ks"
proof -
  let ?r = "sample_note\<lparr>pr_State := ''unlocking'', pr_PublicIP := ''9.9.9.9'', pr_NodePublicKey := ''k9''\<rparr>"
  let ?v = "new_vm sample_ctx ''pvm-9'' (Some ''a1'') ''eu''"
  let ?a = "approveVMNode sample_ctx ''pvm-9'' ''k9'' sample_waiting"
  define d1 where "d1 = snd ?a"
  have a: "?a = (Inr (), d1)" by (rule prod_eqI) (simp_all only: sample_approval(1) d1_def fst_conv snd_conv)
  obtain ks where ks: "AuthorizedNodeKeys sample_ctx ''pvm-9'' d1 = Inr ks"
    using sample_run [OF sample_approval(2)] unfolding d1_def by blast
  have h: "find_vm ''pvm-9'' sample_waiting = Some ?v" "TrimSpace ''pvm-9'' = ''pvm-9''" "p_state ?v = ''requested''"
    "p_desired ?v = ''present''" "p_node_public_key ?v = []" "TrimSpace (pr_State ?r) = ''unlocking''"
    "ParseIP (TrimSpace (pr_PublicIP ?r)) = ParseIP ''9.9.9.9''"
    "normalizePublicKey sample_ctx (pr_NodePublicKey ?r) = Some (''k9'', ''k9'')"
    "TrimSpace (pr_State (sample_note\<lparr>pr_State := ''deleted''\<rparr>)) = ''deleted''"
    by (simp_all add: find_vm_def sample_waiting_def new_vm_def sample_note_def TrimSpace_def trim_by_def is_space_def sample_ctx_def)
  from refused_unlock_keeps_key [OF h(1-6) h(7) [unfolded sample_address(1)] sample_address(2) h(8) a h(9), of sample_ctx] ks
  show ?thesis by metis
qed

theorem trial_share_witness:
  "\<exists>v d'. EnsureAccountVM sample_ctx ''pvm-1'' ''a1'' ''eu'' sample_policy sample_request sample_db = Inr (v, d') \<and> trial_count d' \<le> 1"
proof -
  let ?op = "EnsureAccountVM sample_ctx ''pvm-1'' ''a1'' ''eu'' sample_policy sample_request sample_db"
  have "map_sum id (\<lambda>_. ()) ?op = Inr ()" by code_simp
  then obtain v d' where x: "?op = Inr (v, d')" by (auto dest: sample_run)
  have "\<not> removesData (TrimSpace ''a1'') sample_request sample_db" "trial_count sample_db = 0" "pp_TrialMaxVMs sample_policy = 1"
    by code_simp+
  with trial_share [OF x sample_fleet_wf(2)] x show ?thesis by auto
qed

end
