(* ===== verification/Fencing.thy ===== *)
theory Fencing
  imports Observation Sessions Provisioning
begin

text \<open>
  The operations together. A control step is any modelled operation that writes the runtimes table. Along every
  sequence of steps the operation generation of a runtime never falls, so that a node which still works on an
  operation that was replaced cannot report into the new one.
\<close>

section \<open>Tables that advance\<close>

definition advances :: "runtime list \<Rightarrow> runtime list \<Rightarrow> bool" where
  "advances rs rs' \<longleftrightarrow>
     (\<forall>r' \<in> set rs'. \<exists>r \<in> set rs. r_id r = r_id r' \<and> r_operation_generation r \<le> r_operation_generation r')"

lemma advances_refl [simp, intro]: "advances rs rs"
  by (auto simp: advances_def)

lemma advances_trans: "advances a b \<Longrightarrow> advances b c \<Longrightarrow> advances a c"
  unfolding advances_def by (metis order_trans)

lemma advances_update:
  assumes "\<And>r. P r \<Longrightarrow> r_id (f r) = r_id r \<and> r_operation_generation r \<le> r_operation_generation (f r)"
  shows "advances rs (update_where P f rs)"
  unfolding advances_def ball_update_where using assms by fastforce

lemma advances_subset: "set rs' \<subseteq> set rs \<Longrightarrow> advances rs rs'"
  unfolding advances_def by blast

text \<open>Every interpretation of \<open>row_change\<close> advances the table.\<close>

context row_change
begin

lemma advance: "advances rs (update_where P f rs)"
  by (rule advances_update) (simp add: same_id generation)

end

interpretation ended: row_change "end_stop_row c" for c
  by unfold_locales (simp_all add: end_stop_row_def)

interpretation idled: row_change "idle_stop_row c" for c
  by unfold_locales (simp_all add: idle_stop_row_def)

interpretation vm_reset: row_change "reset_row c" for c
  by unfold_locales (simp_all add: reset_row_def Let_def split: if_splits)

section \<open>Every operation advances the table\<close>

lemma startRuntime_advances: "startRuntime c p a i h fresh d = Inr (r, d') \<Longrightarrow> advances (runtimes d) (runtimes d')"
  by (erule startRuntime_cases) (auto intro!: advances_update simp: start_row_def)

lemma StopRuntime_advances: "StopRuntime c a i d = Inr (r, d') \<Longrightarrow> advances (runtimes d) (runtimes d')"
  by (erule StopRuntime_cases) (auto simp: torn_down_def intro: stop_request.advance)

lemma wipeRuntime_advances: "wipeRuntime c a i h d = Inr (r, d') \<Longrightarrow> advances (runtimes d) (runtimes d')"
  by (erule wipeRuntime_cases) (auto simp: torn_down_def intro: wipe.advance)

lemma deleteRuntime_advances: "deleteRuntime c a i h d = Inr (r, d') \<Longrightarrow> advances (runtimes d) (runtimes d')"
  by (erule deleteRuntime_cases) (auto simp: torn_down_def intro: removal.advance advances_trans [OF removal.advance removed.advance])

lemma cleanup_advances: "advances (runtimes d) (runtimes (deleteAccountIfRuntimeCleanupDoneTX a d))"
  by (rule advances_subset [OF cleanup_done_subset])

lemma DeleteAccount_advances: "DeleteAccount c a d = Inr (u, d') \<Longrightarrow> advances (runtimes d) (runtimes d')"
proof (erule DeleteAccount_cases)
  assume "d' = deleteAccountIfRuntimeCleanupDoneTX (TrimSpace a) (queueAccountRemoval c (TrimSpace a) d)"
  moreover have "advances (runtimes d) (runtimes (queueAccountRemoval c (TrimSpace a) d))"
    by (simp add: queueAccountRemoval_tables account_removal.advance)
  ultimately show ?thesis using advances_trans [OF _ cleanup_advances] by simp
qed

lemma RevokeDevice_advances: "RevokeDevice c a v d = Inr (u, d') \<Longrightarrow> advances (runtimes d) (runtimes d')"
  by (auto simp: RevokeDevice_def Let_def res_simps split: if_splits intro: queued_stop.advance)

lemma report_advances:
  assumes "UpdateRuntimeObservation c i obs d = Inr (u, d')"
  shows "advances (runtimes d) (runtimes d')"
  using assms
proof (cases rule: UpdateRuntimeObservation_cases)
  case (deleted r)
  have "advances (runtimes d) (update_where (reported_row i obs) (reported_deleted c obs) (runtimes d))"
    by (rule deletion_report.advance)
  from advances_trans [OF this, of "runtimes d'"] show ?thesis
    unfolding deleted(3) using cleanup_advances [of "d\<lparr>runtimes := update_where (reported_row i obs) (reported_deleted c obs) (runtimes d)\<rparr>"] by simp
qed (simp_all add: report.advance)

lemma settings_advance:
  assumes "UpdateRuntimeSettings c ver a i input d = Inr (r, d')"
  shows "advances (runtimes d) (runtimes d')"
  using assms by (rule UpdateRuntimeSettings_cases) (simp add: settings.advance)

lemma stopEndedRuntime_advances: "stopEndedRuntime c a i d = Inr (r, d') \<Longrightarrow> advances (runtimes d) (runtimes d')"
  by (auto simp: stopEndedRuntime_def Let_def res_simps intro: ended.advance)

lemma update_session_runtimes: "update_session e P f d = Inr (s, d') \<Longrightarrow> runtimes d' = runtimes d"
  by (auto simp: update_session_def res_simps)

lemma end_session_advances:
  "EndSessionAndStopRuntime c a v s i d = Inr (r, d') \<Longrightarrow> advances (runtimes d) (runtimes d')"
  "EndSessionAndStopRuntimeWithCapability c a v s i d = Inr (r, d') \<Longrightarrow> advances (runtimes d) (runtimes d')"
  by (auto simp: EndSessionAndStopRuntime_def EndSessionAndStopRuntimeWithCapability_def res_simps
      dest!: update_session_runtimes stopEndedRuntime_advances)

lemma reap_advances:
  assumes "ReapStaleSessions c t d = Inr (res, d')"
  shows "advances (runtimes d) (runtimes d')"
  using assms by (rule ReapStaleSessions_tables) (auto dest!: stopIdleRuntimes_tables(2) intro: idled.advance)

lemma restore_advances: "restoreViewerPort c h i d = Inr d' \<Longrightarrow> advances (runtimes d) (runtimes d')"
  by (auto simp: restoreViewerPort_def Let_def res_simps split: if_splits intro!: advances_update)

lemma feed_advances:
  assumes "ListAssignedRuntimes c h d = Inr (rs, d')"
  shows "advances (runtimes d) (runtimes d')"
proof -
  have "efold (restoreViewerPort c k) is d = Inr d' \<Longrightarrow> advances (runtimes d) (runtimes d')" for k "is" d
  proof (induction "is" arbitrary: d)
    case (Cons i "is")
    then show ?case by (auto simp: res_simps dest!: restore_advances intro: advances_trans)
  qed simp
  with assms show ?thesis
    by (auto simp: ListAssignedRuntimes_def allocateMissingViewerPortsForHostTX_def Let_def res_simps split: if_splits)
qed

lemma billing_advances:
  assumes "same_but_billing d d'"
  shows "advances (runtimes d) (runtimes d')"
  unfolding advances_def
proof
  fix r' assume "r' \<in> set (runtimes d')"
  then have "r'\<lparr>r_billed_through := None\<rparr> \<in> set (map (\<lambda>r. r\<lparr>r_billed_through := None\<rparr>) (runtimes d'))" by simp
  moreover have "map (\<lambda>r. r\<lparr>r_billed_through := None\<rparr>) (runtimes d') = map (\<lambda>r. r\<lparr>r_billed_through := None\<rparr>) (runtimes d)"
    using assms unfolding same_but_billing_def by blast
  ultimately have "r'\<lparr>r_billed_through := None\<rparr> \<in> set (map (\<lambda>r. r\<lparr>r_billed_through := None\<rparr>) (runtimes d))" by (simp only:)
  then obtain r where r: "r \<in> set (runtimes d)" "r'\<lparr>r_billed_through := None\<rparr> = r\<lparr>r_billed_through := None\<rparr>" by auto
  have "r_id r' = r_id r" "r_operation_generation r' = r_operation_generation r"
    using arg_cong [OF r(2), of r_id] arg_cong [OF r(2), of r_operation_generation] by simp_all
  with r(1) show "\<exists>r \<in> set (runtimes d). r_id r = r_id r' \<and> r_operation_generation r \<le> r_operation_generation r'" by auto
qed

lemma meter_advances:
  assumes "MeterUsage c p d = Inr (res, d')"
  shows "advances (runtimes d) (runtimes d')"
proof -
  define d1 where "d1 = db_of (meterRuntimeTimeTX c (RuntimeHourMicro p) d)"
  have stop: "advances (runtimes x) (runtimes (snd (queueRuntimeStopsTX c P s m x)))" for P s m x
    by (simp add: queued_stop.advance)
  obtain n d2 where d2: "(if Enabled p then chargeStorageTX c (StorageGiBMonthMicro p) d1 else Inr (0, d1)) = Inr (n, d2)"
    and d': "d' = (let d3 = snd (queueRuntimeStopsTX c (trial_over d2) ''trial runtime time used up''
          ''Runtime stop queued because the trial's hour of running time is used up.'' d2)
        in if Enabled p then snd (queueRuntimeStopsTX c (balance_over d3) ''USDT balance used up''
          ''Runtime stop queued because the account's USDT balance is used up.'' d3) else d3)"
    using assms by (auto simp: MeterUsage_def Let_def res_simps d1_def split_def split: if_splits)
  have "runtimes d2 = runtimes d1"
    using d2 by (auto simp: chargeStorageTX_def split: if_splits dest!: chargeStorages_frame)
  moreover have "advances (runtimes d) (runtimes d1)" unfolding d1_def by (rule billing_advances [OF meterRuntimeTimeTX_same])
  moreover have "advances (runtimes d2) (runtimes d')"
    unfolding d' Let_def using stop advances_trans [OF stop stop] by (cases "Enabled p") (simp_all only: if_True if_False)
  ultimately show ?thesis using advances_trans by simp
qed

lemma reconcile_advances: "ReconcileProvisionedVMs c newIDs policy d = Inr (s, d') \<Longrightarrow> advances (runtimes d) (runtimes d')"
  by (simp add: reconcile_runtimes(1) vm_reset.advance)

section \<open>Control steps\<close>

text \<open>
  The id of a new runtime is random (\<open>uuid.NewString\<close>), so a step never creates a runtime with the id \<open>i\<close> of one
  that there was.
\<close>

inductive control_step :: "string \<Rightarrow> db \<Rightarrow> db \<Rightarrow> bool" for i where
  create: "CreateRuntime c ver j a input d = Inr (r, d') \<Longrightarrow> j \<noteq> i \<Longrightarrow> control_step i d d'"
| settings: "UpdateRuntimeSettings c ver a j input' d = Inr (r, d') \<Longrightarrow> control_step i d d'"
| start: "startRuntime c p a j h fresh d = Inr (r, d') \<Longrightarrow> control_step i d d'"
| stop: "StopRuntime c a j d = Inr (r, d') \<Longrightarrow> control_step i d d'"
| wipe: "wipeRuntime c a j h d = Inr (r, d') \<Longrightarrow> control_step i d d'"
| delete: "deleteRuntime c a j h d = Inr (r, d') \<Longrightarrow> control_step i d d'"
| end_session: "EndSessionAndStopRuntime c a v s j d = Inr (r, d') \<Longrightarrow> control_step i d d'"
| end_capability_session: "EndSessionAndStopRuntimeWithCapability c a v s j d = Inr (r, d') \<Longrightarrow> control_step i d d'"
| delete_account: "DeleteAccount c a d = Inr (u, d') \<Longrightarrow> control_step i d d'"
| revoke_device: "RevokeDevice c a v d = Inr (w, d') \<Longrightarrow> control_step i d d'"
| feed: "ListAssignedRuntimes c h d = Inr (rs, d') \<Longrightarrow> control_step i d d'"
| report: "UpdateRuntimeObservation c j obs d = Inr (u, d') \<Longrightarrow> control_step i d d'"
| reap: "ReapStaleSessions c t d = Inr (res, d') \<Longrightarrow> control_step i d d'"
| meter: "MeterUsage c p d = Inr (res', d') \<Longrightarrow> control_step i d d'"
| reconcile: "ReconcileProvisionedVMs c newIDs policy d = Inr (summary, d') \<Longrightarrow> control_step i d d'"

definition generation_from :: "string \<Rightarrow> int \<Rightarrow> db \<Rightarrow> bool" where
  "generation_from i g d \<longleftrightarrow> (\<forall>r \<in> set (runtimes d). r_id r = i \<longrightarrow> g \<le> r_operation_generation r)"

lemma advances_floor: "advances (runtimes d) (runtimes d') \<Longrightarrow> generation_from i g d \<Longrightarrow> generation_from i g d'"
  unfolding advances_def generation_from_def by (metis order_trans)

lemmas step_advances = settings_advance startRuntime_advances StopRuntime_advances wipeRuntime_advances deleteRuntime_advances
  end_session_advances DeleteAccount_advances RevokeDevice_advances feed_advances report_advances reap_advances meter_advances
  reconcile_advances

lemma step_floor: "control_step i d d' \<Longrightarrow> generation_from i g d \<Longrightarrow> generation_from i g d'"
proof (induction rule: control_step.induct)
  case (create c ver j a input d r d')
  from create(1) show ?case
    by (rule CreateRuntime_cases) (use create(2,3) in \<open>auto simp: generation_from_def new_runtime_def\<close>)
qed (blast intro: advances_floor step_advances)+

lemma steps_floor: "(control_step i)\<^sup>*\<^sup>* d d' \<Longrightarrow> generation_from i g d \<Longrightarrow> generation_from i g d'"
  by (induction rule: rtranclp_induct) (auto intro: step_floor)

text \<open>
  C18. Nodes are fenced: once a runtime has reached an operation generation, no report for an earlier one is
  accepted any more - whatever creates, settings, starts, stops, wipes, deletions, closed sessions, device revocations,
  assignment feeds, reports, reaper, metering and VM reconcile passes follow, in any order and number.
\<close>

theorem stale_reports_refused:
  assumes "(control_step (r_id r))\<^sup>*\<^sup>* d d'" and "distinct (map r_id (runtimes d))" and "r \<in> set (runtimes d)"
    and "ob_OperationGeneration obs < r_operation_generation r"
  shows "\<exists>e. UpdateRuntimeObservation c (r_id r) obs d' = Inl e"
proof -
  have "generation_from (r_id r) (r_operation_generation r) d"
    unfolding generation_from_def using key_eq_row [OF assms(2) _ assms(3)] by fastforce
  from steps_floor [OF assms(1) this] assms(4) have no: "\<not> reported_row (r_id r) obs q" if "q \<in> set (runtimes d')" for q
    using that by (auto simp: generation_from_def reported_row_def)
  show ?thesis
  proof (cases "UpdateRuntimeObservation c (r_id r) obs d'")
    case (Inr x)
    obtain u d'' where "UpdateRuntimeObservation c (r_id r) obs d' = Inr (u, d'')" using Inr by (cases x) simp
    then show ?thesis by (rule UpdateRuntimeObservation_cases) (use no in \<open>blast dest: find_SomeD\<close>)+
  qed simp
qed

definition sample_restarted :: db where
  "sample_restarted = sample_live\<lparr>runtimes := [sample_running\<lparr>r_operation_generation := 2\<rparr>]\<rparr>"

theorem stale_reports_refused_witness:
  "\<exists>r d' e. StopRuntime sample_ctx ''a1'' ''r1'' sample_restarted = Inr (r, d')
     \<and> UpdateRuntimeObservation sample_ctx ''r1'' (sample_report\<lparr>ob_OperationGeneration := 1\<rparr>) d' = Inl e"
proof -
  let ?r = "sample_running\<lparr>r_operation_generation := 2\<rparr>"
  have "map_sum id (\<lambda>_. ()) (StopRuntime sample_ctx ''a1'' ''r1'' sample_restarted) = Inr ()" by code_simp
  then obtain r d' where x: "StopRuntime sample_ctx ''a1'' ''r1'' sample_restarted = Inr (r, d')" by (auto dest: sample_run)
  then have s: "(control_step ''r1'')\<^sup>*\<^sup>* sample_restarted d'" by (blast intro: control_step.stop)
  have row: "r_id ?r = ''r1''" "distinct (map r_id (runtimes sample_restarted))" "?r \<in> set (runtimes sample_restarted)"
    by (simp_all add: sample_restarted_def sample_defs)
  from stale_reports_refused [of ?r sample_restarted d' "sample_report\<lparr>ob_OperationGeneration := 1\<rparr>" sample_ctx] s row x
  show ?thesis by auto
qed

end
