(* ===== verification/BlobKeys.thy ===== *)
theory BlobKeys
  imports Placement Samples
begin

text \<open>
  Blob key handoffs (\<open>internal/store/store.go\<close>). The key of a runtime's snapshots is known to the phone only. For an
  operation the phone is given a lease and the node it is for, seals the key for that node, and the store keeps
  the envelope until the node fetches it or the lease expires.
\<close>

section \<open>Operations\<close>

definition RuntimeBlobKeyTarget :: "ctx \<Rightarrow> string \<Rightarrow> string \<Rightarrow> string \<Rightarrow> db \<Rightarrow> (runtime \<times> host) res" where
  "RuntimeBlobKeyTarget c accountID0 runtimeID0 operation0 d =
     (let accountID = TrimSpace accountID0; runtimeID = TrimSpace runtimeID0; operation = ToLower (TrimSpace operation0) in
      if accountID = [] \<or> runtimeID = [] then Inl ErrRuntimeNotFound
      else ebind (of_row ErrRuntimeNotFound (find (runtime_row accountID runtimeID) (runtimes d))) (\<lambda>r.
        ebind (if operation = ''start'' then runtimeStartHostTX c r d
               else if operation = ''stop'' then runtimeCleanupHostTX c r d
               else if operation = ''wipe'' then runtimeCleanupHostTX c r d
               else if operation = ''delete'' then runtimeCleanupHostTX c r d
               else if operation = ''session''
               then if r_status r \<noteq> ''running'' \<or> r_desired_state r \<noteq> ''running'' \<or> r_connection_status r \<noteq> ''online''
                    then Inl ErrRuntimeNotReady
                    else let hostID = valueOrEmpty (r_host_id r) in if hostID = [] then Inl ErrRuntimeNotReady else Inr hostID
               else Inl ErrRuntimeNotReady) (\<lambda>hostID.
        ebind (getBlobKeyHostTX c hostID d) (\<lambda>h.
        if TrimSpace (h_public_key h) = [] then Inl ErrHostNotFound else Inr (r, h)))))"

record RuntimeBlobKeyHandoff =
  hf_AccountID :: string
  hf_RuntimeID :: string
  hf_HostID :: string
  hf_Operation :: string
  hf_LeaseID :: string
  hf_EnvelopeJSON :: string
  hf_BlobKeyVerifier :: string
  hf_ExpiresAt :: time

text \<open>
  The row of a lease, without a key: its ids are trimmed. The times of the row itself are left out.
\<close>

definition lease_of :: "RuntimeBlobKeyHandoff \<Rightarrow> blob_key_handoff" where
  "lease_of hf =
     \<lparr>b_runtime_id = TrimSpace (hf_RuntimeID hf), b_account_id = TrimSpace (hf_AccountID hf), b_host_id = TrimSpace (hf_HostID hf),
      b_operation = TrimSpace (hf_Operation hf), b_lease_id = TrimSpace (hf_LeaseID hf), b_envelope_json = None,
      b_blob_key_verifier = None, b_expires_at = hf_ExpiresAt hf, b_activated_at = None\<rparr>"

definition blank_lease :: "blob_key_handoff \<Rightarrow> bool" where
  "blank_lease b \<longleftrightarrow> b_account_id b = [] \<or> b_runtime_id b = [] \<or> b_host_id b = [] \<or> b_operation b = [] \<or> b_lease_id b = []"

definition PutRuntimeBlobKeyLease :: "ctx \<Rightarrow> RuntimeBlobKeyHandoff \<Rightarrow> unit tx" where
  "PutRuntimeBlobKeyLease c hf d =
     (let b = lease_of hf in
      if blank_lease b \<or> \<not> b_expires_at b > go_now c then Inl ErrRuntimeBlobKeyHandoff
      else if \<not> (\<exists>r \<in> set (runtimes d). runtime_row (b_account_id b) (b_runtime_id b) r) then Inl ErrRuntimeBlobKeyHandoff
      else Inr ((), d\<lparr>runtime_blob_key_handoffs :=
        (if \<exists>q \<in> set (runtime_blob_key_handoffs d). b_runtime_id q = b_runtime_id b
         then update_where (\<lambda>q. b_runtime_id q = b_runtime_id b) (\<lambda>_. b) (runtime_blob_key_handoffs d)
         else runtime_blob_key_handoffs d @ [b])\<rparr>))"

definition leased :: "ctx \<Rightarrow> blob_key_handoff \<Rightarrow> blob_key_handoff \<Rightarrow> bool" where
  "leased c b q \<longleftrightarrow> b_account_id q = b_account_id b \<and> b_runtime_id q = b_runtime_id b \<and> b_host_id q = b_host_id b
     \<and> b_operation q = b_operation b \<and> b_lease_id q = b_lease_id b \<and> b_expires_at q > db_now c"

definition ActivateRuntimeBlobKeyHandoff :: "ctx \<Rightarrow> RuntimeBlobKeyHandoff \<Rightarrow> RuntimeBlobKeyHandoff tx" where
  "ActivateRuntimeBlobKeyHandoff c hf d =
     (let b = lease_of hf; envelope = TrimSpace (hf_EnvelopeJSON hf); verifier = TrimSpace (hf_BlobKeyVerifier hf) in
      if blank_lease b \<or> envelope = [] \<or> verifier = [] then Inl ErrRuntimeBlobKeyHandoff
      else ebind (of_row ErrRuntimeBlobKeyHandoff (find (leased c b) (runtime_blob_key_handoffs d))) (\<lambda>q.
        Inr (\<lparr>hf_AccountID = b_account_id b, hf_RuntimeID = b_runtime_id b, hf_HostID = b_host_id b, hf_Operation = b_operation b,
              hf_LeaseID = b_lease_id b, hf_EnvelopeJSON = envelope, hf_BlobKeyVerifier = verifier, hf_ExpiresAt = b_expires_at q\<rparr>,
             d\<lparr>runtime_blob_key_handoffs := update_where (leased c b)
                (\<lambda>q. q\<lparr>b_envelope_json := Some envelope, b_blob_key_verifier := Some verifier, b_activated_at := Some (db_now c)\<rparr>) (runtime_blob_key_handoffs d)\<rparr>)))"

definition GetRuntimeBlobKeyHandoff :: "ctx \<Rightarrow> string \<Rightarrow> string \<Rightarrow> db \<Rightarrow> RuntimeBlobKeyHandoff res" where
  "GetRuntimeBlobKeyHandoff c runtimeID hostID d =
     ebind (of_row ErrRuntimeBlobKeyHandoff (find (\<lambda>q. b_runtime_id q = TrimSpace runtimeID \<and> b_host_id q = TrimSpace hostID
       \<and> b_expires_at q > db_now c \<and> sql_filled (b_envelope_json q) \<and> sql_filled (b_blob_key_verifier q))
       (runtime_blob_key_handoffs d))) (\<lambda>q.
     Inr \<lparr>hf_AccountID = b_account_id q, hf_RuntimeID = b_runtime_id q, hf_HostID = b_host_id q, hf_Operation = b_operation q,
          hf_LeaseID = b_lease_id q, hf_EnvelopeJSON = coalesce (b_envelope_json q) [],
          hf_BlobKeyVerifier = coalesce (b_blob_key_verifier q) [], hf_ExpiresAt = b_expires_at q\<rparr>)"

definition ClearRuntimeBlobKeyHandoff :: "string \<Rightarrow> db \<Rightarrow> db" where
  "ClearRuntimeBlobKeyHandoff runtimeID d =
     d\<lparr>runtime_blob_key_handoffs := delete_where (\<lambda>b. b_runtime_id b = TrimSpace runtimeID) (runtime_blob_key_handoffs d)\<rparr>"

definition ClearAccountBlobKeyHandoffs :: "string \<Rightarrow> db \<Rightarrow> db" where
  "ClearAccountBlobKeyHandoffs accountID d =
     d\<lparr>runtime_blob_key_handoffs := delete_where (\<lambda>b. b_account_id b = TrimSpace accountID) (runtime_blob_key_handoffs d)\<rparr>"

section \<open>A key reaches the node it was sealed for\<close>

definition handoffs_wf :: "db \<Rightarrow> bool" where
  "handoffs_wf d \<longleftrightarrow> distinct (map b_runtime_id (runtime_blob_key_handoffs d))"

lemma trim_by_nonempty: "x \<in> set s \<Longrightarrow> \<not> p x \<Longrightarrow> trim_by p s \<noteq> []"
proof -
  assume x: "x \<in> set s" "\<not> p x"
  then have "x \<in> set (dropWhile p s)" by (induction s) auto
  then have "x \<in> set (rev (dropWhile p s))" by simp
  with x(2) have "dropWhile p (rev (dropWhile p s)) \<noteq> []" unfolding dropWhile_eq_Nil_conv by blast
  then show ?thesis unfolding trim_by_def by (metis rev_is_Nil_conv)
qed

lemma trimmed_filled: "TrimSpace s \<noteq> [] \<Longrightarrow> sql_filled (Some (TrimSpace s))"
proof -
  assume s: "TrimSpace s \<noteq> []"
  then have "dropWhile is_space (rev (dropWhile is_space s)) \<noteq> []" unfolding TrimSpace_def trim_by_def rev_is_Nil_conv .
  from hd_dropWhile [OF this] have "\<not> is_space (last (TrimSpace s))" unfolding TrimSpace_def trim_by_def last_rev .
  moreover have "is_space (CHR '' '')" by (simp add: is_space_def)
  ultimately have l: "last (TrimSpace s) \<noteq> CHR '' ''" by metis
  have "trim_by (\<lambda>c. c = CHR '' '') (TrimSpace s) \<noteq> []" by (rule trim_by_nonempty [OF last_in_set [OF s]]) (rule l)
  then show ?thesis unfolding sql_filled_def sql_trim_def option.case .
qed

lemma PutRuntimeBlobKeyLease_rows:
  assumes "PutRuntimeBlobKeyLease c hf d = Inr (u, d')"
  shows "\<forall>q \<in> set (runtime_blob_key_handoffs d'). b_runtime_id q = TrimSpace (hf_RuntimeID hf) \<longrightarrow> q = lease_of hf"
    and "handoffs_wf d \<Longrightarrow> handoffs_wf d'"
    and "\<exists>r \<in> set (runtimes d). runtime_row (TrimSpace (hf_AccountID hf)) (TrimSpace (hf_RuntimeID hf)) r"
proof -
  let ?b = "lease_of hf"
  have i: "b_runtime_id ?b = TrimSpace (hf_RuntimeID hf)" "b_account_id ?b = TrimSpace (hf_AccountID hf)" by (simp_all add: lease_of_def)
  have d': "runtime_blob_key_handoffs d' = (if \<exists>q \<in> set (runtime_blob_key_handoffs d). b_runtime_id q = b_runtime_id ?b
         then update_where (\<lambda>q. b_runtime_id q = b_runtime_id ?b) (\<lambda>_. ?b) (runtime_blob_key_handoffs d)
         else runtime_blob_key_handoffs d @ [?b])"
    and r: "\<exists>r \<in> set (runtimes d). runtime_row (b_account_id ?b) (b_runtime_id ?b) r"
    using assms by (auto simp: PutRuntimeBlobKeyLease_def Let_def split: if_splits)
  show "\<forall>q \<in> set (runtime_blob_key_handoffs d'). b_runtime_id q = TrimSpace (hf_RuntimeID hf) \<longrightarrow> q = ?b"
    unfolding d' i(1) [symmetric] by (auto simp: set_update_where)
  have same: "map b_runtime_id (update_where (\<lambda>q. b_runtime_id q = b_runtime_id ?b) (\<lambda>_. ?b) qs) = map b_runtime_id qs" for qs
    by (auto simp: update_where_def)
  show "handoffs_wf d \<Longrightarrow> handoffs_wf d'" unfolding handoffs_wf_def d' by (auto simp: same)
  show "\<exists>r \<in> set (runtimes d). runtime_row (TrimSpace (hf_AccountID hf)) (TrimSpace (hf_RuntimeID hf)) r" using r i by simp
qed

lemma ActivateRuntimeBlobKeyHandoff_rows:
  assumes "ActivateRuntimeBlobKeyHandoff c hf d = Inr (v, d')" and "handoffs_wf d"
  obtains q where "q \<in> set (runtime_blob_key_handoffs d)" "leased c (lease_of hf) q"
    "\<forall>x \<in> set (runtime_blob_key_handoffs d'). b_runtime_id x = TrimSpace (hf_RuntimeID hf) \<longrightarrow>
       x = q\<lparr>b_envelope_json := Some (hf_EnvelopeJSON v), b_blob_key_verifier := Some (hf_BlobKeyVerifier v), b_activated_at := Some (db_now c)\<rparr>"
    "\<exists>x \<in> set (runtime_blob_key_handoffs d'). b_runtime_id x = TrimSpace (hf_RuntimeID hf)"
    "hf_EnvelopeJSON v = TrimSpace (hf_EnvelopeJSON hf)" "hf_EnvelopeJSON v \<noteq> []"
    "hf_BlobKeyVerifier v = TrimSpace (hf_BlobKeyVerifier hf)" "hf_BlobKeyVerifier v \<noteq> []"
    "hf_ExpiresAt v = b_expires_at q" "hf_RuntimeID v = b_runtime_id q" "hf_AccountID v = b_account_id q" "hf_HostID v = b_host_id q"
    "hf_Operation v = b_operation q" "hf_LeaseID v = b_lease_id q"
proof -
  let ?b = "lease_of hf" and ?e = "TrimSpace (hf_EnvelopeJSON hf)" and ?k = "TrimSpace (hf_BlobKeyVerifier hf)"
  let ?f = "\<lambda>q. q\<lparr>b_envelope_json := Some ?e, b_blob_key_verifier := Some ?k, b_activated_at := Some (db_now c)\<rparr>"
  obtain q where q: "find (leased c ?b) (runtime_blob_key_handoffs d) = Some q" and ne: "?e \<noteq> []" "?k \<noteq> []"
    and v: "v = \<lparr>hf_AccountID = b_account_id ?b, hf_RuntimeID = b_runtime_id ?b, hf_HostID = b_host_id ?b, hf_Operation = b_operation ?b,
              hf_LeaseID = b_lease_id ?b, hf_EnvelopeJSON = ?e, hf_BlobKeyVerifier = ?k, hf_ExpiresAt = b_expires_at q\<rparr>"
    and d': "runtime_blob_key_handoffs d' = update_where (leased c ?b) ?f (runtime_blob_key_handoffs d)"
    using assms(1) by (auto simp: ActivateRuntimeBlobKeyHandoff_def Let_def res_simps split: if_splits)
  have qq: "q \<in> set (runtime_blob_key_handoffs d)" "leased c ?b q" using find_SomeD [OF q] by auto
  then have ids: "b_runtime_id q = TrimSpace (hf_RuntimeID hf)" by (simp add: leased_def lease_of_def)
  have row: "x = ?f q" if x: "x \<in> set (runtime_blob_key_handoffs d')" "b_runtime_id x = TrimSpace (hf_RuntimeID hf)" for x
  proof -
    obtain y where y: "y \<in> set (runtime_blob_key_handoffs d)" "x = (if leased c ?b y then ?f y else y)"
      using x(1) unfolding d' by (auto simp: set_update_where)
    have "b_runtime_id y = b_runtime_id q" using x(2) y(2) ids by (cases "leased c ?b y") simp_all
    from key_eq_row [OF assms(2) [unfolded handoffs_wf_def] y(1) qq(1) this] y(2) qq(2) show ?thesis by simp
  qed
  have ex: "\<exists>x \<in> set (runtime_blob_key_handoffs d'). b_runtime_id x = TrimSpace (hf_RuntimeID hf)"
    unfolding d' bex_update_where using qq ids by (intro bexI [of _ q]) simp_all
  show ?thesis by (rule that [OF qq]) (use row ex ne qq(2) in \<open>auto simp: v leased_def\<close>)
qed

text \<open>
  C30. A snapshot key reaches only the node and lease it was sealed for: a new lease takes back whatever key the
  runtime had, so that no node is given one, and makes every earlier lease useless; a key is only
  accepted for an unexpired lease with the same account, runtime, node and operation; it is then handed, unchanged, to that node until
  the lease expires, and to no other.
\<close>

theorem blob_key_handoff_safe:
  assumes "handoffs_wf d"
  shows "(PutRuntimeBlobKeyLease c hf d = Inr (u, d') \<longrightarrow> handoffs_wf d'
      \<and> (\<forall>c' h. GetRuntimeBlobKeyHandoff c' (hf_RuntimeID hf) h d' = Inl ErrRuntimeBlobKeyHandoff)
      \<and> (\<forall>c' old. TrimSpace (hf_RuntimeID old) = TrimSpace (hf_RuntimeID hf) \<and> TrimSpace (hf_LeaseID old) \<noteq> TrimSpace (hf_LeaseID hf)
           \<longrightarrow> ActivateRuntimeBlobKeyHandoff c' old d' = Inl ErrRuntimeBlobKeyHandoff))
    \<and> (ActivateRuntimeBlobKeyHandoff c hf d = Inr (v, d'') \<longrightarrow>
        (\<exists>q \<in> set (runtime_blob_key_handoffs d). leased c (lease_of hf) q)
      \<and> (\<forall>c' h. GetRuntimeBlobKeyHandoff c' (hf_RuntimeID hf) h d'' =
           (if TrimSpace h = TrimSpace (hf_HostID hf) \<and> db_now c' < hf_ExpiresAt v then Inr v else Inl ErrRuntimeBlobKeyHandoff)))"
proof (intro conjI impI)
  assume p: "PutRuntimeBlobKeyLease c hf d = Inr (u, d')"
  note P = PutRuntimeBlobKeyLease_rows [OF p]
  show "handoffs_wf d'" by (rule P(2) [OF assms])
  have e: "b_envelope_json (lease_of hf) = None" "b_lease_id (lease_of hf) = TrimSpace (hf_LeaseID hf)" by (simp_all add: lease_of_def)
  have none: "find Q (runtime_blob_key_handoffs d') = None"
    if "\<And>q. Q q \<Longrightarrow> b_runtime_id q = TrimSpace (hf_RuntimeID hf)" "\<not> Q (lease_of hf)" for Q
    using P(1) that unfolding find_None_iff by blast
  show "\<forall>c' h. GetRuntimeBlobKeyHandoff c' (hf_RuntimeID hf) h d' = Inl ErrRuntimeBlobKeyHandoff"
    unfolding GetRuntimeBlobKeyHandoff_def by (subst none) (simp_all add: e sql_filled_def sql_trim_def of_row_def)
  show "\<forall>c' old. TrimSpace (hf_RuntimeID old) = TrimSpace (hf_RuntimeID hf) \<and> TrimSpace (hf_LeaseID old) \<noteq> TrimSpace (hf_LeaseID hf)
      \<longrightarrow> ActivateRuntimeBlobKeyHandoff c' old d' = Inl ErrRuntimeBlobKeyHandoff"
  proof (intro allI impI, elim conjE)
    fix c' and old :: RuntimeBlobKeyHandoff
    assume o: "TrimSpace (hf_RuntimeID old) = TrimSpace (hf_RuntimeID hf)" "TrimSpace (hf_LeaseID old) \<noteq> TrimSpace (hf_LeaseID hf)"
    have "find (leased c' (lease_of old)) (runtime_blob_key_handoffs d') = None"
      by (rule none) (use o e in \<open>auto simp: leased_def lease_of_def\<close>)
    then show "ActivateRuntimeBlobKeyHandoff c' old d' = Inl ErrRuntimeBlobKeyHandoff"
      by (simp add: ActivateRuntimeBlobKeyHandoff_def Let_def of_row_def)
  qed
next
  assume a: "ActivateRuntimeBlobKeyHandoff c hf d = Inr (v, d'')"
  obtain q where q: "q \<in> set (runtime_blob_key_handoffs d)" "leased c (lease_of hf) q"
    and rows: "\<forall>x \<in> set (runtime_blob_key_handoffs d''). b_runtime_id x = TrimSpace (hf_RuntimeID hf) \<longrightarrow>
       x = q\<lparr>b_envelope_json := Some (hf_EnvelopeJSON v), b_blob_key_verifier := Some (hf_BlobKeyVerifier v), b_activated_at := Some (db_now c)\<rparr>"
    and ex: "\<exists>x \<in> set (runtime_blob_key_handoffs d''). b_runtime_id x = TrimSpace (hf_RuntimeID hf)"
    and v: "hf_EnvelopeJSON v = TrimSpace (hf_EnvelopeJSON hf)" "hf_EnvelopeJSON v \<noteq> []"
      "hf_BlobKeyVerifier v = TrimSpace (hf_BlobKeyVerifier hf)" "hf_BlobKeyVerifier v \<noteq> []"
      "hf_ExpiresAt v = b_expires_at q" "hf_RuntimeID v = b_runtime_id q" "hf_AccountID v = b_account_id q" "hf_HostID v = b_host_id q"
      "hf_Operation v = b_operation q" "hf_LeaseID v = b_lease_id q"
    by (rule ActivateRuntimeBlobKeyHandoff_rows [OF a assms]) blast
  show "\<exists>q \<in> set (runtime_blob_key_handoffs d). leased c (lease_of hf) q" using q by blast
  let ?x = "q\<lparr>b_envelope_json := Some (hf_EnvelopeJSON v), b_blob_key_verifier := Some (hf_BlobKeyVerifier v), b_activated_at := Some (db_now c)\<rparr>"
  have q': "b_runtime_id q = TrimSpace (hf_RuntimeID hf)" "b_host_id q = TrimSpace (hf_HostID hf)"
    using q(2) by (simp_all add: leased_def lease_of_def)
  have filled: "sql_filled (Some (hf_EnvelopeJSON v))" "sql_filled (Some (hf_BlobKeyVerifier v))"
    using v(1-4) trimmed_filled by metis+
  have pick: "find Q (runtime_blob_key_handoffs d'') = (if Q ?x then Some ?x else None)"
    if "\<And>y. Q y \<Longrightarrow> b_runtime_id y = TrimSpace (hf_RuntimeID hf)" for Q
  proof (cases "find Q (runtime_blob_key_handoffs d'')")
    case None
    have "?x \<in> set (runtime_blob_key_handoffs d'')" using ex rows by metis
    with None show ?thesis by (auto simp: find_None_iff)
  next
    case (Some y)
    with find_SomeD [OF Some] rows that show ?thesis by (metis option.inject)
  qed
  show "\<forall>c' h. GetRuntimeBlobKeyHandoff c' (hf_RuntimeID hf) h d'' =
      (if TrimSpace h = TrimSpace (hf_HostID hf) \<and> db_now c' < hf_ExpiresAt v then Inr v else Inl ErrRuntimeBlobKeyHandoff)"
    unfolding GetRuntimeBlobKeyHandoff_def
    by (subst pick) (use q' filled v in \<open>auto simp: of_row_def coalesce_def\<close>)
qed

definition sample_handoff :: RuntimeBlobKeyHandoff where
  "sample_handoff = \<lparr>hf_AccountID = ''a1'', hf_RuntimeID = ''r1'', hf_HostID = ''h1'', hf_Operation = ''start'', hf_LeaseID = ''l1'',
     hf_EnvelopeJSON = ''{}'', hf_BlobKeyVerifier = ''v'', hf_ExpiresAt = 1000000000001\<rparr>"

theorem blob_key_handoff_safe_witness:
  "\<exists>d' v d''. PutRuntimeBlobKeyLease sample_ctx sample_handoff sample_db = Inr ((), d')
     \<and> GetRuntimeBlobKeyHandoff sample_ctx ''r1'' ''h1'' d' = Inl ErrRuntimeBlobKeyHandoff
     \<and> ActivateRuntimeBlobKeyHandoff sample_ctx sample_handoff d' = Inr (v, d'')
     \<and> (\<forall>c' h. TrimSpace h \<noteq> ''h1'' \<longrightarrow> GetRuntimeBlobKeyHandoff c' ''r1'' h d'' = Inl ErrRuntimeBlobKeyHandoff)"
proof -
  have wf: "handoffs_wf sample_db" by (simp add: handoffs_wf_def sample_defs)
  have "map_sum id (\<lambda>_. ()) (ebind (PutRuntimeBlobKeyLease sample_ctx sample_handoff sample_db) (\<lambda>(_, d). ActivateRuntimeBlobKeyHandoff sample_ctx sample_handoff d)) = Inr ()"
    by code_simp
  then obtain d' v d'' where x: "PutRuntimeBlobKeyLease sample_ctx sample_handoff sample_db = Inr ((), d')"
      "ActivateRuntimeBlobKeyHandoff sample_ctx sample_handoff d' = Inr (v, d'')"
    by (auto dest!: sample_run simp: res_simps)
  have f: "hf_RuntimeID sample_handoff = ''r1''" "TrimSpace (hf_HostID sample_handoff) = ''h1''" by code_simp+
  note put = blob_key_handoff_safe [OF wf, THEN conjunct1, THEN mp, OF x(1)]
  have p: "handoffs_wf d'" "GetRuntimeBlobKeyHandoff sample_ctx ''r1'' ''h1'' d' = Inl ErrRuntimeBlobKeyHandoff"
    using put unfolding f(1) by blast+
  note act = blob_key_handoff_safe [OF p(1), THEN conjunct2, THEN mp, OF x(2), THEN conjunct2, unfolded f]
  have "GetRuntimeBlobKeyHandoff c' ''r1'' h d'' = Inl ErrRuntimeBlobKeyHandoff" if "TrimSpace h \<noteq> ''h1''" for c' h
    using act [rule_format, of c' h] that by (simp only: if_False simp_thms)
  with x p(2) show ?thesis by blast
qed

section \<open>Which node a key is sealed for\<close>

lemma RuntimeBlobKeyTarget_host:
  assumes "RuntimeBlobKeyTarget c a i operation d = Inr (r, h)"
  shows "r \<in> set (runtimes d) \<and> runtime_row (TrimSpace a) (TrimSpace i) r \<and> h \<in> set (hosts d) \<and> registered c d h
    \<and> TrimSpace (h_public_key h) \<noteq> []"
proof -
  have ids: "\<not> (TrimSpace a = [] \<or> TrimSpace i = [])" using assms unfolding RuntimeBlobKeyTarget_def Let_def by (meson Inl_Inr_False)
  obtain q where q: "find (runtime_row (TrimSpace a) (TrimSpace i)) (runtimes d) = Some q"
    using assms ids unfolding RuntimeBlobKeyTarget_def Let_def
    by (cases "find (runtime_row (TrimSpace a) (TrimSpace i)) (runtimes d)") (simp_all add: of_row_def)
  obtain hostID g where "getBlobKeyHostTX c hostID d = Inr g" "(if TrimSpace (h_public_key g) = [] then Inl ErrHostNotFound else Inr (q, g)) = Inr (r, h)"
    using assms unfolding RuntimeBlobKeyTarget_def Let_def if_not_P [OF ids] q of_row_def option.case ebind_simps ebind_eq_Inr by blast
  then show ?thesis using find_SomeD [OF q] by (auto simp: getBlobKeyHostTX_def res_simps split: if_splits dest!: find_SomeD)
qed

end
