(* ===== verification/Spec2Isabelle.thy ===== *)
theory Spec2Isabelle
  imports Wallet Views Auth Fencing BlobKeys Provisioning
begin

text \<open>
  Virtroid's control plane, verified.

  Virtroid runs Android phones in containers on nodes. Its control plane, the Go program under
  \<open>src/backend\<close>, keeps all of its state in one PostgreSQL database; every operation of
  \<open>internal/store\<close> is one transaction on it, the HTTP handlers of \<open>internal/httpapi\<close> and the
  daemons call these operations, and the nodes and clients only ever change state through them. The
  development models those transactions.

  \<^bold>\<open>The state.\<close> \<open>Schema\<close> has a record per table of \<open>store/schema.sql\<close> with the columns that
  the modelled operations use, and the record \<open>db\<close> of all tables, each a list of rows. A statement is
  a function on lists (\<open>Prelude\<close>: \<open>update_where\<close>, \<open>delete_where\<close>, \<open>count_where\<close>, \<open>find\<close>,
  \<open>best_by\<close> for \<open>ORDER BY ... LIMIT 1\<close>). A transaction that returns an \<open>'a\<close> is a function
  \<open>db \<Rightarrow> err + ('a \<times> db)\<close>: an error is a rollback, so the database is then unchanged. Violated
  constraints and unique indexes are errors (\<open>ErrConstraint\<close>). The record \<open>ctx\<close> holds what a
  transaction takes from outside: the two clocks (\<open>NOW()\<close> and Go's), the JSON decoder, the token hash,
  the public key parser and, for \<open>SKIP LOCKED\<close>, which rows other transactions hold. Times are integers,
  in microseconds. Amounts and sizes are integers of any size; where the code checks for 64-bit
  overflow the check is in the model.

  \<^bold>\<open>The theories.\<close>
  \<^item> \<open>Statements\<close>: the statements that many transactions share - runtime logs, start events,
    closing sessions, revoking runtime capabilities.
  \<^item> \<open>Manifest\<close>: snapshot manifests and the storage an account uses.
  \<^item> \<open>Billing\<close> (\<open>store/billing.go\<close>): metering of runtime time and storage, trial time, balances.
  \<^item> \<open>Wallet\<close> (\<open>store/wallet.go\<close>): deposit indexes and the crediting of deposits.
  \<^item> \<open>Entitlement\<close>: the checks a create or start has to pass, the summary that clients see of
    them, and the codes the API answers with.
  \<^item> \<open>Profile\<close>: creating runtimes and changing their settings, sealed regions, app selections.
  \<^item> \<open>NodeRegistry\<close>: operators, nodes and their keys.
  \<^item> \<open>Placement\<close>: on which host a runtime may be started or cleaned up.
  \<^item> \<open>Lifecycle\<close>: start, stop, wipe and delete of runtimes, the assignment feed of the nodes,
    deletion of accounts, revocation of devices.
  \<^item> \<open>Observation\<close>: what the nodes report of their runtimes, with the storage quota.
  \<^item> \<open>Sessions\<close>: viewer sessions, relay tokens, and the reaper of stale sessions and idle runtimes.
  \<^item> \<open>Views\<close>: what a client is told of a runtime or session and may do with it.
  \<^item> \<open>Replay\<close>: runtime capabilities, and the nonces of signed requests.
  \<^item> \<open>Budget\<close> (\<open>httpapi/request_budget.go\<close>, \<open>httpapi/import_spool.go\<close>): the bytes held for requests and
    imports in flight, at 64-bit width, and the body limit that keeps their sums from wrapping.
  \<^item> \<open>Auth\<close> (\<open>httpapi/api.go\<close>, \<open>httpapi/provisioner.go\<close>, \<open>nodeauth\<close>, \<open>callbackauth\<close>): what is
    signed, and the checks of requests of devices, capabilities, nodes and services. A check takes the
    database and clocks twice, when the request arrives and when its body has been read. Keys,
    signatures and hashes are parameters.
  \<^item> \<open>BlobKeys\<close>: leases and envelopes of the keys that phones seal for nodes.
  \<^item> \<open>Addresses\<close>: IP addresses as Go's \<open>net\<close> package reads and writes them.
  \<^item> \<open>Provisioning\<close> (\<open>store/provisioning.go\<close>): the fleet of runtime VMs - which VM an account gets, what the
    provisioner's reports do, and the pass that retires VMs, frees the runtimes of deleted ones and tops up spares.
  \<^item> \<open>Fencing\<close>: the operations together, as the step relation \<open>control_step\<close>, with what holds along every sequence of
    steps.
  \<^item> \<open>Samples\<close>: a small installation on which the witnesses evaluate the operations.

  \<^bold>\<open>What is shown.\<close> Metering charges every account exactly the price of what it used and nothing
  twice, and stops what is used up. Deposits are credited once and the ledger books exactly them. At
  most two keys authenticate a node along any sequence of registry operations, and a revoked node never
  authenticates again. A runtime is only placed on a host that may run it, within the limits of its
  account, on a viewer port of its own. A runtime that is stopped, a device that is revoked and an
  account that is deleted lose their sessions and keys in the same transaction. Profiles and app
  selections in the database are always ones that nodes support. What the client is told about its
  entitlement is what the checks decide. A runtime has one viewer session at a time and a relay token attaches
  once; the reaper ends the sessions nobody holds and stops the runtimes nobody watches. No report
  of a node lowers the snapshot generation of a runtime or takes an account over its storage limit.
  Once a runtime has passed an operation generation, no report for an earlier one is accepted, whatever operations
  follow. A snapshot key is handed only to the node and within the lease it was sealed for.
  Every accepted request is signed by a key that is valid for its signer, over its own parts and body; no signed
  text can be taken for another; a nonce that was accepted is refused until it expires. A copy of a request whose
  body is still arriving at that moment can be accepted again (\<open>service_request_replayed\<close>). The byte
  budgets refine the multiset of outstanding reservations and pay for every large body before it is read.
  The fleet of VMs stays within the limits of its policy and every VM keeps its history; a pass retires every VM that
  the policy gives up, frees the runtimes of deleted VMs without letting their snapshot generations fall, and ends with the
  spares topped up; a deleted VM's node never authenticates again, but for one refused report (\<open>refused_unlock_keeps_key\<close>).

  \<^bold>\<open>Interfaces.\<close> The locale \<open>row_change\<close> (\<open>Lifecycle\<close>) is what an \<open>UPDATE\<close> of the runtimes
  table promises - it keeps ids, never lowers an operation generation, and gives up a port with a
  deletion - and what follows for the whole table; every update in the model is an interpretation of
  it. The locale \<open>host_choice\<close> (\<open>Placement\<close>) is the contract of the functions that pick a host.
  The locale \<open>session_change\<close> (\<open>Sessions\<close>) is what an update of the sessions table keeps, and
  \<open>replay_guard\<close> (\<open>Replay\<close>) is the contract of the three tables of nonces. The locale \<open>vm_change\<close>
  (\<open>Provisioning\<close>) is what an update of the fleet keeps of every VM.

  \<^bold>\<open>Loops.\<close> Loops over rows are folds over lists or structural recursion and need no fuel. The nesting
  of manifest fallbacks is bounded by the depth argument of the code. The loop that tops up spares is a \<open>function\<close>
  whose measure is the number of spares still missing.

  \<^bold>\<open>Not modelled.\<close> Operations of the store for the bootstrap and recovery of accounts, account storage settings and notices.
  The provisioner's own loop. The HTTP handlers but for their checks of signatures. Everything outside the Go control plane; the daemons, which only call these
  transactions around network, container and cryptographic code; columns and tables no modelled operation
  decides on; concurrency inside the database, which PostgreSQL's locks make invisible but for
  \<open>SKIP LOCKED\<close>.
\<close>

end
